(* ===== verification/Prelude.thy ===== *)
theory Prelude
  imports Main "HOL-Library.Word"
begin

unbundle bit_operations_syntax

text \<open>
  Shared vocabulary of the development: bytes, the outcome of a fallible Rust computation,
  the effect type that threads a mutable state through the \<open>?\<close> operator, big-endian
  integer conversion (\<open>to_be_bytes\<close> and \<open>from_be_bytes\<close> of the standard library), slice
  access with its panics, and the text formatting the crate uses. The generic lemmas on
  these, and the collections of facts the component theories extend, are here too.
\<close>

section \<open>Bytes and outcomes\<close>

type_synonym byte = "8 word"
type_synonym bytes = "byte list"

text \<open>
  \<open>Ok\<close> and \<open>Err\<close> are the two constructors of Rust's \<open>Result\<close>. \<open>Panic\<close> is a panic of the
  code or of the standard library function it calls (an index out of range, an arithmetic
  overflow under overflow checks, a failed \<open>expect\<close>); \<open>Loop\<close> is a computation that does not
  return.
\<close>

datatype ('e, 'a) outcome = Ok 'a | Err 'e | Panic | Loop

type_synonym ('s, 'e, 'a) eff = "'s \<Rightarrow> ('e, 'a) outcome \<times> 's"

definition ret :: "'a \<Rightarrow> ('s, 'e, 'a) eff" where
  "ret a s = (Ok a, s)"

definition raise :: "'e \<Rightarrow> ('s, 'e, 'a) eff" where
  "raise e s = (Err e, s)"

text \<open>An outcome computed without touching the state.\<close>

definition lift_outcome :: "('e, 'a) outcome \<Rightarrow> ('s, 'e, 'a) eff" where
  "lift_outcome x s = (x, s)"

text \<open>Sequencing, that is \<open>let a = m?; f(a)\<close>: anything but \<open>Ok\<close> ends the computation.\<close>

definition bindE :: "('s, 'e, 'a) eff \<Rightarrow> ('a \<Rightarrow> ('s, 'e, 'b) eff) \<Rightarrow> ('s, 'e, 'b) eff" where
  "bindE m f s = (case m s of
       (Ok a, s') \<Rightarrow> f a s'
     | (Err e, s') \<Rightarrow> (Err e, s')
     | (Panic, s') \<Rightarrow> (Panic, s')
     | (Loop, s') \<Rightarrow> (Loop, s'))"

fun bindO :: "('e, 'a) outcome \<Rightarrow> ('a \<Rightarrow> ('e, 'b) outcome) \<Rightarrow> ('e, 'b) outcome" where
  "bindO (Ok a) f = f a"
| "bindO (Err e) f = Err e"
| "bindO Panic f = Panic"
| "bindO Loop f = Loop"

definition map_err :: "('e \<Rightarrow> 'f) \<Rightarrow> ('e, 'a) outcome \<Rightarrow> ('f, 'a) outcome" where
  "map_err g x = (case x of Ok a \<Rightarrow> Ok a | Err e \<Rightarrow> Err (g e) | Panic \<Rightarrow> Panic | Loop \<Rightarrow> Loop)"

text \<open>The computation returns to its caller, with a value or with an error.\<close>

fun returns :: "('e, 'a) outcome \<Rightarrow> bool" where
  "returns (Ok a) = True"
| "returns (Err e) = True"
| "returns Panic = False"
| "returns Loop = False"

named_theorems eff_simps \<open>equations of the effect combinators\<close>

lemma ret_simp [eff_simps]: "ret a s = (Ok a, s)"
  by (simp add: ret_def)

lemma raise_simp [eff_simps]: "raise e s = (Err e, s)"
  by (simp add: raise_def)

lemma lift_outcome_simp [eff_simps]: "lift_outcome x s = (x, s)"
  by (simp add: lift_outcome_def)

lemma bindE_cases [eff_simps]:
  "m s = (Ok a, s') \<Longrightarrow> bindE m f s = f a s'"
  "m s = (Err e, s') \<Longrightarrow> bindE m f s = (Err e, s')"
  "m s = (Panic, s') \<Longrightarrow> bindE m f s = (Panic, s')"
  "m s = (Loop, s') \<Longrightarrow> bindE m f s = (Loop, s')"
  by (simp_all add: bindE_def)

lemma bindE_ret [simp]: "bindE (ret a) f = f a"
  by (rule ext) (simp add: bindE_def ret_def)

lemma bindE_raise [simp]: "bindE (raise e) f = raise e"
  by (rule ext) (simp add: bindE_def raise_def)

lemma bindE_assoc: "bindE (bindE m f) g = bindE m (\<lambda>a. bindE (f a) g)"
  by (rule ext) (simp add: bindE_def split: prod.split outcome.split)

lemma bindE_cong: "(\<And>a. f a = g a) \<Longrightarrow> bindE m f = bindE m g"
  by (rule arg_cong [where f = "bindE m"]) (rule ext)

lemma bindE_OkE:
  assumes "bindE m f s = (Ok b, t)"
  obtains a s' where "m s = (Ok a, s')" and "f a s' = (Ok b, t)"
  using assms by (auto simp: bindE_def split: prod.splits outcome.splits)

lemma bindE_ErrE:
  assumes "bindE m f s = (Err e, t)"
  obtains (first) "m s = (Err e, t)"
    | (second) a s' where "m s = (Ok a, s')" and "f a s' = (Err e, t)"
  using assms by (auto simp: bindE_def split: prod.splits outcome.splits)

lemma bindE_lift_outcome [eff_simps]:
  "bindE (lift_outcome (Ok a)) f s = f a s"
  "bindE (lift_outcome (Err e)) f s = (Err e, s)"
  "bindE (lift_outcome Panic) f s = (Panic, s)"
  "bindE (lift_outcome Loop) f s = (Loop, s)"
  by (simp_all add: bindE_def lift_outcome_def)

lemma bindO_OkE:
  assumes "bindO x f = Ok b"
  obtains a where "x = Ok a" and "f a = Ok b"
  using assms by (cases x) auto

lemma returns_iff: "returns x \<longleftrightarrow> x \<noteq> Panic \<and> x \<noteq> Loop"
  by (cases x) auto

lemma returns_bindO: "returns x \<Longrightarrow> (\<And>a. x = Ok a \<Longrightarrow> returns (f a)) \<Longrightarrow> returns (bindO x f)"
  by (cases x) auto

lemma returns_bindE:
  "returns (fst (m s)) \<Longrightarrow> (\<And>a s'. m s = (Ok a, s') \<Longrightarrow> returns (fst (f a s'))) \<Longrightarrow>
    returns (fst (bindE m f s))"
  by (auto simp: bindE_def split: prod.splits outcome.splits)

lemma map_err_simps [simp]:
  "map_err g (Ok a) = Ok a" "map_err g (Err e) = Err (g e)"
  "map_err g Panic = Panic" "map_err g Loop = Loop"
  by (simp_all add: map_err_def)

section \<open>Slices\<close>

text \<open>\<open>&b[lo..hi]\<close> and \<open>b[i]\<close>, which panic out of range.\<close>

definition slice_at :: "'a list \<Rightarrow> nat \<Rightarrow> nat \<Rightarrow> ('e, 'a list) outcome" where
  "slice_at b lo hi =
     (if lo \<le> hi \<and> hi \<le> length b then Ok (take (hi - lo) (drop lo b)) else Panic)"

definition index_at :: "'a list \<Rightarrow> nat \<Rightarrow> ('e, 'a) outcome" where
  "index_at b i = (if i < length b then Ok (b ! i) else Panic)"

lemma index_at_ok [simp]: "i < length b \<Longrightarrow> index_at b i = Ok (b ! i)"
  by (simp add: index_at_def)

section \<open>Big-endian integers\<close>

definition to_be_bytes :: "'w::len word \<Rightarrow> bytes" where
  "to_be_bytes w = map (\<lambda>i. ucast (drop_bit (8 * i) w)) (rev [0..<LENGTH('w) div 8])"

definition from_be_bytes :: "bytes \<Rightarrow> 'w::len word" where
  "from_be_bytes bs = foldl (\<lambda>acc b. push_bit 8 acc OR ucast b) 0 bs"

lemma length_to_be_bytes [simp]: "length (to_be_bytes (w :: 'w::len word)) = LENGTH('w) div 8"
  by (simp add: to_be_bytes_def)

lemma from_be_bytes_snoc:
  "(from_be_bytes (bs @ [b]) :: 'w::len word) = push_bit 8 (from_be_bytes bs) OR ucast b"
  by (simp add: from_be_bytes_def)

lemma div_mod_8_sub:
  assumes "8 \<le> (i::nat)"
  shows "(i - 8) div 8 = i div 8 - 1" and "(i - 8) mod 8 = i mod 8" and "0 < i div 8"
  using assms by (simp_all add: div_if mod_if)

lemma bit_from_be_bytes:
  "bit (from_be_bytes bs :: 'w::len word) i \<longleftrightarrow>
     i < LENGTH('w) \<and> i < 8 * length bs \<and> bit (bs ! (length bs - 1 - i div 8)) (i mod 8)"
proof (induction bs arbitrary: i rule: rev_induct)
  case Nil
  then show ?case by (simp add: from_be_bytes_def)
next
  case (snoc b bs)
  have step: "bit (from_be_bytes (bs @ [b]) :: 'w word) i \<longleftrightarrow> i < LENGTH('w) \<and>
      (if i < 8 then bit b i else bit (from_be_bytes bs :: 'w word) (i - 8))"
    by (auto simp: from_be_bytes_snoc bit_or_iff bit_push_bit_iff bit_unsigned_iff
        dest: bit_imp_le_length)
  show ?case
  proof (cases "i < 8")
    case True
    then show ?thesis by (simp add: step nth_append)
  next
    case False
    then have i: "8 \<le> i" by simp
    have "length bs - 1 - (i div 8 - 1) = length bs - i div 8"
      using div_mod_8_sub(3) [OF i] by simp
    moreover have "i - 8 < 8 * length bs \<longleftrightarrow> i < 8 * length (bs @ [b])"
      using i by auto
    moreover have "(bs @ [b]) ! (length bs - i div 8) = bs ! (length bs - i div 8)"
      if "i < 8 * length (bs @ [b])"
      using that div_mod_8_sub(3) [OF i] by (auto simp: nth_append)
    ultimately show ?thesis
      using False by (auto simp: step snoc.IH div_mod_8_sub [OF i] simp del: nth_append)
  qed
qed

lemma from_to_be_bytes:
  assumes "8 dvd LENGTH('w)"
  shows "from_be_bytes (to_be_bytes w) = (w :: 'w::len word)"
proof (rule bit_eqI)
  fix i assume "possible_bit TYPE('w word) i"
  then have i: "i < LENGTH('w)" by simp
  let ?n = "LENGTH('w) div 8"
  have n: "8 * ?n = LENGTH('w)" using assms by simp
  then have d: "i div 8 < ?n" using i by (simp add: less_mult_imp_div_less mult.commute)
  have "rev [0..<?n] ! (?n - 1 - i div 8) = i div 8"
    using d by (simp add: rev_nth)
  then have "to_be_bytes w ! (?n - 1 - i div 8) = (ucast (drop_bit (8 * (i div 8)) w) :: byte)"
    using d by (simp add: to_be_bytes_def)
  then show "bit (from_be_bytes (to_be_bytes w) :: 'w word) i \<longleftrightarrow> bit w i"
    using i n by (simp add: bit_from_be_bytes bit_simps)
qed

lemma to_from_be_bytes:
  assumes "8 * length bs = LENGTH('w)"
  shows "to_be_bytes (from_be_bytes bs :: 'w::len word) = bs"
proof (rule nth_equalityI)
  have n: "LENGTH('w) div 8 = length bs" using assms by presburger
  then show "length (to_be_bytes (from_be_bytes bs :: 'w word)) = length bs" by simp
  fix k assume "k < length (to_be_bytes (from_be_bytes bs :: 'w word))"
  then have k: "k < length bs" using n by simp
  have e: "to_be_bytes (from_be_bytes bs :: 'w word) ! k =
      ucast (drop_bit (8 * (length bs - 1 - k)) (from_be_bytes bs :: 'w word))"
    using k n by (simp add: to_be_bytes_def rev_nth)
  show "to_be_bytes (from_be_bytes bs :: 'w word) ! k = bs ! k"
  proof (rule bit_eqI)
    fix i assume "possible_bit TYPE(byte) i"
    then have i: "i < 8" by simp
    let ?j = "8 * (length bs - 1 - k) + i"
    have "?j div 8 = length bs - 1 - k" "?j mod 8 = i" using i by simp_all
    moreover have "?j < 8 * length bs" using i k by linarith
    ultimately show "bit (to_be_bytes (from_be_bytes bs :: 'w word) ! k) i \<longleftrightarrow> bit (bs ! k) i"
      using i k assms by (simp add: e bit_simps bit_from_be_bytes)
  qed
qed

lemma to_be_bytes_inject:
  "8 dvd LENGTH('w) \<Longrightarrow> to_be_bytes (v :: 'w::len word) = to_be_bytes w \<longleftrightarrow> v = w"
  by (metis from_to_be_bytes)

lemma from_to_be_bytes_sized [simp]:
  "from_be_bytes (to_be_bytes a) = (a :: 8 word)"
  "from_be_bytes (to_be_bytes b) = (b :: 16 word)"
  "from_be_bytes (to_be_bytes c) = (c :: 32 word)"
  "from_be_bytes (to_be_bytes d) = (d :: 64 word)"
  by (simp_all add: from_to_be_bytes)

lemma to_be_bytes_inject_sized [simp]:
  "to_be_bytes (a :: 8 word) = to_be_bytes a' \<longleftrightarrow> a = a'"
  "to_be_bytes (b :: 16 word) = to_be_bytes b' \<longleftrightarrow> b = b'"
  "to_be_bytes (c :: 32 word) = to_be_bytes c' \<longleftrightarrow> c = c'"
  "to_be_bytes (d :: 64 word) = to_be_bytes d' \<longleftrightarrow> d = d'"
  by (simp_all add: to_be_bytes_inject)

lemma to_be_bytes_byte [simp]: "to_be_bytes (b :: byte) = [b]"
  by (simp add: to_be_bytes_def)

section \<open>Bit tests\<close>

text \<open>A single-bit mask tests that bit; the masks of the code are rewritten to that form.\<close>

lemma and_bit_test:
  "w AND 0x040 = 0 \<longleftrightarrow> \<not> bit w 6" "w AND 0x080 = 0 \<longleftrightarrow> \<not> bit w 7"
  "w AND 0x800 = 0 \<longleftrightarrow> \<not> bit w 11" for w :: "'w::len word"
  using and_exp_eq_0_iff_not_bit [of w 6] and_exp_eq_0_iff_not_bit [of w 7]
    and_exp_eq_0_iff_not_bit [of w 11] by simp_all

lemma bit_below:
  assumes "unat (n :: 'w::len word) < 2 ^ k" "bit n i"
  shows "i < k"
proof -
  have "unat (take_bit k n) = unat n"
    using assms(1) by (simp add: unsigned_take_bit_eq take_bit_nat_eq_self)
  then have "take_bit k n = n" by (simp only: word_unat_eq_iff)
  then show ?thesis using assms(2) by (metis bit_take_bit_iff)
qed

section \<open>Text formatting\<close>

text \<open>
  The digits of a number in a base up to 16 (\<open>{}\<close> and \<open>{:x}\<close> of \<open>core::fmt\<close>), and the zero
  padding of a width such as \<open>{:03x}\<close>.
\<close>

definition digit_char :: "nat \<Rightarrow> char" where
  "digit_char d = ''0123456789abcdef'' ! d"

fun show_base :: "nat \<Rightarrow> nat \<Rightarrow> string" where
  "show_base b n =
     (if b < 2 \<or> n < b then [digit_char n] else show_base b (n div b) @ [digit_char (n mod b)])"

declare show_base.simps [simp del]

definition show_dec :: "nat \<Rightarrow> string" where
  "show_dec n = show_base 10 n"

definition show_hex :: "nat \<Rightarrow> nat \<Rightarrow> string" where
  "show_hex width n =
     (let s = show_base 16 n in replicate (width - length s) (CHR ''0'') @ s)"

end
