(* ===== verification/Errors.thy ===== *)
theory Errors
  imports Prelude
begin

text \<open>
  The crate's error type and the TPM response code (\<open>src/src/error.rs\<close>): the layered
  format-zero / format-one encoding, the argument a format-one code points at, and the text
  the two \<open>Display\<close> implementations produce.
\<close>

section \<open>Response codes\<close>

datatype TpmRc = TpmRc (rc_raw: "32 word")

definition RC_SUCCESS :: TpmRc where
  "RC_SUCCESS = TpmRc 0x000"

definition is_success :: "TpmRc \<Rightarrow> bool" where
  "is_success rc \<longleftrightarrow> rc_raw rc = 0"

definition is_format_one :: "TpmRc \<Rightarrow> bool" where
  "is_format_one rc \<longleftrightarrow> rc_raw rc AND 0x080 \<noteq> 0"

definition is_warning :: "TpmRc \<Rightarrow> bool" where
  "is_warning rc \<longleftrightarrow> \<not> is_format_one rc \<and> rc_raw rc AND 0x800 \<noteq> 0"

definition base :: "TpmRc \<Rightarrow> TpmRc" where
  "base rc = (if is_format_one rc then TpmRc (rc_raw rc AND 0x0BF) else rc)"

definition arg_number :: "TpmRc \<Rightarrow> byte option" where
  "arg_number rc =
     (if is_format_one rc then Some (ucast (drop_bit 8 (rc_raw rc) AND 0xF)) else None)"

datatype ArgKind = ArgHandle | ArgParameter | ArgSession

definition arg_kind :: "TpmRc \<Rightarrow> ArgKind option" where
  "arg_kind rc =
     (if \<not> is_format_one rc then None
      else if rc_raw rc AND 0x040 \<noteq> 0 then Some ArgParameter
      else if rc_raw rc AND 0x800 \<noteq> 0 then Some ArgSession
      else Some ArgHandle)"

fun as_str :: "ArgKind \<Rightarrow> string" where
  "as_str ArgHandle = ''handle''"
| "as_str ArgParameter = ''parameter''"
| "as_str ArgSession = ''session''"

definition debug_TpmRc :: "TpmRc \<Rightarrow> string" where
  "debug_TpmRc rc = ''TpmRc(0x'' @ show_hex 3 (unat (rc_raw rc)) @ '')''"

definition display_TpmRc :: "TpmRc \<Rightarrow> string" where
  "display_TpmRc rc =
     ''TPM_RC 0x'' @ show_hex 3 (unat (rc_raw rc)) @
     (case (arg_number rc, arg_kind rc) of
        (Some n, Some kind) \<Rightarrow> '' ('' @ as_str kind @ '' '' @ show_dec (unat n) @ '')''
      | _ \<Rightarrow> '''')"

section \<open>Errors\<close>

datatype Error =
    Tpm TpmRc
  | Transport string
  | Malformed string
  | Protocol string
  | Usage string

definition error_rc :: "32 word \<Rightarrow> Error" where
  "error_rc code = Tpm (TpmRc code)"

fun display_Error :: "Error \<Rightarrow> string" where
  "display_Error (Tpm rc) = ''TPM error: '' @ display_TpmRc rc"
| "display_Error (Transport s) = ''transport error: '' @ s"
| "display_Error (Malformed s) = ''malformed TPM data: '' @ s"
| "display_Error (Protocol s) = ''protocol error: '' @ s"
| "display_Error (Usage s) = ''misuse: '' @ s"

type_synonym 'a result = "(Error, 'a) outcome"

section \<open>The format-one layout\<close>

text \<open>
  What a TPM puts into a format-one code (Part 2, 6.6): the error code proper (bits 0 to 5,
  with bit 7 set), the parameter flag in bit 6 and a four bit number field in bits 8 to 11.
\<close>

definition format_one :: "32 word \<Rightarrow> bool \<Rightarrow> 32 word \<Rightarrow> 32 word" where
  "format_one code param n = code OR (if param then 0x040 else 0) OR push_bit 8 n"

definition format_one_code :: "32 word \<Rightarrow> bool" where
  "format_one_code code \<longleftrightarrow> code AND 0x0BF = code \<and> code AND 0x080 \<noteq> 0"

lemma code_mask: "(0x0BF :: 32 word) = mask 6 OR 2 ^ 7"
  by (simp add: mask_eq_exp_minus_1)

lemma bit_code_mask: "bit (0x0BF :: 32 word) i \<longleftrightarrow> i < 6 \<or> i = 7"
  by (simp only: code_mask bit_or_iff Word.bit_mask_iff bit_exp_iff) auto

lemma bit_format_one_code:
  assumes "format_one_code code"
  shows "bit code 7" and "bit code i \<Longrightarrow> i < 6 \<or> i = 7"
proof -
  show "bit code 7" using assms by (simp add: format_one_code_def and_bit_test)
  show "i < 6 \<or> i = 7" if "bit code i"
  proof -
    have "bit (code AND 0x0BF) i" using that assms by (simp add: format_one_code_def)
    then show ?thesis by (simp add: bit_and_iff bit_code_mask del: bit_numeral_word_iff)
  qed
qed

lemma bit_format_one:
  "bit (format_one code param n) i \<longleftrightarrow>
     bit code i \<or> param \<and> i = 6 \<or> 8 \<le> i \<and> i < 32 \<and> bit n (i - 8)"
proof -
  have "bit (0x040 :: 32 word) i \<longleftrightarrow> i = 6"
    using bit_exp_iff [of 6 i, where ?'a = "32 word"] by auto
  then show ?thesis by (auto simp: format_one_def bit_or_iff bit_push_bit_iff)
qed

lemma bit_number_3:
  assumes "n < 16"
  shows "bit (n :: 32 word) 3 \<longleftrightarrow> 8 \<le> n"
proof
  assume "bit n 3"
  then have "\<not> unat n < 2 ^ 3" using bit_below [of n 3 3] by blast
  then show "8 \<le> n" by (simp add: word_le_nat_alt)
next
  assume "8 \<le> n"
  then have "drop_bit 3 (unat n) = 1"
    using assms by (simp add: drop_bit_eq_div word_le_nat_alt word_less_nat_alt)
  then show "bit n 3"
    by (metis bit_unsigned_iff bit_1_0 bit_drop_bit_eq add.right_neutral comp_apply bit_nat_def odd_one
        bit_iff_odd_drop_bit)
qed

lemma format_one_fields:
  assumes code: "format_one_code code" and n: "n < 16"
  shows "bit (format_one code param n) 7"
    and "format_one code param n AND 0x0BF = code"
    and "drop_bit 8 (format_one code param n) AND 0xF = n"
    and "bit (format_one code param n) 6 \<longleftrightarrow> param"
    and "bit (format_one code param n) 11 \<longleftrightarrow> 8 \<le> n"
proof -
  have nb: "i < 4" if "bit n i" for i
    using bit_below [of n 4 i] n that by (simp add: word_less_nat_alt)
  have cb: "i < 6 \<or> i = 7" if "bit code i" for i
    using that bit_format_one_code [OF code] by blast
  show "bit (format_one code param n) 7"
    using bit_format_one_code(1) [OF code] by (simp add: bit_format_one)
  show "format_one code param n AND 0x0BF = code"
    by (rule bit_eqI) (auto simp: bit_and_iff bit_format_one bit_code_mask simp del: bit_numeral_word_iff dest: cb)
  have "drop_bit 8 (format_one code param n) AND mask 4 = n"
    by (rule bit_eqI) (auto simp: bit_and_iff bit_drop_bit_eq bit_format_one bit_mask_iff dest: cb nb)
  then show "drop_bit 8 (format_one code param n) AND 0xF = n"
    by (simp add: mask_eq_exp_minus_1)
  show "bit (format_one code param n) 6 \<longleftrightarrow> param"
    by (auto simp: bit_format_one dest: cb)
  show "bit (format_one code param n) 11 \<longleftrightarrow> 8 \<le> n"
    using bit_number_3 [OF n] by (auto simp: bit_format_one dest: cb)
qed

lemma is_format_one_base [simp]: "is_format_one (base rc) = is_format_one rc"
  by (simp add: base_def is_format_one_def and_bit_test bit_and_iff bit_code_mask)

end
