(* ===== verification/Marshalling.thy ===== *)
theory Marshalling
  imports Errors
begin

text \<open>
  Big-endian marshalling (\<open>src/src/marshal.rs\<close>): the bounds-checked \<open>Reader\<close>, the integer
  instances the \<open>prim!\<close> macro generates, and the \<open>TPM2B\<close> length-prefixed byte string.
  The \<open>Marshal\<close>/\<open>Unmarshal\<close> pair of traits is the locale \<open>codec\<close>: the laws a pair of
  instances obeys, and what follows from them once for every type that has one.
\<close>

section \<open>The reader\<close>

record reader =
  buf :: bytes
  pos :: nat

type_synonym 'a parser = "(reader, Error, 'a) eff"

definition Reader_new :: "bytes \<Rightarrow> reader" where
  "Reader_new b = \<lparr>buf = b, pos = 0\<rparr>"

text \<open>\<open>self.buf.len() - self.pos\<close> is a \<open>usize\<close> subtraction: it panics below zero.\<close>

definition remaining :: "nat parser" where
  "remaining r =
     (if pos r \<le> length (buf r) then (Ok (length (buf r) - pos r), r) else (Panic, r))"

definition reader_pos :: "reader \<Rightarrow> nat" where
  "reader_pos r = pos r"

definition reader_is_empty :: "bool parser" where
  "reader_is_empty = bindE remaining (\<lambda>n. ret (n = 0))"

definition short_read :: Error where
  "short_read = Malformed ''unexpected end of TPM buffer''"

definition take_bytes :: "nat \<Rightarrow> bytes parser" where
  "take_bytes n = bindE remaining (\<lambda>left.
     if left < n then raise short_read
     else (\<lambda>r. bindE (lift_outcome (slice_at (buf r) (pos r) (pos r + n)))
                 (\<lambda>s r. (Ok s, r\<lparr>pos := pos r + n\<rparr>)) r))"

definition read_u8 :: "byte parser" where
  "read_u8 = bindE (take_bytes 1) (\<lambda>b. lift_outcome (index_at b 0))"

definition read_u16 :: "16 word parser" where
  "read_u16 = bindE (take_bytes 2) (\<lambda>b.
     bindE (lift_outcome (index_at b 0)) (\<lambda>b0.
     bindE (lift_outcome (index_at b 1)) (\<lambda>b1.
     ret (from_be_bytes [b0, b1]))))"

definition read_u32 :: "32 word parser" where
  "read_u32 = bindE (take_bytes 4) (\<lambda>b.
     bindE (lift_outcome (index_at b 0)) (\<lambda>b0.
     bindE (lift_outcome (index_at b 1)) (\<lambda>b1.
     bindE (lift_outcome (index_at b 2)) (\<lambda>b2.
     bindE (lift_outcome (index_at b 3)) (\<lambda>b3.
     ret (from_be_bytes [b0, b1, b2, b3]))))))"

definition read_u64 :: "64 word parser" where
  "read_u64 = bindE (take_bytes 8) (\<lambda>b.
     bindE (lift_outcome (index_at b 0)) (\<lambda>b0.
     bindE (lift_outcome (index_at b 1)) (\<lambda>b1.
     bindE (lift_outcome (index_at b 2)) (\<lambda>b2.
     bindE (lift_outcome (index_at b 3)) (\<lambda>b3.
     bindE (lift_outcome (index_at b 4)) (\<lambda>b4.
     bindE (lift_outcome (index_at b 5)) (\<lambda>b5.
     bindE (lift_outcome (index_at b 6)) (\<lambda>b6.
     bindE (lift_outcome (index_at b 7)) (\<lambda>b7.
     ret (from_be_bytes [b0, b1, b2, b3, b4, b5, b6, b7]))))))))))"

definition read_tpm2b :: "bytes parser" where
  "read_tpm2b = bindE read_u16 (\<lambda>n. take_bytes (unat n))"

section \<open>Integers and TPM2B\<close>

text \<open>
  The \<open>prim!\<close> instances, for any unsigned integer type; \<open>try_into\<close> to the fixed-size array
  checks the length and \<open>expect\<close> panics when it differs.
\<close>

definition marshal_prim :: "'w::len word \<Rightarrow> bytes \<Rightarrow> bytes" where
  "marshal_prim w out = out @ to_be_bytes w"

definition unmarshal_prim :: "'w::len word parser" where
  "unmarshal_prim = bindE (take_bytes (LENGTH('w) div 8)) (\<lambda>b.
     if length b = LENGTH('w) div 8 then ret (from_be_bytes b) else lift_outcome Panic)"

text \<open>\<open>Marshal::to_bytes\<close>, the provided method of the trait.\<close>

definition to_bytes :: "('a \<Rightarrow> bytes \<Rightarrow> bytes) \<Rightarrow> 'a \<Rightarrow> bytes" where
  "to_bytes marshal x = marshal x []"

definition marshal_tpm2b :: "bytes \<Rightarrow> (bytes, Error, unit) eff" where
  "marshal_tpm2b data out =
     (if length data \<le> 65535
      then (Ok (), marshal_prim (of_nat (length data) :: 16 word) out @ data)
      else (Err (Malformed ''TPM2B exceeds 65535 bytes''), out))"

text \<open>\<open>marshal_tpm2b(data, out).ok()\<close>: the error is dropped, the output is kept.\<close>

definition marshal_tpm2b_ok :: "bytes \<Rightarrow> bytes \<Rightarrow> bytes" where
  "marshal_tpm2b_ok data out = snd (marshal_tpm2b data out)"

text \<open>\<open>for _ in 0..n { v.push(p(r)?) }\<close>, the loop of every counted list.\<close>

fun read_times :: "nat \<Rightarrow> 'a parser \<Rightarrow> 'a list parser" where
  "read_times 0 p = ret []"
| "read_times (Suc n) p = bindE p (\<lambda>x. bindE (read_times n p) (\<lambda>xs. ret (x # xs)))"

section \<open>What a parser reads\<close>

definition reader_wf :: "reader \<Rightarrow> bool" where
  "reader_wf r \<longleftrightarrow> pos r \<le> length (buf r)"

definition unread :: "reader \<Rightarrow> bytes" where
  "unread r = drop (pos r) (buf r)"

definition advance :: "nat \<Rightarrow> reader \<Rightarrow> reader" where
  "advance n r = r\<lparr>pos := pos r + n\<rparr>"

text \<open>
  \<open>reads p bs a\<close>: wherever the unread bytes start with \<open>bs\<close>, the parser returns \<open>a\<close> and
  stands right behind \<open>bs\<close>. \<open>bounded_parser p\<close>: on a well-formed reader the parser never
  panics and always returns; on success it has read a prefix that alone determines the result,
  on failure it reports malformed data without having left the buffer.
\<close>

definition reads :: "'a parser \<Rightarrow> bytes \<Rightarrow> 'a \<Rightarrow> bool" where
  "reads p bs a \<longleftrightarrow>
     (\<forall>r rest. reader_wf r \<longrightarrow> unread r = bs @ rest \<longrightarrow> p r = (Ok a, advance (length bs) r))"

fun bounded_at :: "'a parser \<Rightarrow> reader \<Rightarrow> 'a result \<Rightarrow> reader \<Rightarrow> bool" where
  "bounded_at p r (Ok a) r' \<longleftrightarrow>
     (\<exists>bs rest. unread r = bs @ rest \<and> r' = advance (length bs) r \<and> reads p bs a)"
| "bounded_at p r (Err (Malformed m)) r' \<longleftrightarrow> (\<exists>k \<le> length (unread r). r' = advance k r)"
| "bounded_at p r _ r' \<longleftrightarrow> False"

definition bounded_parser :: "'a parser \<Rightarrow> bool" where
  "bounded_parser p \<longleftrightarrow> (\<forall>r. reader_wf r \<longrightarrow> bounded_at p r (fst (p r)) (snd (p r)))"

named_theorems parser_intros \<open>rules for reads and bounded_parser\<close>

lemma unread_new [simp]: "unread (Reader_new b) = b"
  by (simp add: unread_def Reader_new_def)

lemma reader_wf_new [simp]: "reader_wf (Reader_new b)"
  by (simp add: reader_wf_def Reader_new_def)

lemma unread_advance [simp]: "unread (advance n r) = drop n (unread r)"
  by (simp add: unread_def advance_def add.commute)

lemma advance_0 [simp]: "advance 0 r = r"
  by (simp add: advance_def)

lemma advance_advance [simp]: "advance m (advance n r) = advance (n + m) r"
  by (simp add: advance_def)

lemma advance_inject [simp]: "advance m r = advance n r \<longleftrightarrow> m = n"
proof
  assume "advance m r = advance n r"
  then have "pos (advance m r) = pos (advance n r)" by simp
  then show "m = n" by (simp add: advance_def)
qed simp

lemma length_unread: "length (unread r) = length (buf r) - pos r"
  by (simp add: unread_def)

lemma reader_wf_advance [simp]: "reader_wf r \<Longrightarrow> n \<le> length (unread r) \<Longrightarrow> reader_wf (advance n r)"
  by (auto simp: reader_wf_def length_unread advance_def)

lemma buf_advance [simp]: "buf (advance n r) = buf r" "pos (advance n r) = pos r + n"
  by (simp_all add: advance_def)

lemma remaining_eq: "reader_wf r \<Longrightarrow> remaining r = (Ok (length (unread r)), r)"
  by (simp add: remaining_def reader_wf_def length_unread)

text \<open>\<open>take\<close> on a well-formed reader: the only branch left is the length check.\<close>

lemma take_bytes_eq:
  assumes "reader_wf r"
  shows "take_bytes n r =
    (if n \<le> length (unread r) then (Ok (take n (unread r)), advance n r) else (Err short_read, r))"
  using assms
  by (auto simp: take_bytes_def bindE_def remaining_def slice_at_def reader_wf_def length_unread
      unread_def advance_def eff_simps short_read_def)

lemma readsD: "reads p bs a \<Longrightarrow> reader_wf r \<Longrightarrow> unread r = bs @ rest \<Longrightarrow>
    p r = (Ok a, advance (length bs) r)"
  by (simp add: reads_def)

lemma reads_new: "reads p bs a \<Longrightarrow> p (Reader_new (bs @ rest)) = (Ok a, advance (length bs) (Reader_new (bs @ rest)))"
  by (rule readsD) simp_all

lemma bounded_cases:
  assumes "bounded_parser p" "reader_wf r"
  obtains (ok) a bs rest where "p r = (Ok a, advance (length bs) r)" "unread r = bs @ rest" "reads p bs a"
    | (err) m k where "p r = (Err (Malformed m), advance k r)" "k \<le> length (unread r)"
proof -
  obtain x r' where pr: "p r = (x, r')" by (cases "p r")
  then have H: "bounded_at p r x r'"
    using assms by (auto simp: bounded_parser_def)
  show ?thesis
  proof (cases x)
    case (Ok a)
    with H pr ok show ?thesis by auto
  next
    case (Err e)
    with H pr err show ?thesis by (cases e) auto
  qed (use H in simp_all)
qed

lemma bounded_OkE:
  assumes "bounded_parser p" "reader_wf r" "p r = (Ok a, r')"
  obtains bs rest where "unread r = bs @ rest" "r' = advance (length bs) r" "reads p bs a"
  using assms(3) by (rule_tac bounded_cases [OF assms(1,2)]) auto

lemma bounded_parserI:
  assumes "\<And>r. reader_wf r \<Longrightarrow>
      (\<exists>a bs rest. p r = (Ok a, advance (length bs) r) \<and> unread r = bs @ rest \<and> reads p bs a)
    \<or> (\<exists>m k. p r = (Err (Malformed m), advance k r) \<and> k \<le> length (unread r))"
  shows "bounded_parser p"
  unfolding bounded_parser_def
proof (intro allI impI)
  fix r assume "reader_wf r"
  from assms [OF this] show "bounded_at p r (fst (p r)) (snd (p r))"
    by (elim disjE exE conjE; simp; blast)
qed

text \<open>Two readings of one buffer agree.\<close>

lemma reads_unique:
  assumes "reads p bs a" "reads p bs' a'" "bs @ x = bs' @ y"
  shows "bs = bs'" and "a = a'"
proof -
  have "p (Reader_new (bs @ x)) = (Ok a, advance (length bs) (Reader_new (bs @ x)))"
    using assms(1) by (rule reads_new)
  moreover have "p (Reader_new (bs @ x)) = (Ok a', advance (length bs') (Reader_new (bs @ x)))"
    using reads_new [OF assms(2), of y] assms(3) by simp
  ultimately have "length bs = length bs'" and "a = a'" by auto
  with assms(3) show "bs = bs'" and "a = a'" by auto
qed

section \<open>Rules for the combinators\<close>

lemma reads_ret [parser_intros]: "reads (ret a) [] a"
  by (simp add: reads_def eff_simps)

lemma reads_bindE [parser_intros]:
  assumes "reads p bs a" "reads (f a) bs' b"
  shows "reads (bindE p f) (bs @ bs') b"
  unfolding reads_def
proof (intro allI impI)
  fix r rest
  assume wf: "reader_wf r" and u: "unread r = (bs @ bs') @ rest"
  have p: "p r = (Ok a, advance (length bs) r)"
    using assms(1) wf by (rule readsD) (simp add: u)
  have "f a (advance (length bs) r) = (Ok b, advance (length bs') (advance (length bs) r))"
    using assms(2) by (rule readsD) (simp_all add: u wf)
  then show "bindE p f r = (Ok b, advance (length (bs @ bs')) r)"
    by (simp add: bindE_def p)
qed

lemma reads_take [parser_intros]: "reads (take_bytes (length bs)) bs bs"
  by (simp add: reads_def take_bytes_eq)

lemma reads_take_eq: "length bs = n \<Longrightarrow> reads (take_bytes n) bs bs"
  using reads_take by blast

lemma bounded_ret [parser_intros]: "bounded_parser (ret a)"
  by (rule bounded_parserI) (metis advance_0 append_Nil list.size(3) reads_ret ret_def)

lemma bounded_raise [parser_intros]: "bounded_parser (raise (Malformed m))"
  by (rule bounded_parserI) (metis advance_0 le0 raise_def)

lemma bounded_take [parser_intros]: "bounded_parser (take_bytes n)"
proof (rule bounded_parserI)
  fix r assume wf: "reader_wf r"
  show "(\<exists>a bs rest. take_bytes n r = (Ok a, advance (length bs) r) \<and> unread r = bs @ rest \<and>
          reads (take_bytes n) bs a)
      \<or> (\<exists>m k. take_bytes n r = (Err (Malformed m), advance k r) \<and> k \<le> length (unread r))"
  proof (cases "n \<le> length (unread r)")
    case True
    let ?bs = "take n (unread r)"
    have "reads (take_bytes n) ?bs ?bs"
      using reads_take [of ?bs] True by (simp add: min.absorb2)
    moreover have "unread r = ?bs @ drop n (unread r)" by simp
    ultimately show ?thesis
      using True wf by (intro disjI1) (metis length_take min.absorb2 take_bytes_eq)
  next
    case False
    then show ?thesis
      using wf by (intro disjI2) (auto simp: take_bytes_eq short_read_def intro!: exI [of _ 0])
  qed
qed

lemma bounded_bindE [parser_intros]:
  assumes p: "bounded_parser p" and f: "\<And>a. bounded_parser (f a)"
  shows "bounded_parser (bindE p f)"
proof (rule bounded_parserI)
  fix r assume wf: "reader_wf r"
  from p wf show "(\<exists>b bs rest. bindE p f r = (Ok b, advance (length bs) r) \<and> unread r = bs @ rest \<and>
          reads (bindE p f) bs b)
      \<or> (\<exists>m k. bindE p f r = (Err (Malformed m), advance k r) \<and> k \<le> length (unread r))"
  proof (cases rule: bounded_cases)
    case (err m k)
    then show ?thesis by (intro disjI2) (auto simp: bindE_def)
  next
    case (ok a bs rest)
    then have wf': "reader_wf (advance (length bs) r)" using wf by simp
    from f [of a] wf' show ?thesis
    proof (cases rule: bounded_cases)
      case (ok b bs' rest')
      with \<open>unread r = bs @ rest\<close> have "unread r = (bs @ bs') @ rest'" by simp
      moreover have "reads (bindE p f) (bs @ bs') b"
        using \<open>reads p bs a\<close> ok(3) by (rule reads_bindE)
      moreover have "bindE p f r = (Ok b, advance (length (bs @ bs')) r)"
        using \<open>p r = _\<close> ok(1) by (simp add: bindE_def)
      ultimately show ?thesis by blast
    next
      case (err m k)
      then have "bindE p f r = (Err (Malformed m), advance (length bs + k) r)"
        using \<open>p r = _\<close> by (simp add: bindE_def)
      moreover have "length bs + k \<le> length (unread r)"
        using err(2) \<open>unread r = _\<close> by simp
      ultimately show ?thesis by blast
    qed
  qed
qed

text \<open>Inversion: what a sequence has read splits into what its two parts have read.\<close>

lemma reads_bindE_E:
  assumes "reads (bindE p f) bs c" "bounded_parser p" "\<And>a. bounded_parser (f a)"
  obtains b1 b2 a where "bs = b1 @ b2" "reads p b1 a" "reads (f a) b2 c"
proof -
  let ?r = "Reader_new bs"
  have "bindE p f ?r = (Ok c, advance (length bs) ?r)"
    using reads_new [OF assms(1), of "[]"] by simp
  then obtain a r1 where p: "p ?r = (Ok a, r1)" and f: "f a r1 = (Ok c, advance (length bs) ?r)"
    by (rule bindE_OkE)
  obtain b1 t1 where 1: "unread ?r = b1 @ t1" "r1 = advance (length b1) ?r" "reads p b1 a"
    using assms(2) reader_wf_new p by (rule bounded_OkE)
  have wf: "reader_wf r1" using 1 by simp
  obtain b2 t2 where 2: "unread r1 = b2 @ t2" "advance (length bs) ?r = advance (length b2) r1"
      "reads (f a) b2 c"
    using assms(3) wf f by (rule bounded_OkE)
  have "bs = b1 @ b2 @ t2" using 1 2 by simp
  moreover have "length bs = length b1 + length b2" using 1(2) 2(2) by simp
  ultimately have "bs = b1 @ b2" by simp
  then show thesis using 1(3) 2(3) that by blast
qed

lemma reads_retD: "reads (ret a) bs b \<Longrightarrow> bs = [] \<and> b = a"
  using reads_new [of "ret a" bs b "[]"] by (auto simp: Reader_new_def advance_def eff_simps)

lemma reads_raiseD: "\<not> reads (raise e) bs b"
  using reads_new [of "raise e" bs b "[]"] by (auto simp: eff_simps)

lemma reads_takeD: "reads (take_bytes n) bs a \<Longrightarrow> a = bs \<and> length bs = n"
  using reads_new [of "take_bytes n" bs a "[]"] by (auto simp: take_bytes_eq split: if_splits)

lemma reads_read_times:
  assumes "\<And>x. x \<in> set xs \<Longrightarrow> reads p (enc x) x"
  shows "reads (read_times (length xs) p) (concat (map enc xs)) xs"
  using assms
proof (induction xs)
  case (Cons x xs)
  have "reads (bindE p (\<lambda>x. bindE (read_times (length xs) p) (\<lambda>xs. ret (x # xs))))
      (enc x @ concat (map enc xs) @ []) (x # xs)"
    using Cons by (intro reads_bindE [OF _ reads_bindE]) (auto intro: reads_ret)
  then show ?case by simp
qed (simp add: reads_ret)

lemma bounded_read_times [parser_intros]: "bounded_parser p \<Longrightarrow> bounded_parser (read_times n p)"
  by (induction n) (auto intro!: parser_intros)

lemma reads_read_timesD:
  assumes "bounded_parser p" "reads (read_times n p) bs xs"
  shows "length xs = n \<and> (\<exists>bss. bs = concat bss \<and> list_all2 (reads p) bss xs)"
  using assms(2)
proof (induction n arbitrary: bs xs)
  case 0
  then show ?case by (auto dest!: reads_retD intro: exI [of _ "[]"])
next
  case (Suc n)
  then have "reads (bindE p (\<lambda>x. bindE (read_times n p) (\<lambda>xs. ret (x # xs)))) bs xs" by simp
  then obtain b1 b2 x where 1: "bs = b1 @ b2" "reads p b1 x"
      and s: "reads (bindE (read_times n p) (\<lambda>xs. ret (x # xs))) b2 xs"
    by (rule reads_bindE_E) (intro assms(1) parser_intros)+
  from s obtain b3 b4 ys where 2: "b2 = b3 @ b4" "reads (read_times n p) b3 ys"
      "reads (ret (x # ys)) b4 xs"
    by (rule reads_bindE_E) (intro assms(1) parser_intros)+
  then have "b4 = []" "xs = x # ys" by (auto dest: reads_retD)
  moreover obtain bss where "length ys = n" "b3 = concat bss" "list_all2 (reads p) bss ys"
    using Suc.IH [OF 2(2)] by blast
  ultimately show ?case
    using 1 2(1) by (auto intro!: exI [of _ "b1 # bss"])
qed

section \<open>Integers\<close>

lemma take_bytes_length: "take_bytes n r = (Ok b, r') \<Longrightarrow> length b = n"
proof (cases "reader_wf r")
  case True
  then show "take_bytes n r = (Ok b, r') \<Longrightarrow> length b = n"
    by (auto simp: take_bytes_eq split: if_splits)
qed (simp add: take_bytes_def bindE_def remaining_def reader_wf_def)

lemma bindE_take_cong:
  assumes "\<And>b. length b = n \<Longrightarrow> f b = g b"
  shows "bindE (take_bytes n) f = bindE (take_bytes n) g"
proof
  fix r
  show "bindE (take_bytes n) f r = bindE (take_bytes n) g r"
    using assms take_bytes_length [of n r]
    by (auto simp: bindE_def split: prod.split outcome.split)
qed

lemma nth_lists:
  "length b = 2 \<Longrightarrow> [b ! 0, b ! 1] = b"
  "length b = 4 \<Longrightarrow> [b ! 0, b ! 1, b ! 2, b ! 3] = b"
  "length b = 8 \<Longrightarrow> [b ! 0, b ! 1, b ! 2, b ! 3, b ! 4, b ! 5, b ! 6, b ! 7] = b"
  by (auto simp: numeral_eq_Suc length_Suc_conv)

lemma unmarshal_prim_eq:
  "unmarshal_prim = bindE (take_bytes (LENGTH('w::len) div 8)) (\<lambda>b. ret (from_be_bytes b :: 'w word))"
  unfolding unmarshal_prim_def by (rule bindE_take_cong) simp

lemma bindE_lift_Ok: "bindE (lift_outcome (Ok a)) f = f a"
  by (rule ext) (simp add: eff_simps)

lemma lift_Ok_ret: "lift_outcome (Ok a) = ret a"
  by (rule ext) (simp add: eff_simps)

text \<open>The typed reads of \<open>Reader\<close> are the trait's integer instances.\<close>

lemma read_prim_eq:
  "read_u8 = unmarshal_prim" "read_u16 = unmarshal_prim"
  "read_u32 = unmarshal_prim" "read_u64 = unmarshal_prim"
proof -
  show "read_u8 = unmarshal_prim"
    unfolding read_u8_def unmarshal_prim_eq
    by (simp del: One_nat_def) (rule bindE_take_cong, auto simp: from_be_bytes_def lift_Ok_ret length_Suc_conv)
  show "read_u16 = unmarshal_prim"
    unfolding read_u16_def unmarshal_prim_eq
    by (simp del: One_nat_def) (rule bindE_take_cong,
        auto simp: bindE_lift_Ok nth_lists simp del: One_nat_def)
  show "read_u32 = unmarshal_prim"
    unfolding read_u32_def unmarshal_prim_eq
    by (simp del: One_nat_def) (rule bindE_take_cong,
        auto simp: bindE_lift_Ok nth_lists simp del: One_nat_def)
  show "read_u64 = unmarshal_prim"
    unfolding read_u64_def unmarshal_prim_eq
    by (simp del: One_nat_def) (rule bindE_take_cong,
        auto simp: bindE_lift_Ok nth_lists simp del: One_nat_def)
qed

lemma reads_prim [parser_intros]:
  assumes "8 dvd LENGTH('w)"
  shows "reads unmarshal_prim (to_be_bytes w) (w :: 'w::len word)"
proof -
  have "reads (bindE (take_bytes (length (to_be_bytes w))) (\<lambda>b. ret (from_be_bytes b)))
      (to_be_bytes w @ []) (from_be_bytes (to_be_bytes w) :: 'w word)"
    by (rule reads_bindE [OF reads_take reads_ret])
  then show ?thesis by (simp add: unmarshal_prim_eq from_to_be_bytes assms)
qed

lemma bounded_prim [parser_intros]: "bounded_parser unmarshal_prim"
  unfolding unmarshal_prim_eq by (intro parser_intros)

lemma reads_primD:
  assumes "8 dvd LENGTH('w)" "reads unmarshal_prim bs (w :: 'w::len word)"
  shows "bs = to_be_bytes w"
proof -
  from assms(2) obtain b1 b2 a where "bs = b1 @ b2"
      "reads (take_bytes (LENGTH('w) div 8)) b1 a" "reads (ret (from_be_bytes a :: 'w word)) b2 w"
    unfolding unmarshal_prim_eq by (rule reads_bindE_E) (intro parser_intros)+
  then have "length bs = LENGTH('w) div 8" "w = from_be_bytes bs"
    by (auto dest!: reads_takeD reads_retD)
  then show ?thesis using assms(1) by (simp add: to_from_be_bytes)
qed

section \<open>The codec interface\<close>

text \<open>
  What one type's \<open>Marshal\<close> and \<open>Unmarshal\<close> instances owe each other: \<open>marshal\<close> appends to
  the output, \<open>unmarshal\<close> reads back every \<open>valid\<close> value from its encoding and is bounded on
  any input. A canonical codec moreover accepts nothing but the encodings.
\<close>

locale codec =
  fixes marshal :: "'a \<Rightarrow> bytes \<Rightarrow> bytes"
    and unmarshal :: "'a parser"
    and valid :: "'a \<Rightarrow> bool"
  assumes marshal_append: "marshal x out = out @ to_bytes marshal x"
    and reads_marshal: "valid x \<Longrightarrow> reads unmarshal (to_bytes marshal x) x"
    and unmarshal_bounded: "bounded_parser unmarshal"
begin

lemma round_trip:
  assumes "valid x" "reader_wf r" "unread r = to_bytes marshal x @ rest"
  shows "unmarshal r = (Ok x, advance (length (to_bytes marshal x)) r)"
  using reads_marshal [OF assms(1)] assms(2,3) by (rule readsD)

lemma prefix_free:
  assumes "valid x" "valid y" "to_bytes marshal x @ a = to_bytes marshal y @ b"
  shows "x = y \<and> a = b"
  using reads_unique [OF reads_marshal [OF assms(1)] reads_marshal [OF assms(2)] assms(3)] assms(3)
  by auto

lemma unmarshal_returns: "reader_wf r \<Longrightarrow> returns (fst (unmarshal r))"
  using unmarshal_bounded by (rule bounded_cases) auto

lemma fold_marshal: "fold marshal xs out = out @ concat (map (to_bytes marshal) xs)"
proof (induction xs arbitrary: out)
  case (Cons x xs)
  have "fold marshal (x # xs) out = marshal x out @ concat (map (to_bytes marshal) xs)"
    using Cons.IH by simp
  also have "\<dots> = out @ to_bytes marshal x @ concat (map (to_bytes marshal) xs)"
    by (subst marshal_append) simp
  finally show ?case by simp
qed simp

lemma reads_list:
  "list_all valid xs \<Longrightarrow> reads (read_times (length xs) unmarshal) (concat (map (to_bytes marshal) xs)) xs"
  by (rule reads_read_times) (auto simp: list_all_iff intro: reads_marshal)

end

locale canonical_codec = codec +
  assumes reads_canonical: "reads unmarshal bs x \<Longrightarrow> bs = to_bytes marshal x \<and> valid x"
begin

lemma unmarshal_inverse:
  assumes "reader_wf r" "unmarshal r = (Ok x, r')"
  shows "unread r = to_bytes marshal x @ unread r' \<and> valid x"
proof -
  obtain bs rest where "unread r = bs @ rest" "r' = advance (length bs) r" "reads unmarshal bs x"
    using unmarshal_bounded assms by (rule bounded_OkE)
  then show ?thesis using reads_canonical [of bs x] by simp
qed

lemma reads_listD:
  assumes "reads (read_times n unmarshal) bs xs"
  shows "length xs = n \<and> bs = concat (map (to_bytes marshal) xs) \<and> list_all valid xs"
proof -
  obtain bss where "length xs = n" "bs = concat bss" and r: "list_all2 (reads unmarshal) bss xs"
    using reads_read_timesD [OF unmarshal_bounded assms] by blast
  moreover have "bss = map (to_bytes marshal) xs \<and> list_all valid xs"
    using r by (induction rule: list_all2_induct) (auto dest: reads_canonical)
  ultimately show ?thesis by simp
qed

text \<open>A newtype over a value marshals as that value and reads back as its constructor.\<close>

lemma newtype:
  assumes "\<And>x. con (raw x) = x" "\<And>w. raw (con w) = w"
  shows "canonical_codec (\<lambda>x. marshal (raw x)) (bindE unmarshal (\<lambda>w. ret (con w))) (\<lambda>x. valid (raw x))"
proof unfold_locales
  let ?m = "\<lambda>x. marshal (raw x)" and ?u = "bindE unmarshal (\<lambda>w. ret (con w))"
  have tb: "to_bytes ?m x = to_bytes marshal (raw x)" for x
    by (simp add: to_bytes_def)
  show "marshal (raw x) out = out @ to_bytes ?m x" for x out
    unfolding tb by (rule marshal_append)
  show "reads ?u (to_bytes ?m x) x" if "valid (raw x)" for x
    using reads_bindE [OF reads_marshal [OF that] reads_ret, of con] by (simp add: tb assms)
  show "bounded_parser ?u"
    by (intro parser_intros unmarshal_bounded)
  show "bs = to_bytes ?m x \<and> valid (raw x)" if "reads ?u bs x" for bs x
  proof -
    from that obtain b1 b2 w where "bs = b1 @ b2" "reads unmarshal b1 w" "reads (ret (con w)) b2 x"
      by (rule reads_bindE_E) (intro parser_intros unmarshal_bounded)+
    then show ?thesis by (auto simp: tb assms dest!: reads_retD reads_canonical)
  qed
qed

end

lemma to_bytes_prim [simp]: "to_bytes marshal_prim w = to_be_bytes w"
  by (simp add: to_bytes_def marshal_prim_def)

lemma prim_codec:
  assumes "8 dvd LENGTH('w)"
  shows "canonical_codec (marshal_prim :: 'w::len word \<Rightarrow> bytes \<Rightarrow> bytes) unmarshal_prim (\<lambda>_. True)"
  by unfold_locales
    (auto simp: marshal_prim_def assms intro: parser_intros dest: reads_primD [OF assms])

interpretation codec_u8: canonical_codec "marshal_prim :: 8 word \<Rightarrow> _" unmarshal_prim "\<lambda>_. True"
  by (rule prim_codec) simp

interpretation codec_u16: canonical_codec "marshal_prim :: 16 word \<Rightarrow> _" unmarshal_prim "\<lambda>_. True"
  by (rule prim_codec) simp

interpretation codec_u32: canonical_codec "marshal_prim :: 32 word \<Rightarrow> _" unmarshal_prim "\<lambda>_. True"
  by (rule prim_codec) simp

interpretation codec_u64: canonical_codec "marshal_prim :: 64 word \<Rightarrow> _" unmarshal_prim "\<lambda>_. True"
  by (rule prim_codec) simp

section \<open>TPM2B\<close>

definition fits_tpm2b :: "bytes \<Rightarrow> bool" where
  "fits_tpm2b d \<longleftrightarrow> length d \<le> 65535"

text \<open>The wire form of a sized buffer: the two byte length, then the data.\<close>

definition tpm2b :: "bytes \<Rightarrow> bytes" where
  "tpm2b d = to_be_bytes (of_nat (length d) :: 16 word) @ d"

lemma marshal_tpm2b_eq:
  "marshal_tpm2b d out =
     (if fits_tpm2b d then (Ok (), out @ tpm2b d)
      else (Err (Malformed ''TPM2B exceeds 65535 bytes''), out))"
  by (simp add: marshal_tpm2b_def fits_tpm2b_def tpm2b_def marshal_prim_def)

lemma marshal_tpm2b_ok_eq: "marshal_tpm2b_ok d out = out @ (if fits_tpm2b d then tpm2b d else [])"
  by (simp add: marshal_tpm2b_ok_def marshal_tpm2b_eq)

lemma length_tpm2b: "length (tpm2b d) = 2 + length d"
  by (simp add: tpm2b_def)

lemma unat_length_u16: "fits_tpm2b d \<Longrightarrow> unat (of_nat (length d) :: 16 word) = length d"
  by (simp add: fits_tpm2b_def unsigned_of_nat take_bit_nat_eq_self)

lemma reads_tpm2b [parser_intros]:
  assumes "fits_tpm2b d"
  shows "reads read_tpm2b (tpm2b d) d"
proof -
  let ?n = "of_nat (length d) :: 16 word"
  have "reads (bindE read_u16 (\<lambda>n. take_bytes (unat n))) (to_be_bytes ?n @ d) d"
    using reads_take [of d] by (intro reads_bindE) (auto simp: read_prim_eq unat_length_u16 assms intro: parser_intros)
  then show ?thesis by (simp add: read_tpm2b_def tpm2b_def)
qed

lemma bounded_read_prim [parser_intros]:
  "bounded_parser read_u8" "bounded_parser read_u16" "bounded_parser read_u32" "bounded_parser read_u64"
  by (simp_all add: read_prim_eq parser_intros)

lemma reads_read_prim [parser_intros]:
  "reads read_u8 (to_be_bytes a) a" "reads read_u8 [a] a" "reads read_u16 (to_be_bytes b) b"
  "reads read_u32 (to_be_bytes c) c" "reads read_u64 (to_be_bytes d) d"
  using reads_prim [of a] by (auto simp: read_prim_eq intro: parser_intros)

lemma bounded_tpm2b [parser_intros]: "bounded_parser read_tpm2b"
  unfolding read_tpm2b_def by (intro parser_intros)

lemma reads_tpm2bD:
  assumes "reads read_tpm2b bs d"
  shows "fits_tpm2b d \<and> bs = tpm2b d"
proof -
  from assms obtain b1 b2 n where "bs = b1 @ b2" "reads read_u16 b1 n" "reads (take_bytes (unat n)) b2 d"
    unfolding read_tpm2b_def by (rule reads_bindE_E) (intro parser_intros)+
  then have 1: "bs = to_be_bytes n @ d" and n: "length d = unat n"
    by (auto simp: read_prim_eq dest!: reads_takeD reads_primD [rotated])
  have "length d \<le> 65535" using unsigned_less [of n, where ?'a = nat] n by simp
  moreover have "(of_nat (length d) :: 16 word) = n" using n by simp
  ultimately show ?thesis using 1 by (simp add: fits_tpm2b_def tpm2b_def)
qed

text \<open>The rules a parser is run forward with: one per primitive, sequencing last.\<close>

lemmas reads_rules = reads_ret reads_tpm2b reads_read_prim reads_take_eq reads_bindE

text \<open>A parser that reads a value gives it back from any reader that holds it.\<close>

lemma reads_run:
  assumes "reads p bs a" "unread r = bs @ rest" "reader_wf r"
  shows "p r = (Ok a, advance (length bs) r)"
  using assms by (auto intro: readsD)

end
