(* ===== verification/Constants.thy ===== *)
theory Constants
  imports Marshalling
begin

text \<open>
  The code points of \<open>src/src/types/constants.rs\<close>, grouped as the source's modules are, and
  the algorithm identifier with its digest sizes and its two-byte wire form.
\<close>

named_theorems tpm_consts \<open>the values of the named code points\<close>

section \<open>st: structure tags\<close>

definition st_NO_SESSIONS :: "16 word" where [tpm_consts]: "st_NO_SESSIONS = 0x8001"
definition st_SESSIONS :: "16 word" where [tpm_consts]: "st_SESSIONS = 0x8002"
definition st_HASHCHECK :: "16 word" where [tpm_consts]: "st_HASHCHECK = 0x8024"
definition st_CREATION :: "16 word" where [tpm_consts]: "st_CREATION = 0x8021"

section \<open>su: startup types\<close>

definition su_CLEAR :: "16 word" where [tpm_consts]: "su_CLEAR = 0x0000"
definition su_STATE :: "16 word" where [tpm_consts]: "su_STATE = 0x0001"

section \<open>se: session types\<close>

definition se_HMAC :: "8 word" where [tpm_consts]: "se_HMAC = 0x00"
definition se_POLICY :: "8 word" where [tpm_consts]: "se_POLICY = 0x01"
definition se_TRIAL :: "8 word" where [tpm_consts]: "se_TRIAL = 0x03"

section \<open>cc: command codes\<close>

definition cc_STARTUP :: "32 word" where [tpm_consts]: "cc_STARTUP = 0x00000144"
definition cc_SHUTDOWN :: "32 word" where [tpm_consts]: "cc_SHUTDOWN = 0x00000145"
definition cc_SELF_TEST :: "32 word" where [tpm_consts]: "cc_SELF_TEST = 0x00000143"
definition cc_GET_CAPABILITY :: "32 word" where [tpm_consts]: "cc_GET_CAPABILITY = 0x0000017A"
definition cc_GET_RANDOM :: "32 word" where [tpm_consts]: "cc_GET_RANDOM = 0x0000017B"
definition cc_STIR_RANDOM :: "32 word" where [tpm_consts]: "cc_STIR_RANDOM = 0x00000146"
definition cc_PCR_READ :: "32 word" where [tpm_consts]: "cc_PCR_READ = 0x0000017E"
definition cc_PCR_EXTEND :: "32 word" where [tpm_consts]: "cc_PCR_EXTEND = 0x00000182"
definition cc_START_AUTH_SESSION :: "32 word" where [tpm_consts]: "cc_START_AUTH_SESSION = 0x00000176"
definition cc_CREATE_PRIMARY :: "32 word" where [tpm_consts]: "cc_CREATE_PRIMARY = 0x00000131"
definition cc_CREATE :: "32 word" where [tpm_consts]: "cc_CREATE = 0x00000153"
definition cc_LOAD :: "32 word" where [tpm_consts]: "cc_LOAD = 0x00000157"
definition cc_UNSEAL :: "32 word" where [tpm_consts]: "cc_UNSEAL = 0x0000015E"
definition cc_FLUSH_CONTEXT :: "32 word" where [tpm_consts]: "cc_FLUSH_CONTEXT = 0x00000165"

section \<open>cap: capability groups\<close>

definition cap_ALGS :: "32 word" where [tpm_consts]: "cap_ALGS = 0x00000000"
definition cap_HANDLES :: "32 word" where [tpm_consts]: "cap_HANDLES = 0x00000001"
definition cap_COMMANDS :: "32 word" where [tpm_consts]: "cap_COMMANDS = 0x00000002"
definition cap_PCRS :: "32 word" where [tpm_consts]: "cap_PCRS = 0x00000005"
definition cap_TPM_PROPERTIES :: "32 word" where [tpm_consts]: "cap_TPM_PROPERTIES = 0x00000006"

section \<open>pt: properties\<close>

definition pt_FIXED :: "32 word" where [tpm_consts]: "pt_FIXED = 0x00000100"
definition pt_MANUFACTURER :: "32 word" where [tpm_consts]: "pt_MANUFACTURER = pt_FIXED + 5"
definition pt_VENDOR_STRING_1 :: "32 word" where [tpm_consts]: "pt_VENDOR_STRING_1 = pt_FIXED + 6"
definition pt_FIRMWARE_VERSION_1 :: "32 word" where [tpm_consts]: "pt_FIRMWARE_VERSION_1 = pt_FIXED + 11"

section \<open>rh: reserved handles\<close>

definition rh_OWNER :: "32 word" where [tpm_consts]: "rh_OWNER = 0x40000001"
definition rh_NULL :: "32 word" where [tpm_consts]: "rh_NULL = 0x40000007"
definition rh_LOCKOUT :: "32 word" where [tpm_consts]: "rh_LOCKOUT = 0x4000000A"
definition rh_ENDORSEMENT :: "32 word" where [tpm_consts]: "rh_ENDORSEMENT = 0x4000000B"
definition rh_PLATFORM :: "32 word" where [tpm_consts]: "rh_PLATFORM = 0x4000000C"
definition rh_PW :: "32 word" where [tpm_consts]: "rh_PW = 0x40000009"

section \<open>Algorithm identifiers\<close>

datatype Alg = Alg (alg_raw: "16 word")

definition Alg_ERROR :: Alg where [tpm_consts]: "Alg_ERROR = Alg 0x0000"
definition Alg_RSA :: Alg where [tpm_consts]: "Alg_RSA = Alg 0x0001"
definition Alg_SHA1 :: Alg where [tpm_consts]: "Alg_SHA1 = Alg 0x0004"
definition Alg_HMAC :: Alg where [tpm_consts]: "Alg_HMAC = Alg 0x0005"
definition Alg_AES :: Alg where [tpm_consts]: "Alg_AES = Alg 0x0006"
definition Alg_KEYEDHASH :: Alg where [tpm_consts]: "Alg_KEYEDHASH = Alg 0x0008"
definition Alg_XOR :: Alg where [tpm_consts]: "Alg_XOR = Alg 0x000A"
definition Alg_SHA256 :: Alg where [tpm_consts]: "Alg_SHA256 = Alg 0x000B"
definition Alg_SHA384 :: Alg where [tpm_consts]: "Alg_SHA384 = Alg 0x000C"
definition Alg_SHA512 :: Alg where [tpm_consts]: "Alg_SHA512 = Alg 0x000D"
definition Alg_NULL :: Alg where [tpm_consts]: "Alg_NULL = Alg 0x0010"
definition Alg_SM3_256 :: Alg where [tpm_consts]: "Alg_SM3_256 = Alg 0x0012"
definition Alg_ECDSA :: Alg where [tpm_consts]: "Alg_ECDSA = Alg 0x0018"
definition Alg_ECDH :: Alg where [tpm_consts]: "Alg_ECDH = Alg 0x0019"
definition Alg_RSASSA :: Alg where [tpm_consts]: "Alg_RSASSA = Alg 0x0014"
definition Alg_RSAES :: Alg where [tpm_consts]: "Alg_RSAES = Alg 0x0015"
definition Alg_RSAPSS :: Alg where [tpm_consts]: "Alg_RSAPSS = Alg 0x0016"
definition Alg_OAEP :: Alg where [tpm_consts]: "Alg_OAEP = Alg 0x0017"
definition Alg_ECC :: Alg where [tpm_consts]: "Alg_ECC = Alg 0x0023"
definition Alg_SYMCIPHER :: Alg where [tpm_consts]: "Alg_SYMCIPHER = Alg 0x0025"
definition Alg_CFB :: Alg where [tpm_consts]: "Alg_CFB = Alg 0x0043"

definition digest_size :: "Alg \<Rightarrow> nat option" where
  "digest_size a =
     (let x = alg_raw a in
      if x = alg_raw Alg_SHA1 then Some 20
      else if x = alg_raw Alg_SHA256 then Some 32
      else if x = alg_raw Alg_SHA384 then Some 48
      else if x = alg_raw Alg_SHA512 then Some 64
      else if x = alg_raw Alg_SM3_256 then Some 32
      else if x = alg_raw Alg_NULL then Some 0
      else None)"

definition debug_Alg :: "Alg \<Rightarrow> string" where
  "debug_Alg a = ''Alg(0x'' @ show_hex 4 (unat (alg_raw a)) @ '')''"

definition marshal_Alg :: "Alg \<Rightarrow> bytes \<Rightarrow> bytes" where
  "marshal_Alg a out = marshal_prim (alg_raw a) out"

definition unmarshal_Alg :: "Alg parser" where
  "unmarshal_Alg = bindE read_u16 (\<lambda>x. ret (Alg x))"

lemma unmarshal_Alg_eq: "unmarshal_Alg = bindE unmarshal_prim (\<lambda>x. ret (Alg x))"
  by (simp add: unmarshal_Alg_def read_prim_eq)

interpretation codec_Alg: canonical_codec marshal_Alg unmarshal_Alg "\<lambda>_. True"
proof -
  have "marshal_Alg = (\<lambda>x. marshal_prim (alg_raw x))"
    by (intro ext) (simp add: marshal_Alg_def)
  then show "canonical_codec marshal_Alg unmarshal_Alg (\<lambda>_. True)"
    using codec_u16.newtype [of Alg alg_raw] by (simp add: unmarshal_Alg_eq)
qed

lemma to_bytes_Alg [simp]: "to_bytes marshal_Alg a = to_be_bytes (alg_raw a)"
  by (simp add: to_bytes_def marshal_Alg_def marshal_prim_def)

lemma digest_size_cases:
  "digest_size a = Some n \<Longrightarrow>
     a \<in> {Alg_SHA1, Alg_SHA256, Alg_SHA384, Alg_SHA512, Alg_SM3_256} \<and> 20 \<le> n \<and> n \<le> 64
     \<or> a = Alg_NULL \<and> n = 0"
  by (cases a) (auto simp: digest_size_def tpm_consts Let_def split: if_splits)

end
