(* ===== verification/Attributes.thy ===== *)
theory Attributes
  imports Constants
begin

text \<open>
  The two attribute bit-fields of \<open>src/src/types/attributes.rs\<close>: \<open>TPMA_OBJECT\<close> (32 bits)
  and \<open>TPMA_SESSION\<close> (8 bits), their named bits, and the combinations the crate uses.
\<close>

named_theorems attr_bits \<open>the values of the named attribute bits\<close>

section \<open>Object attributes\<close>

datatype ObjectAttributes = ObjectAttributes (oa_bits: "32 word")

definition OA_FIXED_TPM :: "32 word" where [attr_bits]: "OA_FIXED_TPM = push_bit 1 1"
definition OA_ST_CLEAR :: "32 word" where [attr_bits]: "OA_ST_CLEAR = push_bit 2 1"
definition OA_FIXED_PARENT :: "32 word" where [attr_bits]: "OA_FIXED_PARENT = push_bit 4 1"
definition OA_SENSITIVE_DATA_ORIGIN :: "32 word" where
  [attr_bits]: "OA_SENSITIVE_DATA_ORIGIN = push_bit 5 1"
definition OA_USER_WITH_AUTH :: "32 word" where [attr_bits]: "OA_USER_WITH_AUTH = push_bit 6 1"
definition OA_ADMIN_WITH_POLICY :: "32 word" where
  [attr_bits]: "OA_ADMIN_WITH_POLICY = push_bit 7 1"
definition OA_NO_DA :: "32 word" where [attr_bits]: "OA_NO_DA = push_bit 10 1"
definition OA_ENCRYPTED_DUPLICATION :: "32 word" where
  [attr_bits]: "OA_ENCRYPTED_DUPLICATION = push_bit 11 1"
definition OA_RESTRICTED :: "32 word" where [attr_bits]: "OA_RESTRICTED = push_bit 16 1"
definition OA_DECRYPT :: "32 word" where [attr_bits]: "OA_DECRYPT = push_bit 17 1"
definition OA_SIGN_ENCRYPT :: "32 word" where [attr_bits]: "OA_SIGN_ENCRYPT = push_bit 18 1"

definition oa_empty :: ObjectAttributes where
  "oa_empty = ObjectAttributes 0"

definition oa_contains :: "ObjectAttributes \<Rightarrow> 32 word \<Rightarrow> bool" where
  "oa_contains a bits \<longleftrightarrow> oa_bits a AND bits = bits"

definition oa_with :: "ObjectAttributes \<Rightarrow> 32 word \<Rightarrow> ObjectAttributes" where
  "oa_with a bits = ObjectAttributes (oa_bits a OR bits)"

definition oa_storage_parent :: ObjectAttributes where
  "oa_storage_parent = ObjectAttributes
     (OA_FIXED_TPM OR OA_FIXED_PARENT OR OA_SENSITIVE_DATA_ORIGIN OR OA_USER_WITH_AUTH
      OR OA_RESTRICTED OR OA_DECRYPT)"

definition oa_sealed_data :: ObjectAttributes where
  "oa_sealed_data = ObjectAttributes (OA_FIXED_TPM OR OA_FIXED_PARENT OR OA_USER_WITH_AUTH)"

definition debug_ObjectAttributes :: "ObjectAttributes \<Rightarrow> string" where
  "debug_ObjectAttributes a = ''ObjectAttributes(0x'' @ show_hex 8 (unat (oa_bits a)) @ '')''"

definition marshal_ObjectAttributes :: "ObjectAttributes \<Rightarrow> bytes \<Rightarrow> bytes" where
  "marshal_ObjectAttributes a out = marshal_prim (oa_bits a) out"

definition unmarshal_ObjectAttributes :: "ObjectAttributes parser" where
  "unmarshal_ObjectAttributes = bindE read_u32 (\<lambda>x. ret (ObjectAttributes x))"

interpretation codec_ObjectAttributes:
  canonical_codec marshal_ObjectAttributes unmarshal_ObjectAttributes "\<lambda>_. True"
proof -
  have "marshal_ObjectAttributes = (\<lambda>x. marshal_prim (oa_bits x))"
    by (intro ext) (simp add: marshal_ObjectAttributes_def)
  then show "canonical_codec marshal_ObjectAttributes unmarshal_ObjectAttributes (\<lambda>_. True)"
    using codec_u32.newtype [of ObjectAttributes oa_bits]
    by (simp add: unmarshal_ObjectAttributes_def read_prim_eq)
qed

lemma to_bytes_ObjectAttributes [simp]:
  "to_bytes marshal_ObjectAttributes a = to_be_bytes (oa_bits a)"
  by (simp add: to_bytes_def marshal_ObjectAttributes_def marshal_prim_def)

section \<open>Session attributes\<close>

datatype SessionAttributes = SessionAttributes (sa_bits: "8 word")

definition SA_CONTINUE_SESSION :: "8 word" where [attr_bits]: "SA_CONTINUE_SESSION = push_bit 0 1"
definition SA_AUDIT_EXCLUSIVE :: "8 word" where [attr_bits]: "SA_AUDIT_EXCLUSIVE = push_bit 1 1"
definition SA_AUDIT_RESET :: "8 word" where [attr_bits]: "SA_AUDIT_RESET = push_bit 2 1"
definition SA_DECRYPT :: "8 word" where [attr_bits]: "SA_DECRYPT = push_bit 5 1"
definition SA_ENCRYPT :: "8 word" where [attr_bits]: "SA_ENCRYPT = push_bit 6 1"
definition SA_AUDIT :: "8 word" where [attr_bits]: "SA_AUDIT = push_bit 7 1"

definition sa_empty :: SessionAttributes where
  "sa_empty = SessionAttributes 0"

definition sa_continue_session :: SessionAttributes where
  "sa_continue_session = SessionAttributes SA_CONTINUE_SESSION"

definition sa_contains :: "SessionAttributes \<Rightarrow> 8 word \<Rightarrow> bool" where
  "sa_contains a bits \<longleftrightarrow> sa_bits a AND bits = bits"

definition sa_with :: "SessionAttributes \<Rightarrow> 8 word \<Rightarrow> SessionAttributes" where
  "sa_with a bits = SessionAttributes (sa_bits a OR bits)"

definition debug_SessionAttributes :: "SessionAttributes \<Rightarrow> string" where
  "debug_SessionAttributes a = ''SessionAttributes(0x'' @ show_hex 2 (unat (sa_bits a)) @ '')''"

definition marshal_SessionAttributes :: "SessionAttributes \<Rightarrow> bytes \<Rightarrow> bytes" where
  "marshal_SessionAttributes a out = marshal_prim (sa_bits a) out"

definition unmarshal_SessionAttributes :: "SessionAttributes parser" where
  "unmarshal_SessionAttributes = bindE read_u8 (\<lambda>x. ret (SessionAttributes x))"

interpretation codec_SessionAttributes:
  canonical_codec marshal_SessionAttributes unmarshal_SessionAttributes "\<lambda>_. True"
proof -
  have "marshal_SessionAttributes = (\<lambda>x. marshal_prim (sa_bits x))"
    by (intro ext) (simp add: marshal_SessionAttributes_def)
  then show "canonical_codec marshal_SessionAttributes unmarshal_SessionAttributes (\<lambda>_. True)"
    using codec_u8.newtype [of SessionAttributes sa_bits]
    by (simp add: unmarshal_SessionAttributes_def read_prim_eq)
qed

section \<open>The bit-set interface\<close>

text \<open>
  Both fields are sets of bits over an integer: \<open>contains\<close> is inclusion and \<open>with\<close> is union.
\<close>

locale bit_set =
  fixes bits_of :: "'s \<Rightarrow> 'w::len word"
    and contains :: "'s \<Rightarrow> 'w word \<Rightarrow> bool"
    and add :: "'s \<Rightarrow> 'w word \<Rightarrow> 's"
  assumes contains_iff: "contains s b \<longleftrightarrow> bits_of s AND b = b"
    and bits_of_add: "bits_of (add s b) = bits_of s OR b"
begin

lemma contains_bits: "contains s b \<longleftrightarrow> (\<forall>i. bit b i \<longrightarrow> bit (bits_of s) i)"
  unfolding contains_iff by (auto simp: bit_eq_iff bit_and_iff dest: bit_imp_le_length)

lemma contains_add: "contains (add s b) c \<longleftrightarrow> (\<forall>i. bit c i \<longrightarrow> bit (bits_of s) i \<or> bit b i)"
  unfolding contains_bits bits_of_add by (simp add: bit_or_iff)

lemma contains_or: "contains s (b OR c) \<longleftrightarrow> contains s b \<and> contains s c"
  unfolding contains_bits by (auto simp: bit_or_iff)

end

interpretation object_bits: bit_set oa_bits oa_contains oa_with
  by unfold_locales (simp_all add: oa_contains_def oa_with_def)

interpretation session_bits: bit_set sa_bits sa_contains sa_with
  by unfold_locales (simp_all add: sa_contains_def sa_with_def)

end
