(* ===== verification/Handles.thy ===== *)
theory Handles
  imports Constants
begin

text \<open>
  The 32-bit handle of \<open>src/src/types/handles.rs\<close>, its classification by the high byte, and
  its wire form. Handles are ordered by value, so that a handle space is an interval.
\<close>

datatype Handle = Handle (handle_raw: "32 word")

instantiation Handle :: linorder
begin

definition less_eq_Handle :: "Handle \<Rightarrow> Handle \<Rightarrow> bool" where
  "less_eq_Handle a b \<longleftrightarrow> handle_raw a \<le> handle_raw b"

definition less_Handle :: "Handle \<Rightarrow> Handle \<Rightarrow> bool" where
  "less_Handle a b \<longleftrightarrow> handle_raw a < handle_raw b"

instance
  by standard (auto simp: less_eq_Handle_def less_Handle_def intro: Handle.expand)

end

definition handle_type :: "Handle \<Rightarrow> byte" where
  "handle_type h = ucast (drop_bit 24 (handle_raw h))"

definition is_transient_handle :: "Handle \<Rightarrow> bool" where
  "is_transient_handle h \<longleftrightarrow> handle_type h = 0x80"

definition is_persistent_handle :: "Handle \<Rightarrow> bool" where
  "is_persistent_handle h \<longleftrightarrow> handle_type h = 0x81"

definition is_session_handle :: "Handle \<Rightarrow> bool" where
  "is_session_handle h \<longleftrightarrow> handle_type h = 0x02 \<or> handle_type h = 0x03"

definition debug_Handle :: "Handle \<Rightarrow> string" where
  "debug_Handle h = ''Handle(0x'' @ show_hex 8 (unat (handle_raw h)) @ '')''"

definition marshal_Handle :: "Handle \<Rightarrow> bytes \<Rightarrow> bytes" where
  "marshal_Handle h out = marshal_prim (handle_raw h) out"

definition unmarshal_Handle :: "Handle parser" where
  "unmarshal_Handle = bindE read_u32 (\<lambda>x. ret (Handle x))"

interpretation codec_Handle: canonical_codec marshal_Handle unmarshal_Handle "\<lambda>_. True"
proof -
  have "marshal_Handle = (\<lambda>x. marshal_prim (handle_raw x))"
    by (intro ext) (simp add: marshal_Handle_def)
  then show "canonical_codec marshal_Handle unmarshal_Handle (\<lambda>_. True)"
    using codec_u32.newtype [of Handle handle_raw]
    by (simp add: unmarshal_Handle_def read_prim_eq)
qed

lemma to_bytes_Handle [simp]: "to_bytes marshal_Handle h = to_be_bytes (handle_raw h)"
  by (simp add: to_bytes_def marshal_Handle_def marshal_prim_def)

lemma unat_handle_type: "unat (handle_type h) = unat (handle_raw h) div 2 ^ 24"
proof -
  have "unat (handle_raw h) < 2 ^ 32"
    using unsigned_less [of "handle_raw h", where ?'a = nat] by simp
  then have "unat (handle_raw h) div 2 ^ 24 < 2 ^ 8"
    by (simp add: less_mult_imp_div_less)
  moreover have "unat (drop_bit 24 (handle_raw h)) = unat (handle_raw h) div 2 ^ 24"
    using \<open>unat (handle_raw h) < 2 ^ 32\<close>
    by (subst unsigned_drop_bit_eq) (simp add: drop_bit_eq_div take_bit_nat_eq_self)
  ultimately show ?thesis
    by (simp only: handle_type_def unsigned_ucast_eq) (simp add: take_bit_nat_eq_self)
qed

text \<open>A handle of type \<open>t\<close> is one of the \<open>2^24\<close> handles that start with that byte.\<close>

lemma handle_type_interval:
  "handle_type h = t \<longleftrightarrow>
     unat t * 2 ^ 24 \<le> unat (handle_raw h) \<and> unat (handle_raw h) < (unat t + 1) * 2 ^ 24"
proof -
  have "x div n = y \<longleftrightarrow> y * n \<le> x \<and> x < (y + 1) * n" if "0 < n" for x y n :: nat
    using that dividend_less_div_times [of n x] by (auto intro!: div_nat_eqI simp: algebra_simps)
  from this [of "2 ^ 24"] show ?thesis by (simp only: word_unat_eq_iff unat_handle_type) simp
qed

end
