(* ===== verification/Structures.thy ===== *)
theory Structures
  imports Attributes Handles
begin

text \<open>
  The structures of \<open>src/src/types/structures.rs\<close>: the \<open>Buffer\<close> that stands for every
  \<open>TPM2B\<close>, the marshal-only public area with its algorithm-dependent parts, the sensitive
  area of a creation, and the PCR selections.
\<close>

definition ecc_NIST_P256 :: "16 word" where [tpm_consts]: "ecc_NIST_P256 = 0x0003"
definition ecc_NIST_P384 :: "16 word" where [tpm_consts]: "ecc_NIST_P384 = 0x0004"

section \<open>Buffer\<close>

datatype Buffer = Buffer (buffer_bytes: bytes)

definition Buffer_empty :: Buffer where
  "Buffer_empty = Buffer []"

definition Buffer_len :: "Buffer \<Rightarrow> nat" where
  "Buffer_len b = length (buffer_bytes b)"

definition Buffer_is_empty :: "Buffer \<Rightarrow> bool" where
  "Buffer_is_empty b \<longleftrightarrow> buffer_bytes b = []"

definition debug_Buffer :: "Buffer \<Rightarrow> string" where
  "debug_Buffer b = ''Buffer('' @ show_dec (length (buffer_bytes b)) @ '' bytes)''"

definition marshal_Buffer :: "Buffer \<Rightarrow> bytes \<Rightarrow> bytes" where
  "marshal_Buffer b out = marshal_tpm2b_ok (buffer_bytes b) out"

definition unmarshal_Buffer :: "Buffer parser" where
  "unmarshal_Buffer = bindE read_tpm2b (\<lambda>d. ret (Buffer d))"

section \<open>Public areas\<close>

record SymDefObject =
  sym_algorithm :: Alg
  key_bits :: "16 word"
  sym_mode :: Alg

definition aes128_cfb :: SymDefObject where
  "aes128_cfb = \<lparr>sym_algorithm = Alg_AES, key_bits = 128, sym_mode = Alg_CFB\<rparr>"

definition sym_null :: SymDefObject where
  "sym_null = \<lparr>sym_algorithm = Alg_NULL, key_bits = 0, sym_mode = Alg_NULL\<rparr>"

definition marshal_SymDefObject :: "SymDefObject \<Rightarrow> bytes \<Rightarrow> bytes" where
  "marshal_SymDefObject s out =
     (let out = marshal_Alg (sym_algorithm s) out in
      if sym_algorithm s \<noteq> Alg_NULL
      then marshal_Alg (sym_mode s) (marshal_prim (key_bits s) out)
      else out)"

datatype PublicParms =
    ParmsKeyedHash Alg
  | ParmsEcc SymDefObject Alg "16 word" Alg

fun marshal_PublicParms :: "PublicParms \<Rightarrow> bytes \<Rightarrow> bytes" where
  "marshal_PublicParms (ParmsKeyedHash sch) out = marshal_Alg sch out"
| "marshal_PublicParms (ParmsEcc symmetric sch curve kdf) out =
     marshal_Alg kdf (marshal_prim curve (marshal_Alg sch (marshal_SymDefObject symmetric out)))"

datatype PublicId =
    IdKeyedHash Buffer
  | IdEcc Buffer Buffer

fun marshal_PublicId :: "PublicId \<Rightarrow> bytes \<Rightarrow> bytes" where
  "marshal_PublicId (IdKeyedHash d) out = marshal_Buffer d out"
| "marshal_PublicId (IdEcc x y) out = marshal_Buffer y (marshal_Buffer x out)"

record Public =
  pub_type :: Alg
  name_alg :: Alg
  pub_attributes :: ObjectAttributes
  auth_policy :: Buffer
  parameters :: PublicParms
  unique :: PublicId

definition marshal_Public :: "Public \<Rightarrow> bytes \<Rightarrow> bytes" where
  "marshal_Public p out =
     (let out = marshal_Alg (pub_type p) out;
          out = marshal_Alg (name_alg p) out;
          out = marshal_ObjectAttributes (pub_attributes p) out;
          out = marshal_Buffer (auth_policy p) out;
          out = marshal_PublicParms (parameters p) out
      in marshal_PublicId (unique p) out)"

definition Public_wrap_2b :: "Public \<Rightarrow> bytes \<Rightarrow> bytes" where
  "Public_wrap_2b p out = (let inner = to_bytes marshal_Public p in marshal_tpm2b_ok inner out)"

definition ecc_storage_parent :: "Alg \<Rightarrow> Public" where
  "ecc_storage_parent nalg =
     \<lparr>pub_type = Alg_ECC, name_alg = nalg, pub_attributes = oa_storage_parent,
      auth_policy = Buffer_empty,
      parameters = ParmsEcc aes128_cfb Alg_NULL ecc_NIST_P256 Alg_NULL,
      unique = IdEcc Buffer_empty Buffer_empty\<rparr>"

definition sealed_data_template :: "Alg \<Rightarrow> Public" where
  "sealed_data_template nalg =
     \<lparr>pub_type = Alg_KEYEDHASH, name_alg = nalg, pub_attributes = oa_sealed_data,
      auth_policy = Buffer_empty, parameters = ParmsKeyedHash Alg_NULL,
      unique = IdKeyedHash Buffer_empty\<rparr>"

section \<open>Sensitive areas\<close>

record SensitiveCreate =
  user_auth :: Buffer
  sens_data :: Buffer

definition SensitiveCreate_default :: SensitiveCreate where
  "SensitiveCreate_default = \<lparr>user_auth = Buffer [], sens_data = Buffer []\<rparr>"

definition SensitiveCreate_wrap_2b :: "SensitiveCreate \<Rightarrow> bytes \<Rightarrow> bytes" where
  "SensitiveCreate_wrap_2b s out =
     (let inner = marshal_Buffer (sens_data s) (marshal_Buffer (user_auth s) [])
      in marshal_tpm2b_ok inner out)"

section \<open>PCR selections\<close>

record PcrSelection =
  pcr_hash :: Alg
  pcr_select :: bytes

text \<open>
  \<open>select[byte] = 1 << (pcr % 8)\<close> is an indexed store into a vector of \<open>byte + 1\<close> zeros, in
  range by construction; \<open>resize(3, 0)\<close> appends zeros.
\<close>

definition PcrSelection_single :: "Alg \<Rightarrow> byte \<Rightarrow> PcrSelection" where
  "PcrSelection_single h pcr =
     (let b = unat (pcr div 8);
          sel = (replicate (b + 1) 0)[b := push_bit (unat (pcr mod 8)) 1];
          sel = (if length sel < 3 then sel @ replicate (3 - length sel) 0 else sel)
      in \<lparr>pcr_hash = h, pcr_select = sel\<rparr>)"

text \<open>The length byte is \<open>self.select.len() as u8\<close>, which wraps.\<close>

definition marshal_PcrSelection :: "PcrSelection \<Rightarrow> bytes \<Rightarrow> bytes" where
  "marshal_PcrSelection s out =
     (let out = marshal_Alg (pcr_hash s) out;
          out = marshal_prim (of_nat (length (pcr_select s)) :: 8 word) out
      in out @ pcr_select s)"

definition unmarshal_PcrSelection :: "PcrSelection parser" where
  "unmarshal_PcrSelection = bindE unmarshal_Alg (\<lambda>h. bindE read_u8 (\<lambda>size.
     bindE (take_bytes (unat size)) (\<lambda>sel. ret \<lparr>pcr_hash = h, pcr_select = sel\<rparr>)))"

datatype PcrSelectionList = PcrSelectionList (selections: "PcrSelection list")

definition marshal_PcrSelectionList :: "PcrSelectionList \<Rightarrow> bytes \<Rightarrow> bytes" where
  "marshal_PcrSelectionList l out =
     fold marshal_PcrSelection (selections l)
       (marshal_prim (of_nat (length (selections l)) :: 32 word) out)"

definition unmarshal_PcrSelectionList :: "PcrSelectionList parser" where
  "unmarshal_PcrSelectionList = bindE read_u32 (\<lambda>count.
     bindE (read_times (unat count) unmarshal_PcrSelection) (\<lambda>v. ret (PcrSelectionList v)))"

section \<open>Response helpers\<close>

definition skip_tk_creation :: "unit parser" where
  "skip_tk_creation = bindE read_u16 (\<lambda>_. bindE read_u32 (\<lambda>_. bindE read_tpm2b (\<lambda>_. ret ())))"

definition read_digest_list :: "Buffer list parser" where
  "read_digest_list = bindE read_u32 (\<lambda>count.
     if unat count > 0xFFFF then raise (Malformed ''absurd digest-list count'')
     else read_times (unat count) (bindE read_tpm2b (\<lambda>d. ret (Buffer d))))"

section \<open>Codecs\<close>

lemma reads_newtypes:
  "reads unmarshal_Alg (to_be_bytes (alg_raw a)) a"
  "reads unmarshal_Handle (to_be_bytes (handle_raw h)) h"
  "reads unmarshal_ObjectAttributes (to_be_bytes (oa_bits oa)) oa"
  using codec_Alg.reads_marshal [of a] codec_Handle.reads_marshal [of h]
    codec_ObjectAttributes.reads_marshal [of oa] by simp_all

lemmas bounded_newtypes [parser_intros] = codec_Alg.unmarshal_bounded
  codec_Handle.unmarshal_bounded codec_ObjectAttributes.unmarshal_bounded

definition Buffer_wf :: "Buffer \<Rightarrow> bool" where
  "Buffer_wf b \<longleftrightarrow> fits_tpm2b (buffer_bytes b)"

definition wire_Buffer :: "Buffer \<Rightarrow> bytes" where
  "wire_Buffer b = (if Buffer_wf b then tpm2b (buffer_bytes b) else [])"

lemma marshal_Buffer_eq: "marshal_Buffer b out = out @ wire_Buffer b"
  by (simp add: marshal_Buffer_def marshal_tpm2b_ok_eq wire_Buffer_def Buffer_wf_def)

lemma to_bytes_Buffer [simp]: "to_bytes marshal_Buffer = wire_Buffer"
  by (rule ext) (simp add: to_bytes_def marshal_Buffer_eq)

lemma reads_Buffer: "Buffer_wf b \<Longrightarrow> reads unmarshal_Buffer (wire_Buffer b) b"
  using reads_bindE [OF reads_tpm2b reads_ret, of "buffer_bytes b" Buffer]
  by (simp add: unmarshal_Buffer_def wire_Buffer_def Buffer_wf_def)

lemma bounded_Buffer [parser_intros]: "bounded_parser unmarshal_Buffer"
  unfolding unmarshal_Buffer_def by (intro parser_intros)

interpretation codec_Buffer: canonical_codec marshal_Buffer unmarshal_Buffer Buffer_wf
proof unfold_locales
  fix bs b assume "reads unmarshal_Buffer bs b"
  then obtain b1 b2 d where "bs = b1 @ b2" "reads read_tpm2b b1 d" "reads (ret (Buffer d)) b2 b"
    unfolding unmarshal_Buffer_def by (rule reads_bindE_E) (intro parser_intros)+
  then show "bs = to_bytes marshal_Buffer b \<and> Buffer_wf b"
    by (auto simp: wire_Buffer_def Buffer_wf_def dest!: reads_tpm2bD reads_retD)
qed (simp_all add: marshal_Buffer_eq reads_Buffer bounded_Buffer)

definition PcrSelection_wf :: "PcrSelection \<Rightarrow> bool" where
  "PcrSelection_wf s \<longleftrightarrow> length (pcr_select s) \<le> 255"

lemma to_bytes_PcrSelection:
  "to_bytes marshal_PcrSelection s =
     to_be_bytes (alg_raw (pcr_hash s)) @ [of_nat (length (pcr_select s))] @ pcr_select s"
  by (simp add: to_bytes_def marshal_PcrSelection_def marshal_Alg_def marshal_prim_def)

interpretation codec_PcrSelection:
  canonical_codec marshal_PcrSelection unmarshal_PcrSelection PcrSelection_wf
proof unfold_locales
  show "marshal_PcrSelection s out = out @ to_bytes marshal_PcrSelection s" for s out
    by (simp add: to_bytes_PcrSelection marshal_PcrSelection_def marshal_Alg_def marshal_prim_def)
  show bounded: "bounded_parser unmarshal_PcrSelection"
    unfolding unmarshal_PcrSelection_def by (intro parser_intros)
  show "reads unmarshal_PcrSelection (to_bytes marshal_PcrSelection s) s" if "PcrSelection_wf s" for s
  proof -
    have n: "unat (of_nat (length (pcr_select s)) :: byte) = length (pcr_select s)"
      using that by (simp add: PcrSelection_wf_def unsigned_of_nat take_bit_nat_eq_self)
    have "reads unmarshal_PcrSelection (to_be_bytes (alg_raw (pcr_hash s)) @
        [of_nat (length (pcr_select s))] @ pcr_select s @ [])
        \<lparr>pcr_hash = pcr_hash s, pcr_select = pcr_select s\<rparr>"
      unfolding unmarshal_PcrSelection_def
      by (rule reads_newtypes reads_rules)+ (simp add: n, rule reads_ret)
    then show ?thesis by (cases s) (simp add: to_bytes_PcrSelection)
  qed
  fix bs s assume r: "reads unmarshal_PcrSelection bs s"
  obtain b1 b2 h where 1: "bs = b1 @ b2" "reads unmarshal_Alg b1 h" and r2:
      "reads (bindE read_u8 (\<lambda>size. bindE (take_bytes (unat size))
        (\<lambda>sel. ret \<lparr>pcr_hash = h, pcr_select = sel\<rparr>))) b2 s"
    using r unfolding unmarshal_PcrSelection_def by (rule reads_bindE_E) (intro parser_intros)+
  from r2 obtain b3 b4 n where 2: "b2 = b3 @ b4" "reads read_u8 b3 n" and r3:
      "reads (bindE (take_bytes (unat n)) (\<lambda>sel. ret \<lparr>pcr_hash = h, pcr_select = sel\<rparr>)) b4 s"
    by (rule reads_bindE_E) (intro parser_intros)+
  from r3 obtain b5 b6 sel where 3: "b4 = b5 @ b6" "reads (take_bytes (unat n)) b5 sel"
      "reads (ret \<lparr>pcr_hash = h, pcr_select = sel\<rparr>) b6 s"
    by (rule reads_bindE_E) (intro parser_intros)+
  have len: "length sel = unat n" and s: "s = \<lparr>pcr_hash = h, pcr_select = sel\<rparr>" "b5 = sel" "b6 = []"
    using 3 by (auto dest!: reads_takeD reads_retD)
  have "(of_nat (length sel) :: byte) = n" using len by simp
  moreover have "length sel \<le> 255" using len unsigned_less [of n, where ?'a = nat] by simp
  moreover have "b1 = to_be_bytes (alg_raw h)" "b3 = [n]"
    using 1(2) 2(2) codec_Alg.reads_canonical [of b1 h] codec_u8.reads_canonical [of b3 n]
    by (simp_all add: read_prim_eq)
  ultimately show "bs = to_bytes marshal_PcrSelection s \<and> PcrSelection_wf s"
    using 1(1) 2(1) 3(1) s by (simp add: to_bytes_PcrSelection PcrSelection_wf_def)
qed

definition PcrSelectionList_wf :: "PcrSelectionList \<Rightarrow> bool" where
  "PcrSelectionList_wf l \<longleftrightarrow>
     length (selections l) < 2 ^ 32 \<and> list_all PcrSelection_wf (selections l)"

lemma to_bytes_PcrSelectionList:
  "to_bytes marshal_PcrSelectionList l =
     to_be_bytes (of_nat (length (selections l)) :: 32 word) @
     concat (map (to_bytes marshal_PcrSelection) (selections l))"
  by (simp add: to_bytes_def [of marshal_PcrSelectionList] marshal_PcrSelectionList_def
      marshal_prim_def codec_PcrSelection.fold_marshal)

interpretation codec_PcrSelectionList:
  canonical_codec marshal_PcrSelectionList unmarshal_PcrSelectionList PcrSelectionList_wf
proof unfold_locales
  show "marshal_PcrSelectionList l out = out @ to_bytes marshal_PcrSelectionList l" for l out
    by (simp add: to_bytes_PcrSelectionList marshal_PcrSelectionList_def marshal_prim_def
        codec_PcrSelection.fold_marshal)
  have items: "bounded_parser (read_times n unmarshal_PcrSelection)" for n
    by (intro parser_intros codec_PcrSelection.unmarshal_bounded)
  show "bounded_parser unmarshal_PcrSelectionList"
    unfolding unmarshal_PcrSelectionList_def by (intro parser_intros items)
  show "reads unmarshal_PcrSelectionList (to_bytes marshal_PcrSelectionList l) l"
    if "PcrSelectionList_wf l" for l
  proof -
    let ?xs = "selections l"
    have n: "unat (of_nat (length ?xs) :: 32 word) = length ?xs"
      using that by (simp add: PcrSelectionList_wf_def unsigned_of_nat take_bit_nat_eq_self)
    have "list_all PcrSelection_wf ?xs" using that by (simp add: PcrSelectionList_wf_def)
    note items = codec_PcrSelection.reads_list [OF this]
    have "reads unmarshal_PcrSelectionList (to_be_bytes (of_nat (length ?xs) :: 32 word) @
        concat (map (to_bytes marshal_PcrSelection) ?xs) @ []) (PcrSelectionList ?xs)"
      unfolding unmarshal_PcrSelectionList_def
      by (rule reads_bindE, rule reads_read_prim, unfold n) (rule reads_bindE items reads_ret)+
    then show ?thesis by (simp add: to_bytes_PcrSelectionList)
  qed
  fix bs l assume "reads unmarshal_PcrSelectionList bs l"
  then obtain b1 b2 n where 1: "bs = b1 @ b2" "reads read_u32 b1 n" and r:
      "reads (bindE (read_times (unat n) unmarshal_PcrSelection) (\<lambda>v. ret (PcrSelectionList v))) b2 l"
    unfolding unmarshal_PcrSelectionList_def by (rule reads_bindE_E) (intro parser_intros items)+
  from r obtain b3 b4 v where 2: "b2 = b3 @ b4" "reads (read_times (unat n) unmarshal_PcrSelection) b3 v"
      "reads (ret (PcrSelectionList v)) b4 l"
    by (rule reads_bindE_E) (intro parser_intros items)+
  have v: "length v = unat n" "b3 = concat (map (to_bytes marshal_PcrSelection) v)"
      "list_all PcrSelection_wf v" and l: "l = PcrSelectionList v" "b4 = []"
    using codec_PcrSelection.reads_listD [OF 2(2)] reads_retD [OF 2(3)] by auto
  have "b1 = to_be_bytes n"
    using 1(2) codec_u32.reads_canonical [of b1 n] by (simp add: read_prim_eq)
  moreover have "(of_nat (length v) :: 32 word) = n" using v by simp
  moreover have "length v < 2 ^ 32" using v(1) unsigned_less [of n, where ?'a = nat] by simp
  ultimately show "bs = to_bytes marshal_PcrSelectionList l \<and> PcrSelectionList_wf l"
    using 1(1) 2(1) v l by (simp add: to_bytes_PcrSelectionList PcrSelectionList_wf_def)
qed

section \<open>Response helpers read what the TPM writes\<close>

lemma reads_digest_list:
  assumes "length ds \<le> 0xFFFF" "list_all Buffer_wf ds"
  shows "reads read_digest_list
    (to_be_bytes (of_nat (length ds) :: 32 word) @ concat (map wire_Buffer ds)) ds"
proof -
  have n: "unat (of_nat (length ds) :: 32 word) = length ds"
    using assms(1) by (simp add: unsigned_of_nat take_bit_nat_eq_self)
  have items: "reads (read_times (length ds) (bindE read_tpm2b (\<lambda>d. ret (Buffer d))))
      (concat (map wire_Buffer ds)) ds"
    using codec_Buffer.reads_list [OF assms(2)] by (simp add: unmarshal_Buffer_def)
  show ?thesis
    unfolding read_digest_list_def
    by (rule reads_bindE, rule reads_read_prim) (use assms(1) items in \<open>simp add: n\<close>)
qed

lemma bounded_digest_list [parser_intros]: "bounded_parser read_digest_list"
proof -
  have "bounded_parser (if unat count > 0xFFFF then raise (Malformed ''absurd digest-list count'')
     else read_times (unat count) (bindE read_tpm2b (\<lambda>d. ret (Buffer d))))" for count :: "32 word"
    by (cases "unat count > 0xFFFF") (simp_all add: parser_intros)
  then show ?thesis unfolding read_digest_list_def by (intro parser_intros)
qed

lemma reads_skip_tk_creation:
  "fits_tpm2b d \<Longrightarrow>
    reads skip_tk_creation (to_be_bytes (tag :: 16 word) @ to_be_bytes (hier :: 32 word) @ tpm2b d) ()"
proof -
  assume d: "fits_tpm2b d"
  have "reads skip_tk_creation
      (to_be_bytes (tag :: 16 word) @ to_be_bytes (hier :: 32 word) @ tpm2b d @ []) ()"
    unfolding skip_tk_creation_def by (rule reads_rules d)+
  then show ?thesis by simp
qed

lemma bounded_skip_tk_creation [parser_intros]: "bounded_parser skip_tk_creation"
  unfolding skip_tk_creation_def by (intro parser_intros)

end
