(* ===== verification/Public_Area.thy ===== *)
theory Public_Area
  imports Structures
begin

text \<open>
  The crate never parses the public and sensitive areas it sends, so their encoding is checked
  here against decoders of the receiving side, written from the selector rules the source
  states (Part 2, 11.1.7 and 12.2.4): the object type selects the parameters and the identity,
  and a \<open>NULL\<close> symmetric algorithm has no key bits and no mode.
\<close>

section \<open>Decoders of the receiving side\<close>

definition parse_SymDefObject :: "SymDefObject parser" where
  "parse_SymDefObject = bindE unmarshal_Alg (\<lambda>a.
     if a = Alg_NULL then ret sym_null
     else bindE read_u16 (\<lambda>k. bindE unmarshal_Alg (\<lambda>m.
       ret \<lparr>sym_algorithm = a, key_bits = k, sym_mode = m\<rparr>)))"

definition parse_PublicParms :: "Alg \<Rightarrow> PublicParms parser" where
  "parse_PublicParms ty =
     (if ty = Alg_KEYEDHASH then bindE unmarshal_Alg (\<lambda>s. ret (ParmsKeyedHash s))
      else if ty = Alg_ECC then
        bindE parse_SymDefObject (\<lambda>sd. bindE unmarshal_Alg (\<lambda>s. bindE read_u16 (\<lambda>c.
          bindE unmarshal_Alg (\<lambda>k. ret (ParmsEcc sd s c k)))))
      else raise (Malformed ''TPM_RC_TYPE''))"

definition parse_PublicId :: "Alg \<Rightarrow> PublicId parser" where
  "parse_PublicId ty =
     (if ty = Alg_KEYEDHASH then bindE unmarshal_Buffer (\<lambda>d. ret (IdKeyedHash d))
      else if ty = Alg_ECC then
        bindE unmarshal_Buffer (\<lambda>x. bindE unmarshal_Buffer (\<lambda>y. ret (IdEcc x y)))
      else raise (Malformed ''TPM_RC_TYPE''))"

definition parse_Public :: "Public parser" where
  "parse_Public = bindE unmarshal_Alg (\<lambda>ty. bindE unmarshal_Alg (\<lambda>nalg.
     bindE unmarshal_ObjectAttributes (\<lambda>attrs. bindE unmarshal_Buffer (\<lambda>pol.
     bindE (parse_PublicParms ty) (\<lambda>parms. bindE (parse_PublicId ty) (\<lambda>uid.
     ret \<lparr>pub_type = ty, name_alg = nalg, pub_attributes = attrs, auth_policy = pol,
          parameters = parms, unique = uid\<rparr>))))))"

definition parse_SensitiveCreate :: "SensitiveCreate parser" where
  "parse_SensitiveCreate = bindE unmarshal_Buffer (\<lambda>a. bindE unmarshal_Buffer (\<lambda>d.
     ret \<lparr>user_auth = a, sens_data = d\<rparr>))"

text \<open>Decoding a whole buffer: nothing may be left over.\<close>

definition parse_all :: "'a parser \<Rightarrow> bytes \<Rightarrow> 'a option" where
  "parse_all p bs = (case p (Reader_new bs) of
       (Ok a, r) \<Rightarrow> if unread r = [] then Some a else None
     | _ \<Rightarrow> None)"

lemma parse_all_reads: "reads p bs a \<Longrightarrow> parse_all p bs = Some a"
  using reads_new [of p bs a "[]"] by (simp add: parse_all_def)

section \<open>Well-formed areas\<close>

definition SymDefObject_wf :: "SymDefObject \<Rightarrow> bool" where
  "SymDefObject_wf s \<longleftrightarrow> sym_algorithm s = Alg_NULL \<longrightarrow> s = sym_null"

fun Parms_wf :: "Alg \<Rightarrow> PublicParms \<Rightarrow> bool" where
  "Parms_wf ty (ParmsKeyedHash s) \<longleftrightarrow> ty = Alg_KEYEDHASH"
| "Parms_wf ty (ParmsEcc sd s c k) \<longleftrightarrow> ty = Alg_ECC \<and> SymDefObject_wf sd"

fun PublicId_wf :: "Alg \<Rightarrow> PublicId \<Rightarrow> bool" where
  "PublicId_wf ty (IdKeyedHash d) \<longleftrightarrow> ty = Alg_KEYEDHASH \<and> Buffer_wf d"
| "PublicId_wf ty (IdEcc x y) \<longleftrightarrow> ty = Alg_ECC \<and> Buffer_wf x \<and> Buffer_wf y"

definition Public_wf :: "Public \<Rightarrow> bool" where
  "Public_wf p \<longleftrightarrow> Buffer_wf (auth_policy p) \<and> Parms_wf (pub_type p) (parameters p)
     \<and> PublicId_wf (pub_type p) (unique p)"

definition SensitiveCreate_wf :: "SensitiveCreate \<Rightarrow> bool" where
  "SensitiveCreate_wf s \<longleftrightarrow> Buffer_wf (user_auth s) \<and> Buffer_wf (sens_data s)"

section \<open>The encodings, as byte strings\<close>

definition wire_SymDefObject :: "SymDefObject \<Rightarrow> bytes" where
  "wire_SymDefObject s = to_be_bytes (alg_raw (sym_algorithm s)) @
     (if sym_algorithm s = Alg_NULL then []
      else to_be_bytes (key_bits s) @ to_be_bytes (alg_raw (sym_mode s)))"

fun wire_PublicParms :: "PublicParms \<Rightarrow> bytes" where
  "wire_PublicParms (ParmsKeyedHash s) = to_be_bytes (alg_raw s)"
| "wire_PublicParms (ParmsEcc sd s c k) =
     wire_SymDefObject sd @ to_be_bytes (alg_raw s) @ to_be_bytes c @ to_be_bytes (alg_raw k)"

fun wire_PublicId :: "PublicId \<Rightarrow> bytes" where
  "wire_PublicId (IdKeyedHash d) = wire_Buffer d"
| "wire_PublicId (IdEcc x y) = wire_Buffer x @ wire_Buffer y"

definition wire_Public :: "Public \<Rightarrow> bytes" where
  "wire_Public p = to_be_bytes (alg_raw (pub_type p)) @ to_be_bytes (alg_raw (name_alg p)) @
     to_be_bytes (oa_bits (pub_attributes p)) @ wire_Buffer (auth_policy p) @
     wire_PublicParms (parameters p) @ wire_PublicId (unique p)"

definition wire_SensitiveCreate :: "SensitiveCreate \<Rightarrow> bytes" where
  "wire_SensitiveCreate s = wire_Buffer (user_auth s) @ wire_Buffer (sens_data s)"

lemma marshal_Alg_eq: "marshal_Alg a out = out @ to_be_bytes (alg_raw a)"
  by (simp add: marshal_Alg_def marshal_prim_def)

lemma marshal_SymDefObject_eq: "marshal_SymDefObject s out = out @ wire_SymDefObject s"
  by (simp add: marshal_SymDefObject_def wire_SymDefObject_def marshal_Alg_eq marshal_prim_def)

lemma marshal_PublicParms_eq: "marshal_PublicParms p out = out @ wire_PublicParms p"
  by (cases p) (simp_all add: marshal_SymDefObject_eq marshal_Alg_eq marshal_prim_def)

lemma marshal_PublicId_eq: "marshal_PublicId p out = out @ wire_PublicId p"
  by (cases p) (simp_all add: marshal_Buffer_eq)

lemma marshal_Public_eq: "marshal_Public p out = out @ wire_Public p"
  by (simp add: marshal_Public_def wire_Public_def marshal_Alg_eq marshal_Buffer_eq
      marshal_PublicParms_eq marshal_PublicId_eq marshal_ObjectAttributes_def marshal_prim_def Let_def)

lemma to_bytes_Public: "to_bytes marshal_Public p = wire_Public p"
  by (simp add: to_bytes_def marshal_Public_eq)

lemma Public_wrap_2b_eq:
  "Public_wrap_2b p out = out @ (if fits_tpm2b (wire_Public p) then tpm2b (wire_Public p) else [])"
  by (simp add: Public_wrap_2b_def to_bytes_Public marshal_tpm2b_ok_eq)

lemma SensitiveCreate_wrap_2b_eq:
  "SensitiveCreate_wrap_2b s out =
     out @ (if fits_tpm2b (wire_SensitiveCreate s) then tpm2b (wire_SensitiveCreate s) else [])"
  by (simp add: SensitiveCreate_wrap_2b_def wire_SensitiveCreate_def marshal_Buffer_eq marshal_tpm2b_ok_eq)

section \<open>Decoding the encodings\<close>

lemma reads_SymDefObject:
  assumes "SymDefObject_wf s"
  shows "reads parse_SymDefObject (wire_SymDefObject s) s"
proof (cases "sym_algorithm s = Alg_NULL")
  case True
  then have s: "s = sym_null" using assms by (simp add: SymDefObject_wf_def)
  have "reads parse_SymDefObject (to_be_bytes (alg_raw Alg_NULL) @ []) sym_null"
    unfolding parse_SymDefObject_def
    by (rule reads_bindE, rule reads_newtypes) (simp add: reads_ret)
  then show ?thesis by (simp add: s wire_SymDefObject_def sym_null_def)
next
  case False
  have "reads parse_SymDefObject (to_be_bytes (alg_raw (sym_algorithm s)) @
      to_be_bytes (key_bits s) @ to_be_bytes (alg_raw (sym_mode s)) @ [])
      \<lparr>sym_algorithm = sym_algorithm s, key_bits = key_bits s, sym_mode = sym_mode s\<rparr>"
    unfolding parse_SymDefObject_def
    by (rule reads_bindE, rule reads_newtypes, subst if_not_P [OF False])
      (rule reads_newtypes reads_rules)+
  then show ?thesis using False by (cases s) (simp add: wire_SymDefObject_def)
qed

lemma type_codes [simp]: "Alg_KEYEDHASH \<noteq> Alg_ECC" "Alg_ECC \<noteq> Alg_KEYEDHASH"
  by (simp_all add: tpm_consts)

lemma reads_PublicParms:
  assumes "Parms_wf ty p"
  shows "reads (parse_PublicParms ty) (wire_PublicParms p) p"
proof (cases p)
  case (ParmsKeyedHash s)
  have "reads (bindE unmarshal_Alg (\<lambda>s. ret (ParmsKeyedHash s))) (to_be_bytes (alg_raw s) @ [])
      (ParmsKeyedHash s)"
    by (rule reads_newtypes reads_rules)+
  then show ?thesis using assms ParmsKeyedHash by (simp add: parse_PublicParms_def)
next
  case (ParmsEcc sd s c k)
  then have ty: "ty = Alg_ECC" and sd: "reads parse_SymDefObject (wire_SymDefObject sd) sd"
    using assms by (simp_all add: reads_SymDefObject)
  have "reads (bindE parse_SymDefObject (\<lambda>sd. bindE unmarshal_Alg (\<lambda>s. bindE read_u16 (\<lambda>c.
          bindE unmarshal_Alg (\<lambda>k. ret (ParmsEcc sd s c k))))))
      (wire_SymDefObject sd @ to_be_bytes (alg_raw s) @ to_be_bytes c @ to_be_bytes (alg_raw k) @ [])
      (ParmsEcc sd s c k)"
    by (rule sd reads_newtypes reads_rules)+
  then show ?thesis by (simp add: parse_PublicParms_def ty ParmsEcc)
qed

lemma reads_PublicId:
  assumes "PublicId_wf ty p"
  shows "reads (parse_PublicId ty) (wire_PublicId p) p"
proof (cases p)
  case (IdKeyedHash d)
  then have wf: "Buffer_wf d" and ty: "ty = Alg_KEYEDHASH" using assms by simp_all
  have "reads (bindE unmarshal_Buffer (\<lambda>d. ret (IdKeyedHash d))) (wire_Buffer d @ []) (IdKeyedHash d)"
    by (rule reads_bindE reads_Buffer wf reads_ret)+
  then show ?thesis by (simp add: parse_PublicId_def ty IdKeyedHash)
next
  case (IdEcc x y)
  then have wf: "Buffer_wf x" "Buffer_wf y" and ty: "ty = Alg_ECC" using assms by simp_all
  have "reads (bindE unmarshal_Buffer (\<lambda>x. bindE unmarshal_Buffer (\<lambda>y. ret (IdEcc x y))))
      (wire_Buffer x @ wire_Buffer y @ []) (IdEcc x y)"
    by (rule reads_bindE reads_Buffer wf reads_ret)+
  then show ?thesis by (simp add: parse_PublicId_def ty IdEcc)
qed

lemma reads_Public:
  assumes "Public_wf p"
  shows "reads parse_Public (wire_Public p) p"
proof -
  have "Buffer_wf (auth_policy p)"
    and "reads (parse_PublicParms (pub_type p)) (wire_PublicParms (parameters p)) (parameters p)"
    and "reads (parse_PublicId (pub_type p)) (wire_PublicId (unique p)) (unique p)"
    using assms by (auto simp: Public_wf_def intro: reads_PublicParms reads_PublicId)
  note parts = reads_Buffer [OF this(1)] this(2,3)
  have "reads parse_Public (to_be_bytes (alg_raw (pub_type p)) @ to_be_bytes (alg_raw (name_alg p)) @
      to_be_bytes (oa_bits (pub_attributes p)) @ wire_Buffer (auth_policy p) @
      wire_PublicParms (parameters p) @ wire_PublicId (unique p) @ [])
      \<lparr>pub_type = pub_type p, name_alg = name_alg p, pub_attributes = pub_attributes p,
       auth_policy = auth_policy p, parameters = parameters p, unique = unique p\<rparr>"
    unfolding parse_Public_def
    by (rule reads_newtypes parts reads_bindE reads_ret)+
  then show ?thesis by (cases p) (simp add: wire_Public_def)
qed

lemma reads_SensitiveCreate:
  assumes "SensitiveCreate_wf s"
  shows "reads parse_SensitiveCreate (wire_SensitiveCreate s) s"
proof -
  have wf: "Buffer_wf (user_auth s)" "Buffer_wf (sens_data s)"
    using assms by (simp_all add: SensitiveCreate_wf_def)
  have "reads parse_SensitiveCreate (wire_Buffer (user_auth s) @ wire_Buffer (sens_data s) @ [])
      \<lparr>user_auth = user_auth s, sens_data = sens_data s\<rparr>"
    unfolding parse_SensitiveCreate_def by (rule reads_bindE reads_Buffer wf reads_ret)+
  then show ?thesis by (cases s) (simp add: wire_SensitiveCreate_def)
qed

end
