(* ===== verification/Crypto.thy ===== *)
theory Crypto
  imports Constants
begin

text \<open>
  The hash-agile layer of \<open>src/src/crypto.rs\<close>: digests and HMACs dispatched by algorithm
  identifier, the KDFa loop, and the AES-CFB transform. The primitives belong to the crate
  \<open>purecrypto\<close>, which is not in the repository: they are the fields of a record that every
  definition here takes, and what the code relies on is \<open>purecrypto_ok\<close>.
\<close>

section \<open>The primitives of purecrypto\<close>

datatype hash_fn = Sha1 | Sha256 | Sha384 | Sha512 | Sm3

datatype aes_fn = Aes128 | Aes256

text \<open>
  \<open>Digest::new/update/finalize\<close>, \<open>Hmac::new/update/finalize\<close>, \<open>Cfb::encrypt/decrypt\<close> (key,
  IV, data), \<open>OsRng.fill_bytes\<close> on a buffer of a given length, and \<open>bool::from(Choice::from(b))\<close>.
\<close>

record ('h, 'm, 'g) purecrypto =
  digest_new :: "hash_fn \<Rightarrow> 'h"
  digest_update :: "hash_fn \<Rightarrow> 'h \<Rightarrow> bytes \<Rightarrow> 'h"
  digest_finalize :: "hash_fn \<Rightarrow> 'h \<Rightarrow> bytes"
  hmac_new :: "hash_fn \<Rightarrow> bytes \<Rightarrow> 'm"
  hmac_update :: "hash_fn \<Rightarrow> 'm \<Rightarrow> bytes \<Rightarrow> 'm"
  hmac_finalize :: "hash_fn \<Rightarrow> 'm \<Rightarrow> bytes"
  cfb_encrypt :: "aes_fn \<Rightarrow> bytes \<Rightarrow> bytes \<Rightarrow> bytes \<Rightarrow> bytes"
  cfb_decrypt :: "aes_fn \<Rightarrow> bytes \<Rightarrow> bytes \<Rightarrow> bytes \<Rightarrow> bytes"
  os_fill :: "'g \<Rightarrow> nat \<Rightarrow> bytes \<times> 'g"
  choice_from :: "byte \<Rightarrow> bool"

fun hash_len :: "hash_fn \<Rightarrow> nat" where
  "hash_len Sha1 = 20"
| "hash_len Sha256 = 32"
| "hash_len Sha384 = 48"
| "hash_len Sha512 = 64"
| "hash_len Sm3 = 32"

text \<open>
  Documented behaviour: feeding a message in pieces is feeding it whole, a digest and an HMAC
  have the length of the hash, the generator fills the buffer, and a choice is true for 1 and
  false for 0.
\<close>

definition purecrypto_ok :: "('h, 'm, 'g) purecrypto \<Rightarrow> bool" where
  "purecrypto_ok P \<longleftrightarrow>
     (\<forall>d xs. digest_finalize P d (fold (\<lambda>x h. digest_update P d h x) xs (digest_new P d)) =
             digest_finalize P d (digest_update P d (digest_new P d) (concat xs))) \<and>
     (\<forall>d h. length (digest_finalize P d h) = hash_len d) \<and>
     (\<forall>d k xs. hmac_finalize P d (fold (\<lambda>x m. hmac_update P d m x) xs (hmac_new P d k)) =
               hmac_finalize P d (hmac_update P d (hmac_new P d k) (concat xs))) \<and>
     (\<forall>d m. length (hmac_finalize P d m) = hash_len d) \<and>
     (\<forall>g n. length (fst (os_fill P g n)) = n) \<and>
     choice_from P 1 \<and> \<not> choice_from P 0"

section \<open>Digests and HMACs\<close>

definition hash_parts :: "('h, 'm, 'g) purecrypto \<Rightarrow> Alg \<Rightarrow> bytes list \<Rightarrow> bytes result" where
  "hash_parts P alg parts =
     (let run = (\<lambda>d. digest_finalize P d (fold (\<lambda>p h. digest_update P d h p) parts (digest_new P d)))
      in if alg = Alg_SHA1 then Ok (run Sha1)
         else if alg = Alg_SHA256 then Ok (run Sha256)
         else if alg = Alg_SHA384 then Ok (run Sha384)
         else if alg = Alg_SHA512 then Ok (run Sha512)
         else if alg = Alg_SM3_256 then Ok (run Sm3)
         else Err (Usage ''unsupported hash algorithm''))"

definition hash :: "('h, 'm, 'g) purecrypto \<Rightarrow> Alg \<Rightarrow> bytes \<Rightarrow> bytes result" where
  "hash P alg data = hash_parts P alg [data]"

definition hmac_parts :: "('h, 'm, 'g) purecrypto \<Rightarrow> Alg \<Rightarrow> bytes \<Rightarrow> bytes list \<Rightarrow> bytes result" where
  "hmac_parts P alg key parts =
     (let run = (\<lambda>d. hmac_finalize P d (fold (\<lambda>p m. hmac_update P d m p) parts (hmac_new P d key)))
      in if alg = Alg_SHA1 then Ok (run Sha1)
         else if alg = Alg_SHA256 then Ok (run Sha256)
         else if alg = Alg_SHA384 then Ok (run Sha384)
         else if alg = Alg_SHA512 then Ok (run Sha512)
         else if alg = Alg_SM3_256 then Ok (run Sm3)
         else Err (Usage ''unsupported HMAC hash algorithm''))"

definition crypto_digest_size :: "Alg \<Rightarrow> nat result" where
  "crypto_digest_size alg = (case digest_size alg of
       Some n \<Rightarrow> if n > 0 then Ok n else Err (Usage ''not a hash algorithm'')
     | None \<Rightarrow> Err (Usage ''not a hash algorithm''))"

section \<open>KDFa\<close>

text \<open>
  The \<open>while\<close> loop: \<open>counter += 1\<close> panics on overflow. A hash that returned nothing would make
  it run forever, which is the value \<open>None\<close>.
\<close>

partial_function (option) kdfa_loop ::
  "('h, 'm, 'g) purecrypto \<Rightarrow> Alg \<Rightarrow> bytes \<Rightarrow> bytes \<Rightarrow> bytes \<Rightarrow> bytes \<Rightarrow> bytes \<Rightarrow> nat \<Rightarrow> 32 word \<Rightarrow>
   bytes \<Rightarrow> bytes result option" where
  "kdfa_loop P alg key label cu cv bits_be out_len counter out =
     (if length out < out_len then
        (if counter = 0xFFFFFFFF then Some Panic
         else (case hmac_parts P alg key [to_be_bytes (counter + 1), label, [0], cu, cv, bits_be] of
             Ok block \<Rightarrow> kdfa_loop P alg key label cu cv bits_be out_len (counter + 1) (out @ block)
           | Err e \<Rightarrow> Some (Err e)
           | Panic \<Rightarrow> Some Panic
           | Loop \<Rightarrow> None))
      else Some (Ok out))"

definition mask_leading :: "32 word \<Rightarrow> bytes \<Rightarrow> bytes" where
  "mask_leading bits out =
     (let r = bits mod 8 in
      if r \<noteq> 0 \<and> out \<noteq> [] then out[0 := (out ! 0) AND drop_bit (unat (8 - r)) 0xFF] else out)"

definition kdfa ::
  "('h, 'm, 'g) purecrypto \<Rightarrow> Alg \<Rightarrow> bytes \<Rightarrow> bytes \<Rightarrow> bytes \<Rightarrow> bytes \<Rightarrow> 32 word \<Rightarrow> bytes result" where
  "kdfa P alg key label cu cv bits =
     (let out_len = (unat bits + 7) div 8;
          bits_be = to_be_bytes bits
      in case kdfa_loop P alg key label cu cv bits_be out_len 0 [] of
           None \<Rightarrow> Loop
         | Some x \<Rightarrow> bindO x (\<lambda>out. Ok (mask_leading bits (take out_len out))))"

section \<open>AES-CFB\<close>

text \<open>
  The transform works in place: \<open>data\<close> is the state. The key is converted to a fixed-size
  array by \<open>try_into().expect(..)\<close>, which cannot fail behind the match on its length.
\<close>

definition aes_cfb :: "('h, 'm, 'g) purecrypto \<Rightarrow> bytes \<Rightarrow> bytes \<Rightarrow> bool \<Rightarrow> (bytes, Error, unit) eff" where
  "aes_cfb P key iv encrypt data =
     (if length key = 16 then
        (Ok (), if encrypt then cfb_encrypt P Aes128 key iv data else cfb_decrypt P Aes128 key iv data)
      else if length key = 32 then
        (Ok (), if encrypt then cfb_encrypt P Aes256 key iv data else cfb_decrypt P Aes256 key iv data)
      else (Err (Usage ''unsupported AES key size for CFB''), data))"

section \<open>Dispatch facts\<close>

text \<open>The algorithm identifiers the dispatch knows, and the primitive each stands for.\<close>

definition hash_fn_of :: "Alg \<Rightarrow> hash_fn option" where
  "hash_fn_of alg =
     (if alg = Alg_SHA1 then Some Sha1
      else if alg = Alg_SHA256 then Some Sha256
      else if alg = Alg_SHA384 then Some Sha384
      else if alg = Alg_SHA512 then Some Sha512
      else if alg = Alg_SM3_256 then Some Sm3
      else None)"

definition digest_of :: "('h, 'm, 'g) purecrypto \<Rightarrow> hash_fn \<Rightarrow> bytes \<Rightarrow> bytes" where
  "digest_of P d m = digest_finalize P d (digest_update P d (digest_new P d) m)"

definition hmac_of :: "('h, 'm, 'g) purecrypto \<Rightarrow> hash_fn \<Rightarrow> bytes \<Rightarrow> bytes \<Rightarrow> bytes" where
  "hmac_of P d k m = hmac_finalize P d (hmac_update P d (hmac_new P d k) m)"

lemma hash_fn_of_cases:
  "hash_fn_of alg = Some d \<Longrightarrow>
    alg = Alg_SHA1 \<and> d = Sha1 \<or> alg = Alg_SHA256 \<and> d = Sha256 \<or> alg = Alg_SHA384 \<and> d = Sha384 \<or>
    alg = Alg_SHA512 \<and> d = Sha512 \<or> alg = Alg_SM3_256 \<and> d = Sm3"
  by (auto simp: hash_fn_of_def split: if_splits)

lemma hash_parts_eq:
  "purecrypto_ok P \<Longrightarrow> hash_parts P alg parts = (case hash_fn_of alg of
     Some d \<Rightarrow> Ok (digest_of P d (concat parts)) | None \<Rightarrow> Err (Usage ''unsupported hash algorithm''))"
  by (simp add: hash_parts_def hash_fn_of_def digest_of_def purecrypto_ok_def Let_def)

lemma hmac_parts_eq:
  "purecrypto_ok P \<Longrightarrow> hmac_parts P alg key parts = (case hash_fn_of alg of
     Some d \<Rightarrow> Ok (hmac_of P d key (concat parts)) | None \<Rightarrow> Err (Usage ''unsupported HMAC hash algorithm''))"
  by (simp add: hmac_parts_def hash_fn_of_def hmac_of_def purecrypto_ok_def Let_def)

lemma length_digest [simp]:
  "purecrypto_ok P \<Longrightarrow> length (digest_of P d m) = hash_len d"
  "purecrypto_ok P \<Longrightarrow> length (hmac_of P d k m) = hash_len d"
  by (simp_all add: digest_of_def hmac_of_def purecrypto_ok_def)

lemma hash_len_bounds: "20 \<le> hash_len d" "hash_len d \<le> 64"
  by (cases d; simp)+

lemma crypto_digest_size_eq:
  "crypto_digest_size alg = (case hash_fn_of alg of
     Some d \<Rightarrow> Ok (hash_len d) | None \<Rightarrow> Err (Usage ''not a hash algorithm''))"
  by (cases alg) (simp add: crypto_digest_size_def digest_size_def hash_fn_of_def tpm_consts Let_def)

lemma unsupported_returns:
  "hash_fn_of alg = None \<Longrightarrow> hash_parts P alg parts = Err (Usage ''unsupported hash algorithm'')"
  "hash_fn_of alg = None \<Longrightarrow> hmac_parts P alg key parts = Err (Usage ''unsupported HMAC hash algorithm'')"
  by (auto simp: hash_parts_def hmac_parts_def hash_fn_of_def Let_def split: if_splits)

lemma parts_return: "returns (hash_parts P alg parts)" "returns (hmac_parts P alg key parts)"
  by (simp_all add: hash_parts_def hmac_parts_def Let_def)

section \<open>The digest interface\<close>

text \<open>
  What the session layer relies on, for a plain and for a keyed hash alike: the result depends
  on the concatenation of the parts only, has the size of the algorithm's digest, and an
  unsupported algorithm is a usage error.
\<close>

locale message_digest =
  fixes lawful :: "'p \<Rightarrow> bool"
    and run :: "'p \<Rightarrow> Alg \<Rightarrow> bytes list \<Rightarrow> bytes result"
  assumes run_supported:
      "lawful p \<Longrightarrow> hash_fn_of alg = Some d \<Longrightarrow> \<exists>x. run p alg xs = Ok x \<and> length x = hash_len d"
    and run_pieces: "lawful p \<Longrightarrow> concat xs = concat ys \<Longrightarrow> run p alg xs = run p alg ys"
    and run_unsupported: "hash_fn_of alg = None \<Longrightarrow> \<exists>m. run p alg xs = Err (Usage m)"
begin

lemma run_whole: "lawful p \<Longrightarrow> run p alg xs = run p alg [concat xs]"
  by (rule run_pieces) simp_all

lemma run_Ok_length:
  assumes "lawful p" "run p alg xs = Ok x"
  shows "\<exists>d. hash_fn_of alg = Some d \<and> length x = hash_len d"
proof (cases "hash_fn_of alg")
  case None
  then show ?thesis using run_unsupported [of alg p xs] assms(2) by auto
next
  case (Some d)
  then show ?thesis using run_supported [OF assms(1) Some, of xs] assms(2) by auto
qed

lemma run_size:
  assumes "lawful p" "run p alg xs = Ok x"
  shows "crypto_digest_size alg = Ok (length x)"
  using run_Ok_length [OF assms] by (auto simp: crypto_digest_size_eq)

end

interpretation plain: message_digest purecrypto_ok hash_parts
  by unfold_locales (auto simp: hash_parts_eq unsupported_returns split: option.split)

interpretation keyed: message_digest "\<lambda>(P, key). purecrypto_ok P" "\<lambda>(P, key) alg xs. hmac_parts P alg key xs"
  by unfold_locales (auto simp: hmac_parts_eq unsupported_returns split: option.split)

section \<open>KDFa against SP 800-108\<close>

text \<open>The \<open>i\<close>-th block of key material, and the number of blocks a length takes.\<close>

definition kdfa_block ::
  "('h, 'm, 'g) purecrypto \<Rightarrow> hash_fn \<Rightarrow> bytes \<Rightarrow> bytes \<Rightarrow> bytes \<Rightarrow> bytes \<Rightarrow> 32 word \<Rightarrow> nat \<Rightarrow> bytes" where
  "kdfa_block P d key label cu cv bits i =
     hmac_of P d key (to_be_bytes (of_nat i :: 32 word) @ label @ [0] @ cu @ cv @ to_be_bytes bits)"

definition kdfa_blocks :: "hash_fn \<Rightarrow> nat \<Rightarrow> nat" where
  "kdfa_blocks d len = (len + hash_len d - 1) div hash_len d"

definition kdfa_spec ::
  "('h, 'm, 'g) purecrypto \<Rightarrow> hash_fn \<Rightarrow> bytes \<Rightarrow> bytes \<Rightarrow> bytes \<Rightarrow> bytes \<Rightarrow> 32 word \<Rightarrow> bytes" where
  "kdfa_spec P d key label cu cv bits =
     (let len = (unat bits + 7) div 8 in
      mask_leading bits (take len
        (concat (map (kdfa_block P d key label cu cv bits) [1..<Suc (kdfa_blocks d len)]))))"

lemma kdfa_blocks_bounds:
  "len \<le> kdfa_blocks d len * hash_len d"
  "k < kdfa_blocks d len \<Longrightarrow> k * hash_len d < len"
proof -
  let ?h = "hash_len d"
  have h: "0 < ?h" using hash_len_bounds(1) [of d] by simp
  have "len + ?h - 1 < (kdfa_blocks d len + 1) * ?h"
    using dividend_less_div_times [OF h, of "len + ?h - 1"] by (simp add: kdfa_blocks_def)
  then show "len \<le> kdfa_blocks d len * ?h" using h by simp
  assume "k < kdfa_blocks d len"
  then have "(k + 1) * ?h \<le> kdfa_blocks d len * ?h" by (intro mult_le_mono1) simp
  also have "\<dots> \<le> len + ?h - 1" by (simp add: kdfa_blocks_def)
  finally show "k * ?h < len" using h by simp
qed

lemma kdfa_loop_runs:
  assumes P: "purecrypto_ok P" and d: "hash_fn_of alg = Some d"
    and n: "n = kdfa_blocks d len" "n < 2 ^ 32 - 1"
  shows "k \<le> n \<Longrightarrow> length out = k * hash_len d \<Longrightarrow>
    kdfa_loop P alg key label cu cv (to_be_bytes bits) len (of_nat k) out =
      Some (Ok (out @ concat (map (kdfa_block P d key label cu cv bits) [Suc k..<Suc n])))"
proof (induction "n - k" arbitrary: k out)
  case 0
  then have "k = n" by simp
  then have "\<not> length out < len" using 0 kdfa_blocks_bounds(1) [of len d] n by simp
  then show ?case using \<open>k = n\<close> by (simp add: kdfa_loop.simps)
next
  case (Suc m)
  then have k: "k < n" by simp
  then have lt: "length out < len" using Suc.prems kdfa_blocks_bounds(2) [of k d len] n by simp
  have "unat (of_nat k :: 32 word) = k"
    using k n(2) by (simp add: unsigned_of_nat take_bit_nat_eq_self)
  then have nov: "(of_nat k :: 32 word) \<noteq> 0xFFFFFFFF" using k n(2) by auto
  let ?b = "kdfa_block P d key label cu cv bits (Suc k)"
  have suc: "(of_nat (Suc k) :: 32 word) = of_nat k + 1" by simp
  have mac: "hmac_parts P alg key
      [to_be_bytes ((of_nat k :: 32 word) + 1), label, [0], cu, cv, to_be_bytes bits] = Ok ?b"
    by (simp add: hmac_parts_eq P d kdfa_block_def add.commute)
  have "kdfa_loop P alg key label cu cv (to_be_bytes bits) len (of_nat k) out =
      kdfa_loop P alg key label cu cv (to_be_bytes bits) len (of_nat (Suc k)) (out @ ?b)"
    using lt nov suc by (subst kdfa_loop.simps) (simp add: mac del: of_nat_Suc)
  also have "\<dots> = Some (Ok ((out @ ?b) @
      concat (map (kdfa_block P d key label cu cv bits) [Suc (Suc k)..<Suc n])))"
    using Suc.prems Suc.hyps(2) k P by (intro Suc.hyps(1)) (auto simp: kdfa_block_def)
  also have "\<dots> = Some (Ok (out @ concat (map (kdfa_block P d key label cu cv bits) [Suc k..<Suc n])))"
    using k by (simp add: upt_conv_Cons del: upt_Suc)
  finally show ?case .
qed

lemma kdfa_eq_spec:
  assumes "purecrypto_ok P" "hash_fn_of alg = Some d"
  shows "kdfa P alg key label cu cv bits = Ok (kdfa_spec P d key label cu cv bits)"
proof -
  let ?len = "(unat bits + 7) div 8"
  have "kdfa_blocks d ?len \<le> ?len + hash_len d - 1"
    by (simp add: kdfa_blocks_def)
  also have "\<dots> < 2 ^ 32 - 1"
    using unsigned_less [of bits, where ?'a = nat] hash_len_bounds(2) [of d] by simp
  finally have "kdfa_loop P alg key label cu cv (to_be_bytes bits) ?len (of_nat 0) [] =
      Some (Ok ([] @ concat (map (kdfa_block P d key label cu cv bits) [Suc 0..<Suc (kdfa_blocks d ?len)])))"
    by (intro kdfa_loop_runs assms refl) simp_all
  then show ?thesis by (simp add: kdfa_def kdfa_spec_def Let_def)
qed

lemma length_mask_leading [simp]: "length (mask_leading bits out) = length out"
  by (simp add: mask_leading_def Let_def)

lemma mask_leading_hd:
  assumes "raw \<noteq> []" "unat bits mod 8 \<noteq> 0"
  shows "unat (hd (mask_leading bits raw)) < 2 ^ (unat bits mod 8)"
proof -
  let ?r = "unat bits mod 8"
  have m: "unat (bits mod 8) = ?r" by (simp add: unat_mod)
  then have nz: "bits mod 8 \<noteq> 0" using assms(2) by (metis unsigned_0)
  have "bits mod 8 \<le> 8" using m by (simp add: word_le_nat_alt)
  then have "unat (8 - bits mod 8) = 8 - ?r" using m by (simp add: unat_sub)
  moreover have "drop_bit (8 - ?r) (0xFF :: byte) = mask ?r"
  proof -
    have ones: "(0xFF :: byte) = - 1" by simp
    have "?r < 8" by simp
    then show ?thesis unfolding ones by (intro bit_eqI) (auto simp: bit_drop_bit_eq bit_mask_iff)
  qed
  ultimately have "hd (mask_leading bits raw) = take_bit ?r (raw ! 0)"
    using assms(1) nz by (cases raw) (simp_all add: mask_leading_def Let_def take_bit_eq_mask)
  then show ?thesis by (simp add: unsigned_take_bit_eq take_bit_nat_less_exp)
qed

lemma length_kdfa_spec:
  assumes "purecrypto_ok P"
  shows "length (kdfa_spec P d key label cu cv bits) = (unat bits + 7) div 8"
proof -
  let ?len = "(unat bits + 7) div 8"
  have "length (concat (map (kdfa_block P d key label cu cv bits) xs)) = length xs * hash_len d" for xs
    using assms by (induction xs) (simp_all add: kdfa_block_def)
  then show ?thesis
    using kdfa_blocks_bounds(1) [of ?len d]
    by (simp add: kdfa_spec_def Let_def min_def del: upt_Suc)
qed

lemma kdfa_unsupported:
  assumes "hash_fn_of alg = None"
  shows "kdfa P alg key label cu cv bits =
    (if bits = 0 then Ok [] else Err (Usage ''unsupported HMAC hash algorithm''))"
proof (cases "bits = 0")
  case True
  then show ?thesis by (simp add: kdfa_def kdfa_loop.simps mask_leading_def)
next
  case False
  then have "0 < unat bits" by (simp add: unat_gt_0)
  then have "0 < (unat bits + 7) div 8" by (simp add: div_greater_zero_iff)
  then have "kdfa_loop P alg key label cu cv b ((unat bits + 7) div 8) 0 [] =
      Some (Err (Usage ''unsupported HMAC hash algorithm''))" for b
    by (subst kdfa_loop.simps) (simp add: unsupported_returns assms)
  with False show ?thesis by (simp add: kdfa_def Let_def)
qed

text \<open>The output in either form: its length, and the bits cleared at its front.\<close>

lemma kdfa_hash:
  assumes "purecrypto_ok P" and "hash_fn_of alg = Some d"
  obtains out where "kdfa P alg key label cu cv bits = Ok out" "length out = (unat bits + 7) div 8"
    "unat bits mod 8 \<noteq> 0 \<Longrightarrow> unat (hd out) < 2 ^ (unat bits mod 8)"
proof -
  let ?out = "kdfa_spec P d key label cu cv bits"
  have len: "length ?out = (unat bits + 7) div 8" by (rule length_kdfa_spec [OF assms(1)])
  obtain raw where raw: "?out = mask_leading bits raw" by (auto simp: kdfa_spec_def Let_def)
  have "unat (hd ?out) < 2 ^ (unat bits mod 8)" if r: "unat bits mod 8 \<noteq> 0"
  proof -
    have "0 < unat bits" using r by (cases "unat bits = 0") auto
    then have "raw \<noteq> []" using len raw by (auto simp: div_eq_0_iff)
    then show ?thesis unfolding raw by (rule mask_leading_hd [OF _ r])
  qed
  then show thesis using that [of ?out] len kdfa_eq_spec [OF assms] by simp
qed

end
