(* ===== verification/Sessions.thy ===== *)
theory Sessions
  imports Crypto Attributes Handles
begin

text \<open>
  Authorization sessions (\<open>src/src/session.rs\<close>): the key derivation at session start, the
  command HMAC, the verification of the response HMAC, and the rolling pair of nonces. A
  session is mutated through \<open>&mut self\<close>, so the operations thread it as their state; the
  life of a session is the step relation \<open>session_step\<close>.
\<close>

section \<open>State and operations\<close>

definition permanent_name :: "Handle \<Rightarrow> bytes" where
  "permanent_name h = to_be_bytes (handle_raw h)"

record Session =
  sess_handle :: Handle
  sess_hash_alg :: Alg
  sess_attributes :: SessionAttributes
  session_key :: bytes
  nonce_tpm :: bytes
  nonce_caller :: bytes
  bound_name :: bytes

record AuthCommand =
  ac_session_handle :: Handle
  ac_nonce_caller :: bytes
  ac_attributes :: SessionAttributes
  ac_hmac :: bytes

record AuthResponse =
  ar_nonce_tpm :: bytes
  ar_attributes :: SessionAttributes
  ar_hmac :: bytes

text \<open>The label \<open>b"ATH"\<close>.\<close>

definition label_ATH :: bytes where
  "label_ATH = [0x41, 0x54, 0x48]"

definition Session_new ::
  "('h, 'm, 'g) purecrypto \<Rightarrow> Handle \<Rightarrow> Alg \<Rightarrow> bytes \<Rightarrow> bytes \<Rightarrow> SessionAttributes \<Rightarrow> bytes \<Rightarrow> bytes \<Rightarrow>
   bytes \<Rightarrow> Session result" where
  "Session_new P h alg nonce_t nonce_c attrs bind_auth bind_name salt =
     bindO (crypto_digest_size alg) (\<lambda>n.
       let bits = (of_nat (n * 8) :: 32 word) in
       bindO (if bind_auth = [] \<and> salt = [] then Ok []
              else kdfa P alg (bind_auth @ salt) label_ATH nonce_t nonce_c bits) (\<lambda>key.
         Ok \<lparr>sess_handle = h, sess_hash_alg = alg, sess_attributes = attrs, session_key = key,
             nonce_tpm = nonce_t, nonce_caller = nonce_c, bound_name = bind_name\<rparr>))"

definition hmac_key :: "Session \<Rightarrow> bytes \<Rightarrow> bytes \<Rightarrow> bytes" where
  "hmac_key s auth_value object_name =
     (let bound = bound_name s \<noteq> [] \<and> bound_name s = object_name in
      session_key s @ (if \<not> bound then auth_value else []))"

definition command_auth ::
  "('h, 'm, 'g) purecrypto \<Rightarrow> bytes \<Rightarrow> bytes \<Rightarrow> bytes \<Rightarrow> bytes \<Rightarrow> (Session, Error, AuthCommand) eff" where
  "command_auth P cp_hash auth_value object_name nonce s =
     (let s = s\<lparr>nonce_caller := nonce\<rparr>;
          key = hmac_key s auth_value object_name
      in bindE (lift_outcome (hmac_parts P (sess_hash_alg s) key
             [cp_hash, nonce_caller s, nonce_tpm s, [sa_bits (sess_attributes s)]]))
           (\<lambda>hmac. ret \<lparr>ac_session_handle = sess_handle s, ac_nonce_caller = nonce_caller s,
                        ac_attributes = sess_attributes s, ac_hmac = hmac\<rparr>) s)"

text \<open>
  The comparison ORs the differences of all byte pairs; unequal lengths fail the debug
  assertion.
\<close>

definition ct_eq :: "('h, 'm, 'g) purecrypto \<Rightarrow> bytes \<Rightarrow> bytes \<Rightarrow> bool result" where
  "ct_eq P a b =
     (if length a \<noteq> length b then Panic
      else let diff = fold (\<lambda>(x, y) d. d OR (x XOR y)) (zip a b) 0
           in Ok (choice_from P (if diff = 0 then 1 else 0)))"

definition hmac_mismatch :: Error where
  "hmac_mismatch = Protocol ''response HMAC verification failed''"

definition verify_response ::
  "('h, 'm, 'g) purecrypto \<Rightarrow> bytes \<Rightarrow> bytes \<Rightarrow> bytes \<Rightarrow> AuthResponse \<Rightarrow> (Session, Error, unit) eff" where
  "verify_response P rp_hash auth_value object_name resp s =
     (let key = hmac_key s auth_value object_name in
      bindE (lift_outcome (hmac_parts P (sess_hash_alg s) key
          [rp_hash, ar_nonce_tpm resp, nonce_caller s, [sa_bits (ar_attributes resp)]]))
        (\<lambda>expected.
          bindE (if length expected \<noteq> length (ar_hmac resp) then ret False
                 else lift_outcome (ct_eq P expected (ar_hmac resp))) (\<lambda>equal.
          if \<not> equal then raise hmac_mismatch
          else (\<lambda>s. (Ok (), s\<lparr>nonce_tpm := ar_nonce_tpm resp\<rparr>)))) s)"

text \<open>\<open>fresh_nonce\<close> reads the session and draws from the operating system's generator.\<close>

definition fresh_nonce :: "('h, 'm, 'g) purecrypto \<Rightarrow> Session \<Rightarrow> ('g, Error, bytes) eff" where
  "fresh_nonce P s = bindE (lift_outcome (crypto_digest_size (sess_hash_alg s)))
     (\<lambda>n g. (case os_fill P g n of (b, g') \<Rightarrow> (Ok b, g')))"

section \<open>Constant-time comparison\<close>

lemma fold_diff_zero:
  "fold (\<lambda>(x, y) d. d OR (x XOR y)) ps d0 = (0 :: byte) \<longleftrightarrow> d0 = 0 \<and> (\<forall>(x, y) \<in> set ps. x = y)"
proof (induction ps arbitrary: d0)
  case (Cons p ps)
  have or0: "a OR b = 0 \<longleftrightarrow> a = 0 \<and> b = 0" for a b :: byte
    by (auto simp: bit_eq_iff bit_or_iff)
  have xor0: "x XOR y = 0 \<longleftrightarrow> x = y" for x y :: byte
    by (auto simp: bit_eq_iff bit_xor_iff)
  show ?case using Cons.IH by (cases p) (auto simp: or0 xor0)
qed simp

lemma ct_eq_correct:
  assumes "purecrypto_ok P" "length a = length b"
  shows "ct_eq P a b = Ok (a = b)"
proof -
  have "(\<forall>(x, y) \<in> set (zip a b). x = y) \<longleftrightarrow> a = b"
    using assms(2) by (induction a b rule: list_induct2) auto
  then show ?thesis
    using assms by (simp add: ct_eq_def fold_diff_zero purecrypto_ok_def Let_def)
qed

section \<open>Session start\<close>

lemma session_bits: "unat (of_nat (hash_len d * 8) :: 32 word) = hash_len d * 8"
  by (cases d) simp_all

lemma mask_leading_aligned: "unat bits mod 8 = 0 \<Longrightarrow> mask_leading bits out = out"
  by (simp add: mask_leading_def Let_def word_unat_eq_iff unat_mod)

lemma Session_new_eq:
  assumes "purecrypto_ok P"
  shows "Session_new P h alg nt nc attrs bind_auth bname salt = (case hash_fn_of alg of
      None \<Rightarrow> Err (Usage ''not a hash algorithm'')
    | Some d \<Rightarrow> Ok \<lparr>sess_handle = h, sess_hash_alg = alg, sess_attributes = attrs,
        session_key = (if bind_auth = [] \<and> salt = [] then []
          else kdfa_spec P d (bind_auth @ salt) label_ATH nt nc (of_nat (hash_len d * 8))),
        nonce_tpm = nt, nonce_caller = nc, bound_name = bname\<rparr>)"
  using assms by (auto simp: Session_new_def crypto_digest_size_eq kdfa_eq_spec Let_def split: option.split)

text \<open>One block suffices for a key of the digest's size: the session key is a single HMAC.\<close>

lemma session_key_single_hmac:
  assumes "purecrypto_ok P"
  shows "kdfa_spec P d k label_ATH nt nc (of_nat (hash_len d * 8)) =
    hmac_of P d k (to_be_bytes (1 :: 32 word) @ label_ATH @ [0] @ nt @ nc @
      to_be_bytes (of_nat (hash_len d * 8) :: 32 word))"
proof -
  let ?h = "hash_len d" and ?bits = "of_nat (hash_len d * 8) :: 32 word"
  have b: "unat ?bits = ?h * 8" by (rule session_bits)
  have h: "0 < ?h" using hash_len_bounds(1) [of d] by simp
  have len: "(unat ?bits + 7) div 8 = ?h" unfolding b by simp
  have "kdfa_blocks d ?h = Suc 0"
    unfolding kdfa_blocks_def using h by (intro div_nat_eqI) simp_all
  then have "kdfa_spec P d k label_ATH nt nc ?bits =
      mask_leading ?bits (take ?h (concat (map (kdfa_block P d k label_ATH nt nc ?bits) [1..<Suc (Suc 0)])))"
    unfolding kdfa_spec_def len Let_def by simp
  also have "\<dots> = kdfa_block P d k label_ATH nt nc ?bits 1"
    by (subst mask_leading_aligned) (simp_all add: b kdfa_block_def assms del: of_nat_mult)
  finally show ?thesis by (simp add: kdfa_block_def)
qed

section \<open>Command and response HMACs\<close>

definition command_mac :: "('h, 'm, 'g) purecrypto \<Rightarrow> hash_fn \<Rightarrow> bytes \<Rightarrow> bytes \<Rightarrow> bytes \<Rightarrow> bytes \<Rightarrow>
    SessionAttributes \<Rightarrow> bytes" where
  "command_mac P d key cp nc nt attrs = hmac_of P d key (cp @ nc @ nt @ [sa_bits attrs])"

definition response_mac :: "('h, 'm, 'g) purecrypto \<Rightarrow> hash_fn \<Rightarrow> bytes \<Rightarrow> bytes \<Rightarrow> bytes \<Rightarrow> bytes \<Rightarrow>
    SessionAttributes \<Rightarrow> bytes" where
  "response_mac P d key rp nt nc attrs = hmac_of P d key (rp @ nt @ nc @ [sa_bits attrs])"

lemma hmac_key_nonce [simp]:
  "hmac_key (s\<lparr>nonce_caller := n\<rparr>) = hmac_key s" "hmac_key (s\<lparr>nonce_tpm := m\<rparr>) = hmac_key s"
  by (intro ext; simp add: hmac_key_def)+

lemma command_auth_eq:
  assumes "purecrypto_ok P"
  shows "command_auth P cp av on nonce s = ((case hash_fn_of (sess_hash_alg s) of
      None \<Rightarrow> Err (Usage ''unsupported HMAC hash algorithm'')
    | Some d \<Rightarrow> Ok \<lparr>ac_session_handle = sess_handle s, ac_nonce_caller = nonce,
        ac_attributes = sess_attributes s,
        ac_hmac = command_mac P d (hmac_key s av on) cp nonce (nonce_tpm s) (sess_attributes s)\<rparr>),
    s\<lparr>nonce_caller := nonce\<rparr>)"
  using assms
  by (simp add: command_auth_def hmac_parts_eq command_mac_def Let_def eff_simps split: option.split)

lemma verify_response_eq:
  assumes "purecrypto_ok P"
  shows "verify_response P rp av on resp s = (case hash_fn_of (sess_hash_alg s) of
      None \<Rightarrow> (Err (Usage ''unsupported HMAC hash algorithm''), s)
    | Some d \<Rightarrow>
        if ar_hmac resp =
          response_mac P d (hmac_key s av on) rp (ar_nonce_tpm resp) (nonce_caller s) (ar_attributes resp)
        then (Ok (), s\<lparr>nonce_tpm := ar_nonce_tpm resp\<rparr>)
        else (Err hmac_mismatch, s))"
proof (cases "hash_fn_of (sess_hash_alg s)")
  case None
  then show ?thesis
    using assms by (simp add: verify_response_def hmac_parts_eq Let_def eff_simps)
next
  case (Some d)
  let ?e = "response_mac P d (hmac_key s av on) rp (ar_nonce_tpm resp) (nonce_caller s) (ar_attributes resp)"
  have e: "hmac_parts P (sess_hash_alg s) (hmac_key s av on)
      [rp, ar_nonce_tpm resp, nonce_caller s, [sa_bits (ar_attributes resp)]] = Ok ?e"
    using assms Some by (simp add: hmac_parts_eq response_mac_def)
  show ?thesis
  proof (cases "length ?e = length (ar_hmac resp)")
    case True
    then show ?thesis
      using assms Some
      by (auto simp: verify_response_def e Let_def eff_simps ct_eq_correct)
  next
    case False
    then have "ar_hmac resp \<noteq> ?e" by auto
    with False show ?thesis
      using Some by (simp add: verify_response_def e Let_def eff_simps)
  qed
qed

lemma verify_response_returns:
  "purecrypto_ok P \<Longrightarrow> returns (fst (verify_response P rp av on resp s))"
  by (simp add: verify_response_eq split: option.split)

lemma verify_response_frame:
  assumes "purecrypto_ok P" "verify_response P rp av on resp s = (x, s')"
  shows "s' = (if x = Ok () then s\<lparr>nonce_tpm := ar_nonce_tpm resp\<rparr> else s)"
  using assms by (auto simp: verify_response_eq split: option.splits if_splits)

text \<open>
  The parts of an authenticated message can be told apart when the hash and the caller's nonce
  have known lengths: \<open>nonceTPM\<close> is what lies between them.
\<close>

lemma mac_input_inject:
  assumes "rp @ nt @ nc @ [a] = rp' @ nt' @ nc' @ [a']" "length rp = length rp'" "length nc = length nc'"
  shows "rp = rp' \<and> nt = nt' \<and> nc = nc' \<and> a = a'"
proof -
  from assms(1,2) have "rp = rp'" and t: "(nt @ nc) @ [a] = (nt' @ nc') @ [a']" by auto
  from t have "nt @ nc = nt' @ nc'" and "a = a'" by (auto dest: append_eq_conv_conj [THEN iffD1])
  with assms(3) \<open>rp = rp'\<close> show ?thesis by auto
qed

section \<open>The life of a session\<close>

datatype session_event = Sent bytes AuthCommand | Accepted AuthResponse | Rejected AuthResponse

text \<open>
  A command is authorized with some \<open>cpHash\<close> (recorded in the event), auth value, object and
  nonce; a response is then verified, and absorbed or refused.
\<close>

inductive session_step ::
  "('h, 'm, 'g) purecrypto \<Rightarrow> Session \<Rightarrow> session_event \<Rightarrow> Session \<Rightarrow> bool" for P where
  send: "command_auth P cp av on nonce s = (Ok ac, s') \<Longrightarrow> session_step P s (Sent cp ac) s'"
| accept: "verify_response P rp av on resp s = (Ok (), s') \<Longrightarrow> session_step P s (Accepted resp) s'"
| reject: "verify_response P rp av on resp s = (Err e, s') \<Longrightarrow> session_step P s (Rejected resp) s'"

inductive_cases sentE: "session_step P s (Sent cp ac) s'"
inductive_cases acceptedE: "session_step P s (Accepted resp) s'"
inductive_cases rejectedE: "session_step P s (Rejected resp) s'"

inductive session_run ::
  "('h, 'm, 'g) purecrypto \<Rightarrow> Session \<Rightarrow> session_event list \<Rightarrow> Session \<Rightarrow> bool" for P where
  run_nil: "session_run P s [] s"
| run_snoc: "session_run P s es s' \<Longrightarrow> session_step P s' e s'' \<Longrightarrow> session_run P s (es @ [e]) s''"

inductive_cases run_snocE: "session_run P s (es @ [e]) s''"

text \<open>The nonces a history leaves behind.\<close>

fun tpm_nonce_after :: "bytes \<Rightarrow> session_event \<Rightarrow> bytes" where
  "tpm_nonce_after n (Accepted resp) = ar_nonce_tpm resp"
| "tpm_nonce_after n _ = n"

fun caller_nonce_after :: "bytes \<Rightarrow> session_event \<Rightarrow> bytes" where
  "caller_nonce_after n (Sent cp ac) = ac_nonce_caller ac"
| "caller_nonce_after n _ = n"

lemma session_step_nonces:
  assumes "purecrypto_ok P" "session_step P s e s'"
  shows "s' = s\<lparr>nonce_tpm := tpm_nonce_after (nonce_tpm s) e,
               nonce_caller := caller_nonce_after (nonce_caller s) e\<rparr>"
  using assms(2)
  by (cases rule: session_step.cases)
    (auto simp: command_auth_eq verify_response_eq assms(1) split: option.splits if_splits)

lemma session_run_nonces:
  assumes "purecrypto_ok P" "session_run P s es s'"
  shows "s' = s\<lparr>nonce_tpm := foldl tpm_nonce_after (nonce_tpm s) es,
               nonce_caller := foldl caller_nonce_after (nonce_caller s) es\<rparr>"
  using assms(2)
proof (induction rule: session_run.induct)
  case (run_snoc s es s' e s'')
  then show ?case using session_step_nonces [OF assms(1) run_snoc.hyps(2)] by simp
qed simp

end
