(* ===== verification/Dispatcher.thy ===== *)
theory Dispatcher
  imports Public_Area Sessions
begin

text \<open>
  The command dispatcher (\<open>src/src/tpm.rs\<close>): building the request frame with its optional
  authorization area, the resubmission loop, and the response parser with the check of the
  session HMAC. \<open>&mut Auth\<close> and \<open>&mut self\<close> are threaded as a pair of the authorization and
  the machine (the \<open>Tpm\<close> with its transport, plus the operating system's generator and clock
  as the code uses them).
\<close>

section \<open>State\<close>

datatype Auth = AuthNone | AuthPassword bytes | AuthSession Session bytes

fun uses_session_area :: "Auth \<Rightarrow> bool" where
  "uses_session_area AuthNone = False"
| "uses_session_area (AuthPassword pw) = True"
| "uses_session_area (AuthSession s av) = True"

record RawResponse =
  rr_handles :: "Handle list"
  rr_params :: bytes

record 't Tpm =
  transport :: 't

definition Tpm_new :: "'t \<Rightarrow> 't Tpm" where
  "Tpm_new t = \<lparr>transport = t\<rparr>"

definition into_transport :: "'t Tpm \<Rightarrow> 't" where
  "into_transport tpm = transport tpm"

text \<open>What the holder of \<open>transport_mut()\<close> does happens to the transport inside.\<close>

definition transport_mut :: "('t, 'e, 'a) eff \<Rightarrow> ('t Tpm, 'e, 'a) eff" where
  "transport_mut f tpm = (case f (transport tpm) of (x, t) \<Rightarrow> (x, tpm\<lparr>transport := t\<rparr>))"

record ('t, 'g) machine = "'t Tpm" +
  os_rng :: 'g
  slept :: "nat list"

text \<open>
  What a build and a run supply: the crypto crate, the \<open>Transport\<close> implementation, and
  whether the feature \<open>std\<close> is on.
\<close>

record ('h, 'm, 'g, 't) ports =
  crypto :: "('h, 'm, 'g) purecrypto"
  transmit :: "bytes \<Rightarrow> ('t, Error, bytes) eff"
  feature_std :: bool

text \<open>Running a computation on one part of the state.\<close>

definition on_transport :: "('t, 'e, 'a) eff \<Rightarrow> ('x \<times> ('t, 'g) machine, 'e, 'a) eff" where
  "on_transport f st = (case st of (x, m) \<Rightarrow>
     (case f (transport m) of (res, t) \<Rightarrow> (res, (x, m\<lparr>transport := t\<rparr>))))"

definition on_rng :: "('g, 'e, 'a) eff \<Rightarrow> ('x \<times> ('t, 'g) machine, 'e, 'a) eff" where
  "on_rng f st = (case st of (x, m) \<Rightarrow>
     (case f (os_rng m) of (res, g) \<Rightarrow> (res, (x, m\<lparr>os_rng := g\<rparr>))))"

definition on_fst :: "('x, 'e, 'a) eff \<Rightarrow> ('x \<times> 'y, 'e, 'a) eff" where
  "on_fst f st = (case st of (x, y) \<Rightarrow> (case f x of (res, x') \<Rightarrow> (res, (x', y))))"

definition on_snd :: "('y, 'e, 'a) eff \<Rightarrow> ('x \<times> 'y, 'e, 'a) eff" where
  "on_snd f st = (case st of (x, y) \<Rightarrow> (case f y of (res, y') \<Rightarrow> (res, (x, y'))))"

text \<open>The session behind a \<open>&mut Session\<close>; the callers match on the authorization first.\<close>

definition on_session :: "(Session, 'e, 'a) eff \<Rightarrow> (Auth, 'e, 'a) eff" where
  "on_session f auth = (case auth of
       AuthSession s av \<Rightarrow> (case f s of (res, s') \<Rightarrow> (res, AuthSession s' av))
     | _ \<Rightarrow> (Panic, auth))"

section \<open>Hashes of a command and its response\<close>

definition cp_hash :: "('h, 'm, 'g) purecrypto \<Rightarrow> Alg \<Rightarrow> 32 word \<Rightarrow> bytes list \<Rightarrow> bytes \<Rightarrow> bytes result" where
  "cp_hash P alg code names params = hash_parts P alg (to_be_bytes code # names @ [params])"

definition rp_hash :: "('h, 'm, 'g) purecrypto \<Rightarrow> Alg \<Rightarrow> 32 word \<Rightarrow> 32 word \<Rightarrow> bytes \<Rightarrow> bytes result" where
  "rp_hash P alg rc code params = hash_parts P alg [to_be_bytes rc, to_be_bytes code, params]"

text \<open>\<open>names.first().copied().unwrap_or(&[])\<close>.\<close>

definition first_name :: "bytes list \<Rightarrow> bytes" where
  "first_name names = (case names of [] \<Rightarrow> [] | n # _ \<Rightarrow> n)"

definition session_nonce :: "('h, 'm, 'g, 't) ports \<Rightarrow> Session \<Rightarrow> ('g, Error, bytes) eff" where
  "session_nonce E s =
     (if feature_std E then fresh_nonce (crypto E) s
      else raise (Usage ''HMAC sessions need a nonceCaller source; enable `std` or supply nonces manually''))"

section \<open>The request\<close>

definition auth_area ::
  "('h, 'm, 'g, 't) ports \<Rightarrow> 32 word \<Rightarrow> bytes list \<Rightarrow> bytes \<Rightarrow> (Auth \<times> ('t, 'g) machine, Error, bytes) eff" where
  "auth_area E code names params st = (case fst st of
       AuthNone \<Rightarrow> (Panic, st)
     | AuthPassword pw \<Rightarrow>
         (let area = marshal_Handle (Handle rh_PW) [];
              area = marshal_tpm2b_ok [] area;
              area = area @ [SA_CONTINUE_SESSION]
          in case marshal_tpm2b pw area of (x, area') \<Rightarrow>
               (bindO (map_err (\<lambda>_. Usage ''auth value too long'') x) (\<lambda>_. Ok area'), st))
     | AuthSession s av \<Rightarrow>
         bindE (lift_outcome (cp_hash (crypto E) (sess_hash_alg s) code names params)) (\<lambda>cp.
         bindE (on_rng (session_nonce E s)) (\<lambda>nonce.
         bindE (on_fst (on_session (command_auth (crypto E) cp av (first_name names) nonce))) (\<lambda>ac.
         ret (let area = marshal_Handle (ac_session_handle ac) [];
                  area = marshal_tpm2b_ok (ac_nonce_caller ac) area;
                  area = area @ [sa_bits (ac_attributes ac)]
              in marshal_tpm2b_ok (ac_hmac ac) area)))) st)"

text \<open>\<open>10u32 + body.len() as u32\<close>: the length wraps in the cast, the sum is checked.\<close>

definition u32_add :: "32 word \<Rightarrow> 32 word \<Rightarrow> 32 word result" where
  "u32_add a b = (if unat a + unat b < 2 ^ 32 then Ok (a + b) else Panic)"

definition build_frame ::
  "('h, 'm, 'g, 't) ports \<Rightarrow> 32 word \<Rightarrow> Handle list \<Rightarrow> bytes list \<Rightarrow> bytes \<Rightarrow>
   (Auth \<times> ('t, 'g) machine, Error, bytes) eff" where
  "build_frame E code handles names params st =
     (let use_sessions = uses_session_area (fst st);
          body = fold marshal_Handle handles []
      in bindE
           (if use_sessions then
              bindE (auth_area E code names params) (\<lambda>area.
                ret (marshal_prim (of_nat (length area) :: 32 word) body @ area))
            else ret body)
           (\<lambda>body.
             let body = body @ params;
                 tag = (if use_sessions then st_SESSIONS else st_NO_SESSIONS)
             in bindE (lift_outcome (u32_add 10 (of_nat (length body)))) (\<lambda>total.
                  ret (marshal_prim code (marshal_prim total (marshal_prim tag [])) @ body))) st)"

section \<open>The response\<close>

definition parse_auth_response :: "AuthResponse parser" where
  "parse_auth_response = bindE read_tpm2b (\<lambda>nonce. bindE read_u8 (\<lambda>a. bindE read_tpm2b (\<lambda>hmac.
     ret \<lparr>ar_nonce_tpm = nonce, ar_attributes = SessionAttributes a, ar_hmac = hmac\<rparr>)))"

definition size_mismatch :: Error where
  "size_mismatch = Protocol ''response size header disagrees with received length''"

text \<open>The \<open>if let Auth::Session\<close> of the parser.\<close>

definition check_response_auth ::
  "('h, 'm, 'g) purecrypto \<Rightarrow> 32 word \<Rightarrow> 32 word \<Rightarrow> bytes list \<Rightarrow> bytes \<Rightarrow> AuthResponse \<Rightarrow>
   (Auth, Error, unit) eff" where
  "check_response_auth P rc code names pbytes ar auth = (case auth of
       AuthSession s av \<Rightarrow>
         bindE (lift_outcome (rp_hash P (sess_hash_alg s) rc code pbytes)) (\<lambda>rp.
           on_session (verify_response P rp av (first_name names) ar)) auth
     | _ \<Rightarrow> (Ok (), auth))"

definition parse_response_with ::
  "('h, 'm, 'g) purecrypto \<Rightarrow> 32 word \<Rightarrow> nat \<Rightarrow> bytes list \<Rightarrow> nat \<Rightarrow>
   (reader \<times> Auth, Error, RawResponse) eff" where
  "parse_response_with P code received names resp_handles =
     bindE (on_fst read_u16) (\<lambda>tag.
     bindE (on_fst read_u32) (\<lambda>size.
     bindE (on_fst read_u32) (\<lambda>rc.
     if rc \<noteq> 0 then raise (error_rc rc)
     else if unat size \<noteq> received then raise size_mismatch
     else bindE (on_fst (read_times resp_handles unmarshal_Handle)) (\<lambda>rhandles.
       bindE (if tag = st_SESSIONS then
                bindE (on_fst read_u32) (\<lambda>param_size.
                bindE (on_fst (take_bytes (unat param_size))) (\<lambda>pbytes.
                bindE (on_fst parse_auth_response) (\<lambda>auth_resp.
                bindE (on_snd (check_response_auth P rc code names pbytes auth_resp)) (\<lambda>_.
                ret pbytes))))
              else on_fst (bindE remaining take_bytes)) (\<lambda>params.
       ret \<lparr>rr_handles = rhandles, rr_params = params\<rparr>)))))"

definition parse_response ::
  "('h, 'm, 'g) purecrypto \<Rightarrow> 32 word \<Rightarrow> bytes \<Rightarrow> bytes list \<Rightarrow> nat \<Rightarrow> (Auth, Error, RawResponse) eff" where
  "parse_response P code resp names resp_handles auth =
     (case parse_response_with P code (length resp) names resp_handles (Reader_new resp, auth) of
        (res, (r, auth')) \<Rightarrow> (res, auth'))"

section \<open>Resubmission\<close>

definition MAX_TRANSIENT_RETRIES :: nat where
  "MAX_TRANSIENT_RETRIES = 12"

definition is_transient :: "TpmRc \<Rightarrow> bool" where
  "is_transient rc \<longleftrightarrow> rc_raw (base rc) \<in> {0x908, 0x90A, 0x922}"

text \<open>Sleeping is recorded in milliseconds; without \<open>std\<close> the backoff does nothing.\<close>

definition backoff :: "('h, 'm, 'g, 't) ports \<Rightarrow> nat \<Rightarrow> ('t, 'g) machine \<Rightarrow> ('t, 'g) machine" where
  "backoff E attempt m = (if feature_std E then m\<lparr>slept := slept m @ [attempt * 5]\<rparr> else m)"

function transmit_loop ::
  "('h, 'm, 'g, 't) ports \<Rightarrow> 32 word \<Rightarrow> bytes list \<Rightarrow> nat \<Rightarrow> bytes \<Rightarrow> nat \<Rightarrow>
   (Auth \<times> ('t, 'g) machine, Error, RawResponse) eff" where
  "transmit_loop E code names resp_handles frame attempt st =
     (case on_transport (transmit E frame) st of
        (Ok resp, st') \<Rightarrow>
          (case on_fst (parse_response (crypto E) code resp names resp_handles) st' of
             (Err (Tpm rc), st'') \<Rightarrow>
               if is_transient rc \<and> attempt < MAX_TRANSIENT_RETRIES
               then transmit_loop E code names resp_handles frame (attempt + 1)
                      (fst st'', backoff E (attempt + 1) (snd st''))
               else (Err (Tpm rc), st'')
           | other \<Rightarrow> other)
      | (Err e, st') \<Rightarrow> (Err e, st')
      | (Panic, st') \<Rightarrow> (Panic, st')
      | (Loop, st') \<Rightarrow> (Loop, st'))"
  by pat_completeness auto
termination
  by (relation "measure (\<lambda>(E, code, names, resp_handles, frame, attempt, st).
        MAX_TRANSIENT_RETRIES - attempt)") auto

declare transmit_loop.simps [simp del]

definition run ::
  "('h, 'm, 'g, 't) ports \<Rightarrow> 32 word \<Rightarrow> Handle list \<Rightarrow> bytes list \<Rightarrow> bytes \<Rightarrow> nat \<Rightarrow>
   (Auth \<times> ('t, 'g) machine, Error, RawResponse) eff" where
  "run E code handles names params resp_handles =
     bindE (build_frame E code handles names params) (\<lambda>frame.
       transmit_loop E code names resp_handles frame 0)"

section \<open>The response parser, split from the check\<close>

text \<open>
  What the bytes of a response say, whatever the authorization: the handles, the parameters
  and, under the session tag, the authorization entry.
\<close>

definition response_parser :: "nat \<Rightarrow> nat \<Rightarrow> (Handle list \<times> bytes \<times> AuthResponse option) parser" where
  "response_parser received resp_handles =
     bindE read_u16 (\<lambda>tag. bindE read_u32 (\<lambda>size. bindE read_u32 (\<lambda>rc.
     if rc \<noteq> 0 then raise (error_rc rc)
     else if unat size \<noteq> received then raise size_mismatch
     else bindE (read_times resp_handles unmarshal_Handle) (\<lambda>hs.
       if tag = st_SESSIONS then
         bindE read_u32 (\<lambda>n. bindE (take_bytes (unat n)) (\<lambda>p. bindE parse_auth_response (\<lambda>ar.
           ret (hs, p, Some ar))))
       else bindE (bindE remaining take_bytes) (\<lambda>p. ret (hs, p, None))))))"

lemma on_fst_bindE: "on_fst (bindE p f) = bindE (on_fst p) (\<lambda>a. on_fst (f a))"
  by (rule ext) (auto simp: on_fst_def bindE_def split: prod.split outcome.split)

lemma on_fst_ret: "on_fst (ret a) = ret a"
  by (rule ext) (auto simp: on_fst_def ret_def)

lemma on_fst_raise: "on_fst (raise e) = raise e"
  by (rule ext) (auto simp: on_fst_def raise_def)

lemma on_fst_if: "on_fst (if b then p else q) = (if b then on_fst p else on_fst q)"
  by simp

lemma bindE_if: "bindE (if b then p else q) f = (if b then bindE p f else bindE q f)"
  by simp

lemmas on_fst_simps = on_fst_bindE on_fst_ret on_fst_raise on_fst_if bindE_if bindE_assoc

definition checked ::
  "('h, 'm, 'g) purecrypto \<Rightarrow> 32 word \<Rightarrow> bytes list \<Rightarrow> Handle list \<times> bytes \<times> AuthResponse option \<Rightarrow>
   (Auth, Error, RawResponse) eff" where
  "checked P code names = (\<lambda>(hs, p, ar).
     bindE (case ar of None \<Rightarrow> ret () | Some a \<Rightarrow> check_response_auth P 0 code names p a)
       (\<lambda>_. ret \<lparr>rr_handles = hs, rr_params = p\<rparr>))"

lemma on_snd_bindE: "on_snd (bindE p f) = bindE (on_snd p) (\<lambda>a. on_snd (f a))"
  by (rule ext) (auto simp: on_snd_def bindE_def split: prod.split outcome.split)

lemma on_snd_ret: "on_snd (ret a) = ret a"
  by (rule ext) (auto simp: on_snd_def ret_def)

lemma parse_response_with_eq:
  "parse_response_with P code received names rh =
     bindE (on_fst (response_parser received rh)) (\<lambda>x. on_snd (checked P code names x))"
  unfolding parse_response_with_def response_parser_def checked_def
  unfolding on_fst_bindE bindE_assoc
  apply (rule bindE_cong, rule bindE_cong, rule bindE_cong)
  subgoal for tag size rc
    by (cases "rc = 0"; cases "unat size = received"; cases "tag = st_SESSIONS")
      (simp_all add: on_fst_simps on_snd_bindE on_snd_ret)
  done

text \<open>The authorization is touched by the check alone, after the bytes are parsed.\<close>

lemma parse_response_eq:
  "parse_response P code resp names rh auth =
     (case fst (response_parser (length resp) rh (Reader_new resp)) of
        Ok x \<Rightarrow> checked P code names x auth
      | Err e \<Rightarrow> (Err e, auth)
      | Panic \<Rightarrow> (Panic, auth)
      | Loop \<Rightarrow> (Loop, auth))"
  by (simp add: parse_response_def parse_response_with_eq bindE_def on_fst_def on_snd_def
      split: prod.split outcome.split)

end
