(* ===== verification/Responses.thy ===== *)
theory Responses
  imports Dispatcher
begin

text \<open>
  What the response parser of \<open>src/src/tpm.rs\<close> does with any bytes: it never panics, it leaves
  the authorization alone unless it accepts, it decodes every well-formed reply, and what it
  accepts under the session tag carries the HMAC the session computes.
\<close>

section \<open>Parsers that cannot panic\<close>

text \<open>
  Like \<open>bounded_parser\<close>, but any error is allowed and nothing is said of the bytes read: the
  parser returns and leaves the reader inside its buffer.
\<close>

definition safe_parser :: "'a parser \<Rightarrow> bool" where
  "safe_parser p \<longleftrightarrow>
     (\<forall>r. reader_wf r \<longrightarrow> returns (fst (p r)) \<and> reader_wf (snd (p r)))"

lemma safe_bounded:
  assumes "bounded_parser p"
  shows "safe_parser p"
  unfolding safe_parser_def
proof (intro allI impI)
  fix r assume "reader_wf r"
  with assms show "returns (fst (p r)) \<and> reader_wf (snd (p r))"
    by (rule bounded_cases) (use \<open>reader_wf r\<close> in simp_all)
qed

lemma safe_ret: "safe_parser (ret a)"
  by (simp add: safe_parser_def eff_simps)

lemma safe_raise: "safe_parser (raise e)"
  by (simp add: safe_parser_def eff_simps)

lemma safe_bindE:
  assumes "safe_parser p" "\<And>a. safe_parser (f a)"
  shows "safe_parser (bindE p f)"
  unfolding safe_parser_def
proof (intro allI impI)
  fix r assume r: "reader_wf r"
  obtain x r' where p: "p r = (x, r')" by (cases "p r")
  then have "returns x" "reader_wf r'" using assms(1) r by (auto simp: safe_parser_def)
  then show "returns (fst (bindE p f r)) \<and> reader_wf (snd (bindE p f r))"
    using assms(2) p by (cases x) (auto simp: bindE_def safe_parser_def)
qed

lemma safe_if: "safe_parser p \<Longrightarrow> safe_parser q \<Longrightarrow> safe_parser (if b then p else q)"
  by simp

lemma rest_eq:
  "reader_wf r \<Longrightarrow>
    bindE remaining take_bytes r = (Ok (unread r), advance (length (unread r)) r)"
  by (simp add: bindE_def remaining_eq take_bytes_eq)

lemma bind_rest:
  "reader_wf r \<Longrightarrow>
    bindE (bindE remaining take_bytes) f r = f (unread r) (advance (length (unread r)) r)"
  by (subst bindE_def) (simp add: rest_eq)

lemma safe_rest: "safe_parser (bindE remaining take_bytes)"
  by (simp add: safe_parser_def rest_eq)

lemma bounded_auth_response [parser_intros]: "bounded_parser parse_auth_response"
  unfolding parse_auth_response_def by (intro parser_intros)

lemma safe_response_parser: "safe_parser (response_parser n k)"
  unfolding response_parser_def
  by (intro safe_bindE safe_if safe_ret safe_raise safe_rest
      safe_bounded [OF bounded_read_prim(2)] safe_bounded [OF bounded_read_prim(3)]
      safe_bounded [OF bounded_take] safe_bounded [OF bounded_auth_response]
      safe_bounded [OF bounded_read_times] codec_Handle.unmarshal_bounded)

lemma response_parser_returns: "returns (fst (response_parser n k (Reader_new resp)))"
  using safe_response_parser by (simp add: safe_parser_def)

section \<open>The check of the authorization\<close>

lemma rp_hash_eq:
  "purecrypto_ok P \<Longrightarrow> rp_hash P alg rc code params = (case hash_fn_of alg of
     Some d \<Rightarrow> Ok (digest_of P d (to_be_bytes rc @ to_be_bytes code @ params))
   | None \<Rightarrow> Err (Usage ''unsupported hash algorithm''))"
  by (simp add: rp_hash_def hash_parts_eq split: option.split)

lemma cp_hash_eq:
  "purecrypto_ok P \<Longrightarrow> cp_hash P alg code names params = (case hash_fn_of alg of
     Some d \<Rightarrow> Ok (digest_of P d (to_be_bytes code @ concat names @ params))
   | None \<Rightarrow> Err (Usage ''unsupported hash algorithm''))"
  by (simp add: cp_hash_def hash_parts_eq split: option.split)

text \<open>The response HMAC the session expects for the parameters of a successful command.\<close>

definition expected_mac ::
  "('h, 'm, 'g) purecrypto \<Rightarrow> hash_fn \<Rightarrow> Session \<Rightarrow> bytes \<Rightarrow> 32 word \<Rightarrow> bytes list \<Rightarrow> bytes \<Rightarrow>
   AuthResponse \<Rightarrow> bytes" where
  "expected_mac P d s av code names params ar =
     response_mac P d (hmac_key s av (first_name names))
       (digest_of P d (to_be_bytes (0 :: 32 word) @ to_be_bytes code @ params))
       (ar_nonce_tpm ar) (nonce_caller s) (ar_attributes ar)"

lemma check_response_auth_eq:
  assumes "purecrypto_ok P"
  shows "check_response_auth P 0 code names p ar auth = (case auth of
      AuthSession s av \<Rightarrow> (case hash_fn_of (sess_hash_alg s) of
          None \<Rightarrow> (Err (Usage ''unsupported hash algorithm''), auth)
        | Some d \<Rightarrow>
            if ar_hmac ar = expected_mac P d s av code names p ar
            then (Ok (), AuthSession (s\<lparr>nonce_tpm := ar_nonce_tpm ar\<rparr>) av)
            else (Err hmac_mismatch, auth))
    | _ \<Rightarrow> (Ok (), auth))"
  using assms
  by (auto simp: check_response_auth_def rp_hash_eq eff_simps on_session_def verify_response_eq
      expected_mac_def split: Auth.split option.split)

lemma checked_eq:
  assumes "purecrypto_ok P"
  shows "checked P code names (hs, p, ar) auth = (case ar of
      None \<Rightarrow> (Ok \<lparr>rr_handles = hs, rr_params = p\<rparr>, auth)
    | Some a \<Rightarrow> (case check_response_auth P 0 code names p a auth of
          (Ok _, auth') \<Rightarrow> (Ok \<lparr>rr_handles = hs, rr_params = p\<rparr>, auth')
        | (Err e, auth') \<Rightarrow> (Err e, auth')
        | (Panic, auth') \<Rightarrow> (Panic, auth')
        | (Loop, auth') \<Rightarrow> (Loop, auth')))"
  by (auto simp: checked_def bindE_def eff_simps split: option.split prod.split outcome.split)

lemma check_returns:
  assumes "purecrypto_ok P"
  shows "check_response_auth P 0 code names p a auth \<noteq> (Panic, auth')"
    and "check_response_auth P 0 code names p a auth \<noteq> (Loop, auth')"
  by (auto simp: check_response_auth_eq assms split: Auth.split option.split)

lemma check_frame:
  "purecrypto_ok P \<Longrightarrow> check_response_auth P 0 code names p a auth = (Err e, auth') \<Longrightarrow> auth' = auth"
  by (auto simp: check_response_auth_eq split: Auth.splits option.splits if_splits)

lemma parse_returns:
  assumes "purecrypto_ok P"
  shows "returns (fst (parse_response P code resp names k auth))"
proof -
  have "returns (fst (checked P code names x auth))" for x
    using check_returns [OF assms]
    by (cases x) (auto simp: checked_eq assms split: option.split prod.split outcome.split)
  then show ?thesis
    using response_parser_returns [of "length resp" k resp]
    by (auto simp: parse_response_eq split: outcome.split)
qed

lemma parse_error_frame:
  assumes "purecrypto_ok P" "parse_response P code resp names k auth = (Err e, auth')"
  shows "auth' = auth"
  using assms(2) check_frame [OF assms(1)]
  by (auto simp: parse_response_eq checked_eq assms(1)
      split: outcome.splits option.splits prod.splits)

section \<open>Well-formed replies\<close>

definition wire_handles :: "Handle list \<Rightarrow> bytes" where
  "wire_handles hs = concat (map (\<lambda>h. to_be_bytes (handle_raw h)) hs)"

definition wire_auth_response :: "AuthResponse \<Rightarrow> bytes" where
  "wire_auth_response ar =
     tpm2b (ar_nonce_tpm ar) @ [sa_bits (ar_attributes ar)] @ tpm2b (ar_hmac ar)"

definition AuthResponse_wf :: "AuthResponse \<Rightarrow> bool" where
  "AuthResponse_wf ar \<longleftrightarrow> fits_tpm2b (ar_nonce_tpm ar) \<and> fits_tpm2b (ar_hmac ar)"

text \<open>The reply of a TPM: header, handles, then parameters with or without the entry.\<close>

definition reply_body :: "Handle list \<Rightarrow> bytes \<Rightarrow> AuthResponse option \<Rightarrow> bytes" where
  "reply_body hs p ar = wire_handles hs @ (case ar of
       None \<Rightarrow> p
     | Some a \<Rightarrow> to_be_bytes (of_nat (length p) :: 32 word) @ p @ wire_auth_response a)"

definition reply_tag :: "AuthResponse option \<Rightarrow> 16 word" where
  "reply_tag ar = (if ar = None then st_NO_SESSIONS else st_SESSIONS)"

definition reply_header :: "16 word \<Rightarrow> nat \<Rightarrow> 32 word \<Rightarrow> bytes" where
  "reply_header tag n rc = to_be_bytes tag @ to_be_bytes (of_nat n :: 32 word) @ to_be_bytes rc"

definition reply :: "Handle list \<Rightarrow> bytes \<Rightarrow> AuthResponse option \<Rightarrow> bytes" where
  "reply hs p ar = reply_header (reply_tag ar) (10 + length (reply_body hs p ar)) 0 @ reply_body hs p ar"

text \<open>The values fit the fields that carry them: every length below its field's bound.\<close>

definition reply_wf :: "Handle list \<Rightarrow> bytes \<Rightarrow> AuthResponse option \<Rightarrow> bool" where
  "reply_wf hs p ar \<longleftrightarrow> length (reply hs p ar) < 2 ^ 32 \<and> (\<forall>a. ar = Some a \<longrightarrow> AuthResponse_wf a)"

lemma length_header [simp]: "length (reply_header tag n rc) = 10"
  by (simp add: reply_header_def)

lemma unat_of_nat_u32: "n < 2 ^ 32 \<Longrightarrow> unat (of_nat n :: 32 word) = n"
  by (simp add: unsigned_of_nat take_bit_nat_eq_self)

lemma reads_auth_response:
  "AuthResponse_wf ar \<Longrightarrow> reads parse_auth_response (wire_auth_response ar) ar"
proof -
  assume "AuthResponse_wf ar"
  then have f: "fits_tpm2b (ar_nonce_tpm ar)" "fits_tpm2b (ar_hmac ar)"
    by (simp_all add: AuthResponse_wf_def)
  have "reads parse_auth_response
      (tpm2b (ar_nonce_tpm ar) @ [sa_bits (ar_attributes ar)] @ tpm2b (ar_hmac ar) @ [])
      \<lparr>ar_nonce_tpm = ar_nonce_tpm ar, ar_attributes = SessionAttributes (sa_bits (ar_attributes ar)),
       ar_hmac = ar_hmac ar\<rparr>"
    unfolding parse_auth_response_def by (rule f reads_rules)+
  then show ?thesis by (cases ar) (simp add: wire_auth_response_def)
qed

lemma handle_bytes: "to_bytes marshal_Handle = (\<lambda>h. to_be_bytes (handle_raw h))"
  by (rule ext) simp

lemma reads_handles: "reads (read_times (length hs) unmarshal_Handle) (wire_handles hs) hs"
  using codec_Handle.reads_list [of hs] by (simp add: wire_handles_def list_all_iff handle_bytes)

text \<open>The header of any reply leads the parser to one of its three continuations.\<close>

definition response_tail :: "nat \<Rightarrow> 16 word \<Rightarrow> (Handle list \<times> bytes \<times> AuthResponse option) parser" where
  "response_tail k tag = bindE (read_times k unmarshal_Handle) (\<lambda>hs.
     if tag = st_SESSIONS then
       bindE read_u32 (\<lambda>n. bindE (take_bytes (unat n)) (\<lambda>p. bindE parse_auth_response (\<lambda>ar.
         ret (hs, p, Some ar))))
     else bindE (bindE remaining take_bytes) (\<lambda>p. ret (hs, p, None)))"

lemma reads_after:
  "reads p bs a \<Longrightarrow> reader_wf r \<Longrightarrow> unread r = bs @ rest \<Longrightarrow> bindE p f r = f a (advance (length bs) r)"
  by (simp add: readsD bindE_def)

lemma response_parser_header:
  fixes tag :: "16 word" and sz rc :: "32 word"
  shows "response_parser m k (Reader_new (to_be_bytes tag @ to_be_bytes sz @ to_be_bytes rc @ bs)) =
     (if rc \<noteq> 0 then raise (error_rc rc)
      else if unat sz \<noteq> m then raise size_mismatch else response_tail k tag)
       (advance 10 (Reader_new (to_be_bytes tag @ to_be_bytes sz @ to_be_bytes rc @ bs)))"
proof -
  let ?r = "Reader_new (to_be_bytes tag @ to_be_bytes sz @ to_be_bytes rc @ bs)"
  have 1: "bindE read_u16 f ?r = f tag (advance 2 ?r)" for f :: "_ \<Rightarrow> (Handle list \<times> bytes \<times> AuthResponse option) parser"
    by (subst reads_after [OF reads_read_prim(3)]) simp_all
  have 2: "bindE read_u32 f (advance 2 ?r) = f sz (advance 6 ?r)" for f :: "_ \<Rightarrow> (Handle list \<times> bytes \<times> AuthResponse option) parser"
    by (subst reads_after [OF reads_read_prim(4)]) simp_all
  have 3: "bindE read_u32 f (advance 6 ?r) = f rc (advance 10 ?r)" for f :: "_ \<Rightarrow> (Handle list \<times> bytes \<times> AuthResponse option) parser"
    by (subst reads_after [OF reads_read_prim(4)]) simp_all
  show ?thesis
    unfolding response_parser_def 1 2 3 by (simp add: response_tail_def)
qed

lemma response_tail_reply:
  assumes "reader_wf r" "unread r = reply_body hs p ar" "reply_wf hs p ar"
  shows "fst (response_tail (length hs) (reply_tag ar) r) = Ok (hs, p, ar)"
proof (cases ar)
  case None
  then have "bindE (read_times (length hs) unmarshal_Handle) f r =
      f hs (advance (length (wire_handles hs)) r)"
    for f :: "_ \<Rightarrow> (Handle list \<times> bytes \<times> AuthResponse option) parser"
    using assms by (intro reads_after [OF reads_handles]) (auto simp: reply_body_def)
  then have "response_tail (length hs) (reply_tag ar) r =
      bindE (bindE remaining take_bytes) (\<lambda>p. ret (hs, p, None)) (advance (length (wire_handles hs)) r)"
    using None by (simp add: response_tail_def reply_tag_def tpm_consts)
  also have "fst \<dots> = Ok (hs, p, None)"
    using None assms by (simp add: bind_rest eff_simps reply_body_def)
  finally show ?thesis by (simp add: None)
next
  case (Some a)
  then have a: "AuthResponse_wf a" and p: "unat (of_nat (length p) :: 32 word) = length p"
    using assms(3) by (auto simp: reply_wf_def reply_def reply_body_def unat_of_nat_u32)
  have "reads (response_tail (length hs) st_SESSIONS)
      (wire_handles hs @ to_be_bytes (of_nat (length p) :: 32 word) @ p @ wire_auth_response a @ [])
      (hs, p, Some a)"
    unfolding response_tail_def
    by (rule reads_bindE, rule reads_handles, subst if_P [OF refl], rule reads_bindE, rule reads_read_prim,
        unfold p) (rule reads_rules reads_auth_response a refl)+
  then show ?thesis
    using Some assms by (simp add: reply_tag_def reply_body_def readsD [where rest = "[]"])
qed

text \<open>Every well-formed reply decodes to what it carries.\<close>

lemma response_parser_reply:
  assumes "reply_wf hs p ar"
  shows "fst (response_parser (length (reply hs p ar)) (length hs) (Reader_new (reply hs p ar))) =
    Ok (hs, p, ar)"
proof -
  let ?b = "reply_body hs p ar"
  have n: "unat (10 + of_nat (length ?b) :: 32 word) = 10 + length ?b"
    using assms unat_of_nat_u32 [of "10 + length ?b"] by (simp add: reply_wf_def reply_def)
  have "fst (response_tail (length hs) (reply_tag ar) (advance 10 (Reader_new (reply hs p ar)))) =
      Ok (hs, p, ar)"
    using assms by (intro response_tail_reply) (auto simp: reply_def)
  then show ?thesis
    by (simp add: reply_def reply_header_def response_parser_header n)
qed

lemma parse_reply:
  assumes "purecrypto_ok P" "reply_wf hs p ar"
  shows "parse_response P code (reply hs p ar) names (length hs) auth =
    checked P code names (hs, p, ar) auth"
  by (simp add: parse_response_eq response_parser_reply [OF assms(2)])

text \<open>An error reply is its code, whatever the tag, the size field and the rest say.\<close>

lemma parse_error_reply:
  assumes "rc \<noteq> 0"
  shows "parse_response P code (to_be_bytes (tag :: 16 word) @ to_be_bytes (sz :: 32 word) @
      to_be_bytes rc @ rest) names k auth = (Err (Tpm (TpmRc rc)), auth)"
  using assms by (simp add: parse_response_eq response_parser_header eff_simps error_rc_def)

section \<open>What an accepted response says\<close>

lemma reads_auth_responseD:
  assumes "reads parse_auth_response bs ar"
  shows "AuthResponse_wf ar \<and> bs = wire_auth_response ar"
proof -
  from assms obtain b1 b2 n where 1: "bs = b1 @ b2" "reads read_tpm2b b1 n" and r:
      "reads (bindE read_u8 (\<lambda>a. bindE read_tpm2b (\<lambda>hmac. ret \<lparr>ar_nonce_tpm = n,
        ar_attributes = SessionAttributes a, ar_hmac = hmac\<rparr>))) b2 ar"
    unfolding parse_auth_response_def by (rule reads_bindE_E) (intro parser_intros)+
  from r obtain b3 b4 a where 2: "b2 = b3 @ b4" "reads read_u8 b3 a" and r2:
      "reads (bindE read_tpm2b (\<lambda>hmac. ret \<lparr>ar_nonce_tpm = n,
        ar_attributes = SessionAttributes a, ar_hmac = hmac\<rparr>)) b4 ar"
    by (rule reads_bindE_E) (intro parser_intros)+
  from r2 obtain b5 b6 h where 3: "b4 = b5 @ b6" "reads read_tpm2b b5 h"
      "reads (ret \<lparr>ar_nonce_tpm = n, ar_attributes = SessionAttributes a, ar_hmac = h\<rparr>) b6 ar"
    by (rule reads_bindE_E) (intro parser_intros)+
  have "b3 = [a]" using codec_u8.reads_canonical [of b3 a] 2(2) by (simp add: read_prim_eq)
  then show ?thesis
    using 1 2(1) 3 reads_tpm2bD [OF 1(2)] reads_tpm2bD [OF 3(2)] reads_retD [OF 3(3)]
    by (simp add: AuthResponse_wf_def wire_auth_response_def)
qed

text \<open>
  The bytes behind a success: nothing but a well-formed reply decodes, except that bytes may
  follow the authorization entry.
\<close>

lemma reads_handlesD:
  "reads (read_times k unmarshal_Handle) bs hs \<Longrightarrow> length hs = k \<and> bs = wire_handles hs"
  using codec_Handle.reads_listD [of k bs hs] by (simp add: wire_handles_def handle_bytes)

lemma response_tailD:
  assumes wf: "reader_wf r" and ok: "fst (response_tail k tag r) = Ok (hs, p, ar)"
  shows "length hs = k \<and> reply_tag ar = (if tag = st_SESSIONS then st_SESSIONS else st_NO_SESSIONS) \<and>
    (\<exists>rest. unread r = reply_body hs p ar @ rest \<and> (ar = None \<longrightarrow> rest = [])) \<and>
    (\<forall>a. ar = Some a \<longrightarrow> AuthResponse_wf a)"
proof -
  obtain st where "response_tail k tag r = (Ok (hs, p, ar), st)"
    using ok by (cases "response_tail k tag r") auto
  then obtain hs' r1 where h: "read_times k unmarshal_Handle r = (Ok hs', r1)" and t:
      "(if tag = st_SESSIONS then
         bindE read_u32 (\<lambda>n. bindE (take_bytes (unat n)) (\<lambda>p. bindE parse_auth_response (\<lambda>ar.
           ret (hs', p, Some ar))))
       else bindE (bindE remaining take_bytes) (\<lambda>p. ret (hs', p, None))) r1 = (Ok (hs, p, ar), st)"
    unfolding response_tail_def by (rule bindE_OkE)
  have bh: "bounded_parser (read_times k unmarshal_Handle)"
    by (intro parser_intros codec_Handle.unmarshal_bounded)
  obtain b1 t1 where 1: "unread r = b1 @ t1" "r1 = advance (length b1) r"
      "reads (read_times k unmarshal_Handle) b1 hs'"
    using bh wf h by (rule bounded_OkE)
  have wf1: "reader_wf r1" and u1: "unread r1 = t1" using 1 wf by simp_all
  note hh = reads_handlesD [OF 1(3)]
  show ?thesis
  proof (cases "tag = st_SESSIONS")
    case False
    then have "hs = hs'" "p = t1" "ar = None"
      using t u1 by (simp_all add: bind_rest [OF wf1] eff_simps)
    moreover from this have "unread r = reply_body hs p ar @ []"
      using 1(1) hh by (simp add: reply_body_def)
    ultimately show ?thesis using hh False by (auto simp add: reply_tag_def)
  next
    case True
    with t have "bindE read_u32 (\<lambda>n. bindE (take_bytes (unat n)) (\<lambda>p. bindE parse_auth_response
        (\<lambda>ar. ret (hs', p, Some ar)))) r1 = (Ok (hs, p, ar), st)" by simp
    note parsed = this
    have b: "bounded_parser (bindE read_u32 (\<lambda>n. bindE (take_bytes (unat n)) (\<lambda>p.
        bindE parse_auth_response (\<lambda>ar. ret (hs', p, Some ar)))))" by (intro parser_intros)
    obtain b2 t2 where 2: "unread r1 = b2 @ t2" and r:
        "reads (bindE read_u32 (\<lambda>n. bindE (take_bytes (unat n)) (\<lambda>p. bindE parse_auth_response
          (\<lambda>ar. ret (hs', p, Some ar))))) b2 (hs, p, ar)"
      using b wf1 parsed by (rule bounded_OkE)
    from r obtain b3 b4 n where 3: "b2 = b3 @ b4" "reads read_u32 b3 n" and r2:
        "reads (bindE (take_bytes (unat n)) (\<lambda>p. bindE parse_auth_response
          (\<lambda>ar. ret (hs', p, Some ar)))) b4 (hs, p, ar)"
      by (rule reads_bindE_E) (intro parser_intros)+
    from r2 obtain b5 b6 q where 4: "b4 = b5 @ b6" "reads (take_bytes (unat n)) b5 q" and r3:
        "reads (bindE parse_auth_response (\<lambda>ar. ret (hs', q, Some ar))) b6 (hs, p, ar)"
      by (rule reads_bindE_E) (intro parser_intros)+
    from r3 obtain b7 b8 a where 5: "b6 = b7 @ b8" "reads parse_auth_response b7 a"
        "reads (ret (hs', q, Some a)) b8 (hs, p, ar)"
      by (rule reads_bindE_E) (intro parser_intros)+
    have e: "hs = hs'" "p = q" "ar = Some a" "b8 = []" using reads_retD [OF 5(3)] by auto
    have "b3 = to_be_bytes n" using codec_u32.reads_canonical [of b3 n] 3(2) by (simp add: read_prim_eq)
    moreover have "b5 = p" "(of_nat (length p) :: 32 word) = n" using reads_takeD [OF 4(2)] e by auto
    moreover note reads_auth_responseD [OF 5(2)]
    ultimately show ?thesis
      using 1 2 3(1) 4(1) 5(1) u1 hh e True by (simp add: reply_body_def reply_tag_def)
  qed
qed

lemma unmarshal_prim_run:
  "reader_wf r \<Longrightarrow> (unmarshal_prim :: 'w::len word parser) r =
    (if LENGTH('w) div 8 \<le> length (unread r)
     then (Ok (from_be_bytes (take (LENGTH('w) div 8) (unread r))), advance (LENGTH('w) div 8) r)
     else (Err short_read, r))"
  by (simp add: unmarshal_prim_eq bindE_def take_bytes_eq eff_simps)

lemma response_parser_short:
  assumes "length resp < 10"
  shows "fst (response_parser m k (Reader_new resp)) = Err short_read"
proof (cases "length resp < 2")
  case True
  then show ?thesis
    by (simp add: response_parser_def read_prim_eq bindE_def unmarshal_prim_run)
next
  case False
  then show ?thesis
    using assms
    by (cases "length resp < 6")
      (simp_all add: response_parser_def read_prim_eq bindE_def unmarshal_prim_run)
qed

lemma header_split:
  fixes resp :: bytes
  assumes "10 \<le> length resp"
  obtains tag :: "16 word" and sz rc :: "32 word" and rest where
    "resp = to_be_bytes tag @ to_be_bytes sz @ to_be_bytes rc @ rest"
proof -
  have "drop 2 resp = take 4 (drop 2 resp) @ drop 6 resp" "drop 6 resp = take 4 (drop 6 resp) @ drop 10 resp"
    using append_take_drop_id [of 4 "drop 2 resp"] append_take_drop_id [of 4 "drop 6 resp"] by simp_all
  then have "resp = take 2 resp @ take 4 (drop 2 resp) @ take 4 (drop 6 resp) @ drop 10 resp"
    by (metis append_take_drop_id)
  then have "resp = to_be_bytes (from_be_bytes (take 2 resp) :: 16 word) @
      to_be_bytes (from_be_bytes (take 4 (drop 2 resp)) :: 32 word) @
      to_be_bytes (from_be_bytes (take 4 (drop 6 resp)) :: 32 word) @ drop 10 resp"
    using assms by (simp add: to_from_be_bytes)
  then show thesis by (rule that)
qed

lemma tags_differ: "st_NO_SESSIONS \<noteq> st_SESSIONS" "st_SESSIONS \<noteq> st_NO_SESSIONS"
  by (simp_all add: st_NO_SESSIONS_def st_SESSIONS_def)

text \<open>A success determines the reply it came from, and what the check found.\<close>

lemma parse_Ok_parsed:
  assumes P: "purecrypto_ok P" and ok: "parse_response P code resp names k auth = (Ok rr, auth')"
  obtains tag ar rest where
    "resp = to_be_bytes tag @ to_be_bytes (of_nat (length resp) :: 32 word) @
       to_be_bytes (0 :: 32 word) @ reply_body (rr_handles rr) (rr_params rr) ar @ rest"
    "tag = st_SESSIONS \<longleftrightarrow> ar \<noteq> None" "ar = None \<longrightarrow> rest = []" "length (rr_handles rr) = k"
    "length resp < 2 ^ 32"
    "case ar of None \<Rightarrow> auth' = auth
     | Some a \<Rightarrow> AuthResponse_wf a \<and>
         check_response_auth P 0 code names (rr_params rr) a auth = (Ok (), auth')"
    "fst (response_parser (length resp) k (Reader_new resp)) = Ok (rr_handles rr, rr_params rr, ar)"
proof -
  obtain hs p ar where x: "fst (response_parser (length resp) k (Reader_new resp)) = Ok (hs, p, ar)"
    and c: "checked P code names (hs, p, ar) auth = (Ok rr, auth')"
    using ok by (auto simp: parse_response_eq split: outcome.splits)
  have "10 \<le> length resp"
    using x response_parser_short [of resp "length resp" k] by (cases "length resp < 10") auto
  then obtain tag :: "16 word" and sz rc :: "32 word" and rest where
    r: "resp = to_be_bytes tag @ to_be_bytes sz @ to_be_bytes rc @ rest" by (rule header_split)
  let ?r = "advance 10 (Reader_new resp)"
  have "fst ((if rc \<noteq> 0 then raise (error_rc rc) else if unat sz \<noteq> length resp then raise size_mismatch
      else response_tail k tag) ?r) = Ok (hs, p, ar)"
    using x response_parser_header [of "length resp" k tag sz rc rest] by (simp add: r)
  then have rc: "rc = 0" and sz: "unat sz = length resp" and t: "fst (response_tail k tag ?r) = Ok (hs, p, ar)"
    by (auto simp: eff_simps split: if_splits)
  have sz': "(of_nat (length resp) :: 32 word) = sz" by (simp flip: sz)
  have wf: "reader_wf ?r" and u: "unread ?r = rest" by (simp_all add: r)
  from response_tailD [OF wf t] u obtain extra where
    len: "length hs = k" and tag: "reply_tag ar = (if tag = st_SESSIONS then st_SESSIONS else st_NO_SESSIONS)" and
    body: "rest = reply_body hs p ar @ extra" "ar = None \<longrightarrow> extra = []" and
    ar: "\<forall>a. ar = Some a \<longrightarrow> AuthResponse_wf a"
    by blast
  have rr: "rr = \<lparr>rr_handles = hs, rr_params = p\<rparr>" and
    chk: "case ar of None \<Rightarrow> auth' = auth
     | Some a \<Rightarrow> AuthResponse_wf a \<and> check_response_auth P 0 code names p a auth = (Ok (), auth')"
    using c ar by (auto simp: checked_eq P split: option.splits prod.splits outcome.splits)
  have "resp = to_be_bytes tag @ to_be_bytes (of_nat (length resp) :: 32 word) @
      to_be_bytes (0 :: 32 word) @ reply_body hs p ar @ extra"
    unfolding sz' using r rc body(1) by simp
  moreover have "tag = st_SESSIONS \<longleftrightarrow> ar \<noteq> None"
    using tag by (cases "tag = st_SESSIONS"; cases ar) (simp_all add: reply_tag_def tags_differ)
  moreover have "length resp < 2 ^ 32"
    using unsigned_less [of sz, where ?'a = nat] sz by simp
  ultimately show thesis
    using body(2) len chk x by (intro that [of tag ar extra]) (cases ar; simp add: rr)+
qed

lemma parse_Ok:
  assumes P: "purecrypto_ok P" and ok: "parse_response P code resp names k auth = (Ok rr, auth')"
  obtains tag ar rest where
    "resp = to_be_bytes tag @ to_be_bytes (of_nat (length resp) :: 32 word) @
       to_be_bytes (0 :: 32 word) @ reply_body (rr_handles rr) (rr_params rr) ar @ rest"
    "tag = st_SESSIONS \<longleftrightarrow> ar \<noteq> None" "ar = None \<longrightarrow> rest = []" "length (rr_handles rr) = k"
    "length resp < 2 ^ 32"
    "case ar of None \<Rightarrow> auth' = auth
     | Some a \<Rightarrow> AuthResponse_wf a \<and>
         check_response_auth P 0 code names (rr_params rr) a auth = (Ok (), auth')"
  by (rule parse_Ok_parsed [OF P ok]) (rule that)

text \<open>
  Under a session: an accepted response with the session tag carries the HMAC the session
  computes over it, and the session has taken over its nonce.
\<close>

lemma parse_Ok_session:
  assumes P: "purecrypto_ok P"
    and ok: "parse_response P code resp names k (AuthSession s av) = (Ok rr, auth')"
    and tag: "take 2 resp = to_be_bytes st_SESSIONS"
  obtains d ar where "hash_fn_of (sess_hash_alg s) = Some d"
    "ar_hmac ar = expected_mac P d s av code names (rr_params rr) ar"
    "auth' = AuthSession (s\<lparr>nonce_tpm := ar_nonce_tpm ar\<rparr>) av"
    "\<exists>pre rest. resp = pre @ to_be_bytes (of_nat (length (rr_params rr)) :: 32 word) @ rr_params rr @
       wire_auth_response ar @ rest"
proof -
  obtain tg ar rest where
    r: "resp = to_be_bytes tg @ to_be_bytes (of_nat (length resp) :: 32 word) @
       to_be_bytes (0 :: 32 word) @ reply_body (rr_handles rr) (rr_params rr) ar @ rest"
    and t: "tg = st_SESSIONS \<longleftrightarrow> ar \<noteq> None"
    and "ar = None \<longrightarrow> rest = []" "length (rr_handles rr) = k" "length resp < 2 ^ 32"
    and c: "case ar of None \<Rightarrow> auth' = AuthSession s av
     | Some a \<Rightarrow> AuthResponse_wf a \<and>
         check_response_auth P 0 code names (rr_params rr) a (AuthSession s av) = (Ok (), auth')"
    by (rule parse_Ok [OF P ok])
  have "take 2 resp = to_be_bytes tg" by (subst r) simp
  with tag have "tg = st_SESSIONS" by simp
  with t obtain a where a: "ar = Some a" by auto
  with c obtain d where "hash_fn_of (sess_hash_alg s) = Some d"
    "ar_hmac a = expected_mac P d s av code names (rr_params rr) a"
    "auth' = AuthSession (s\<lparr>nonce_tpm := ar_nonce_tpm a\<rparr>) av"
    by (auto simp: check_response_auth_eq P split: option.splits if_splits)
  moreover have "\<exists>pre. resp = pre @ to_be_bytes (of_nat (length (rr_params rr)) :: 32 word) @ rr_params rr @
      wire_auth_response a @ rest"
    by (rule exI [of _ "to_be_bytes tg @ to_be_bytes (of_nat (length resp) :: 32 word) @
      to_be_bytes (0 :: 32 word) @ wire_handles (rr_handles rr)"], subst r) (simp add: reply_body_def a)
  ultimately show thesis using that by blast
qed

text \<open>Any other tag: nothing is checked and the authorization stays as it was.\<close>

lemma parse_Ok_plain:
  assumes P: "purecrypto_ok P" and ok: "parse_response P code resp names k auth = (Ok rr, auth')"
    and tag: "take 2 resp \<noteq> to_be_bytes st_SESSIONS"
  shows "auth' = auth"
proof -
  obtain tg ar rest where
    r: "resp = to_be_bytes tg @ to_be_bytes (of_nat (length resp) :: 32 word) @
       to_be_bytes (0 :: 32 word) @ reply_body (rr_handles rr) (rr_params rr) ar @ rest"
    and t: "tg = st_SESSIONS \<longleftrightarrow> ar \<noteq> None"
    and "ar = None \<longrightarrow> rest = []" "length (rr_handles rr) = k" "length resp < 2 ^ 32"
    and c: "case ar of None \<Rightarrow> auth' = auth
     | Some a \<Rightarrow> AuthResponse_wf a \<and>
         check_response_auth P 0 code names (rr_params rr) a auth = (Ok (), auth')"
    by (rule parse_Ok [OF P ok])
  have "take 2 resp = to_be_bytes tg" by (subst r) simp
  then show ?thesis using tag t c by (cases ar) auto
qed

text \<open>
  A session-tagged response that was accepted once decodes the same for any other command with as
  many handles; its HMAC, right for the first, decides there.
\<close>

lemma parse_session_again:
  assumes P: "purecrypto_ok P"
    and ok: "parse_response P code resp names k (AuthSession s av) = (Ok rr, auth')"
    and tag: "take 2 resp = to_be_bytes st_SESSIONS" and d: "hash_fn_of (sess_hash_alg s) = Some d"
  obtains ar where "ar_hmac ar = expected_mac P d s av code names (rr_params rr) ar"
    "auth' = AuthSession (s\<lparr>nonce_tpm := ar_nonce_tpm ar\<rparr>) av"
    "\<And>code names auth. parse_response P code resp names k auth =
       checked P code names (rr_handles rr, rr_params rr, Some ar) auth"
proof -
  obtain tg ar rest where
    r: "resp = to_be_bytes tg @ to_be_bytes (of_nat (length resp) :: 32 word) @
       to_be_bytes (0 :: 32 word) @ reply_body (rr_handles rr) (rr_params rr) ar @ rest"
    and t: "tg = st_SESSIONS \<longleftrightarrow> ar \<noteq> None"
    and "ar = None \<longrightarrow> rest = []" "length (rr_handles rr) = k" "length resp < 2 ^ 32"
    and c: "case ar of None \<Rightarrow> auth' = AuthSession s av
     | Some a \<Rightarrow> AuthResponse_wf a \<and>
         check_response_auth P 0 code names (rr_params rr) a (AuthSession s av) = (Ok (), auth')"
    and x: "fst (response_parser (length resp) k (Reader_new resp)) = Ok (rr_handles rr, rr_params rr, ar)"
    by (rule parse_Ok_parsed [OF P ok])
  have "take 2 resp = to_be_bytes tg" by (subst r) simp
  with tag t obtain a where a: "ar = Some a" by auto
  then have "check_response_auth P 0 code names (rr_params rr) a (AuthSession s av) = (Ok (), auth')"
    using c by simp
  then show thesis
    using that [of a] x a by (auto simp: parse_response_eq check_response_auth_eq [OF P] d split: if_split_asm)
qed

text \<open>
  Played back in answer to another command, or to the same one under another nonce, such a response
  is rejected, unless the digests or the HMACs of the two different inputs collide.
\<close>

lemma replay_rejected:
  assumes P: "purecrypto_ok P"
    and ok: "parse_response P code resp names k (AuthSession s av) = (Ok rr, AuthSession s1 av1)"
    and tag: "take 2 resp = to_be_bytes st_SESSIONS"
    and d: "hash_fn_of (sess_hash_alg s) = Some d" "hash_fn_of (sess_hash_alg s') = Some d"
    and key: "hmac_key s' av' (first_name names') = hmac_key s av (first_name names)"
    and len: "length (nonce_caller s') = length (nonce_caller s)"
    and other: "code' \<noteq> code \<or> nonce_caller s' \<noteq> nonce_caller s"
    and D: "inj_on (digest_of P d) ((\<lambda>c. to_be_bytes (0 :: 32 word) @ to_be_bytes c @ rr_params rr) ` {code, code'})"
    and H: "\<forall>b. inj_on (hmac_of P d (hmac_key s av (first_name names)))
      {digest_of P d (to_be_bytes (0 :: 32 word) @ to_be_bytes code @ rr_params rr) @ nonce_tpm s1 @ nonce_caller s @ [b],
       digest_of P d (to_be_bytes (0 :: 32 word) @ to_be_bytes code' @ rr_params rr) @ nonce_tpm s1 @ nonce_caller s' @ [b]}"
  shows "parse_response P code' resp names' k (AuthSession s' av') = (Err hmac_mismatch, AuthSession s' av')"
proof -
  obtain ar where mac: "ar_hmac ar = expected_mac P d s av code names (rr_params rr) ar"
    and s1: "nonce_tpm s1 = ar_nonce_tpm ar"
    and again: "parse_response P code' resp names' k (AuthSession s' av') =
      checked P code' names' (rr_handles rr, rr_params rr, Some ar) (AuthSession s' av')"
    by (rule parse_session_again [OF P ok tag d(1)]) auto
  let ?m = "\<lambda>c n. digest_of P d (to_be_bytes (0 :: 32 word) @ to_be_bytes c @ rr_params rr) @ nonce_tpm s1 @ n @
    [sa_bits (ar_attributes ar)]"
  have "ar_hmac ar \<noteq> expected_mac P d s' av' code' names' (rr_params rr) ar"
  proof
    assume "ar_hmac ar = expected_mac P d s' av' code' names' (rr_params rr) ar"
    then have "hmac_of P d (hmac_key s av (first_name names)) (?m code (nonce_caller s)) =
        hmac_of P d (hmac_key s av (first_name names)) (?m code' (nonce_caller s'))"
      using mac by (simp add: expected_mac_def response_mac_def key s1)
    then have "?m code (nonce_caller s) = ?m code' (nonce_caller s')"
      by (rule inj_onD [OF H [rule_format, of "sa_bits (ar_attributes ar)"]]) simp_all
    from mac_input_inject [OF this]
    have "digest_of P d (to_be_bytes (0 :: 32 word) @ to_be_bytes code @ rr_params rr) =
        digest_of P d (to_be_bytes (0 :: 32 word) @ to_be_bytes code' @ rr_params rr)"
      and n: "nonce_caller s = nonce_caller s'" using len P by simp_all
    from inj_onD [OF D this(1)] have "to_be_bytes code = (to_be_bytes code' :: bytes)" by simp
    then have "from_be_bytes (to_be_bytes code) = (from_be_bytes (to_be_bytes code') :: 32 word)" by (rule arg_cong)
    then have "code = code'" by simp
    then show False using n other by simp
  qed
  then show ?thesis
    by (simp add: again checked_eq [OF P] check_response_auth_eq [OF P] d)
qed

end
