(* ===== verification/Requests.thy ===== *)
theory Requests
  imports Responses
begin

text \<open>
  What \<open>Tpm::run\<close> of \<open>src/src/tpm.rs\<close> puts on the wire: the closed form of the frame for each
  kind of authorization, and a reference decoder of TPM commands that reads it back.
\<close>

section \<open>The frame in closed form\<close>

definition wire_auth_command :: "AuthCommand \<Rightarrow> bytes" where
  "wire_auth_command ac = to_be_bytes (handle_raw (ac_session_handle ac)) @
     tpm2b (ac_nonce_caller ac) @ [sa_bits (ac_attributes ac)] @ tpm2b (ac_hmac ac)"

definition AuthCommand_wf :: "AuthCommand \<Rightarrow> bool" where
  "AuthCommand_wf ac \<longleftrightarrow> fits_tpm2b (ac_nonce_caller ac) \<and> fits_tpm2b (ac_hmac ac)"

definition request_body :: "Handle list \<Rightarrow> AuthCommand option \<Rightarrow> bytes \<Rightarrow> bytes" where
  "request_body hs ac params = wire_handles hs @ (case ac of
       None \<Rightarrow> []
     | Some a \<Rightarrow> to_be_bytes (of_nat (length (wire_auth_command a)) :: 32 word) @ wire_auth_command a) @
     params"

definition request :: "32 word \<Rightarrow> Handle list \<Rightarrow> AuthCommand option \<Rightarrow> bytes \<Rightarrow> bytes" where
  "request code hs ac params =
     to_be_bytes (if ac = None then st_NO_SESSIONS else st_SESSIONS) @
     to_be_bytes (of_nat (10 + length (request_body hs ac params)) :: 32 word) @
     to_be_bytes code @ request_body hs ac params"

text \<open>The password entry: the reserved handle, no nonce, \<open>continueSession\<close>, the value in clear.\<close>

definition password_entry :: "bytes \<Rightarrow> AuthCommand" where
  "password_entry pw = \<lparr>ac_session_handle = Handle rh_PW, ac_nonce_caller = [],
     ac_attributes = sa_continue_session, ac_hmac = pw\<rparr>"

text \<open>The entry of an HMAC session for a command, over a fresh nonce of the caller.\<close>

definition session_entry ::
  "('h, 'm, 'g) purecrypto \<Rightarrow> hash_fn \<Rightarrow> Session \<Rightarrow> bytes \<Rightarrow> 32 word \<Rightarrow> bytes list \<Rightarrow> bytes \<Rightarrow> bytes \<Rightarrow>
   AuthCommand" where
  "session_entry P d s av code names params nonce =
     \<lparr>ac_session_handle = sess_handle s, ac_nonce_caller = nonce, ac_attributes = sess_attributes s,
      ac_hmac = command_mac P d (hmac_key s av (first_name names))
        (digest_of P d (to_be_bytes code @ concat names @ params)) nonce (nonce_tpm s)
        (sess_attributes s)\<rparr>"

lemma fold_marshal_Handle: "fold marshal_Handle hs out = out @ wire_handles hs"
  by (simp add: codec_Handle.fold_marshal wire_handles_def handle_bytes)

lemma marshal_Handle_eq: "marshal_Handle h out = out @ to_be_bytes (handle_raw h)"
  by (simp add: marshal_Handle_def marshal_prim_def)

lemma wire_password_entry:
  "wire_auth_command (password_entry pw) =
     to_be_bytes rh_PW @ tpm2b [] @ [SA_CONTINUE_SESSION] @ tpm2b pw"
  by (simp add: wire_auth_command_def password_entry_def sa_continue_session_def)

lemma auth_area_password:
  "auth_area E code names params (AuthPassword pw, m) =
     (if fits_tpm2b pw then (Ok (wire_auth_command (password_entry pw)), (AuthPassword pw, m))
      else (Err (Usage ''auth value too long''), (AuthPassword pw, m)))"
  by (simp add: auth_area_def marshal_Handle_eq marshal_tpm2b_ok_eq marshal_tpm2b_eq
      wire_password_entry fits_tpm2b_def [of "[]"])

lemma crypto_digest_size_session:
  "hash_fn_of alg = Some d \<Longrightarrow> crypto_digest_size alg = Ok (hash_len d)"
  by (simp add: crypto_digest_size_eq)

lemma fresh_nonce_eq:
  "fresh_nonce P s g = (case hash_fn_of (sess_hash_alg s) of
      None \<Rightarrow> (Err (Usage ''not a hash algorithm''), g)
    | Some d \<Rightarrow> (Ok (fst (os_fill P g (hash_len d))), snd (os_fill P g (hash_len d))))"
  by (simp add: fresh_nonce_def crypto_digest_size_eq eff_simps split: option.split prod.split)

lemma hash_len_fits: "fits_tpm2b b" if "length b = hash_len d"
  using that hash_len_bounds(2) [of d] by (simp add: fits_tpm2b_def)

lemma session_entry_wf:
  "purecrypto_ok P \<Longrightarrow> length nonce = hash_len d \<Longrightarrow>
    AuthCommand_wf (session_entry P d s av code names params nonce)"
  by (auto simp: AuthCommand_wf_def session_entry_def command_mac_def intro: hash_len_fits)

lemma wire_of_entry:
  assumes "AuthCommand_wf ac"
  shows "marshal_tpm2b_ok (ac_hmac ac) (marshal_tpm2b_ok (ac_nonce_caller ac)
      (marshal_Handle (ac_session_handle ac) []) @ [sa_bits (ac_attributes ac)]) = wire_auth_command ac"
  using assms
  by (simp add: AuthCommand_wf_def marshal_tpm2b_ok_eq marshal_Handle_eq wire_auth_command_def)

text \<open>
  The area of a session: the algorithm must be supported and the feature \<open>std\<close> on; then the
  generator is drawn once and the session keeps the nonce it sent.
\<close>

lemma auth_area_session:
  assumes P: "purecrypto_ok (crypto E)" and d: "hash_fn_of (sess_hash_alg s) = Some d"
    and std: "feature_std E" and f: "os_fill (crypto E) (os_rng m) (hash_len d) = (nonce, g)"
  shows "auth_area E code names params (AuthSession s av, m) =
    (Ok (wire_auth_command (session_entry (crypto E) d s av code names params nonce)),
     (AuthSession (s\<lparr>nonce_caller := nonce\<rparr>) av, m\<lparr>os_rng := g\<rparr>))"
proof -
  have "length (fst (os_fill (crypto E) (os_rng m) (hash_len d))) = hash_len d"
    using P unfolding purecrypto_ok_def by blast
  then have n: "length nonce = hash_len d" by (simp add: f)
  note wf = session_entry_wf [OF P n, of s av code names params]
  let ?ac = "session_entry (crypto E) d s av code names params nonce"
  have cp: "cp_hash (crypto E) (sess_hash_alg s) code names params =
      Ok (digest_of (crypto E) d (to_be_bytes code @ concat names @ params))"
    by (simp add: cp_hash_eq [OF P] d)
  have nn: "on_rng (session_nonce E s) (AuthSession s av, m) =
      (Ok nonce, (AuthSession s av, m\<lparr>os_rng := g\<rparr>))"
    by (simp add: on_rng_def session_nonce_def std fresh_nonce_eq d f)
  have ca: "on_fst (on_session (command_auth (crypto E)
        (digest_of (crypto E) d (to_be_bytes code @ concat names @ params)) av (first_name names) nonce))
        (AuthSession s av, m\<lparr>os_rng := g\<rparr>) =
      (Ok ?ac, (AuthSession (s\<lparr>nonce_caller := nonce\<rparr>) av, m\<lparr>os_rng := g\<rparr>))"
    by (simp add: on_fst_def on_session_def command_auth_eq [OF P] d session_entry_def)
  show ?thesis
    unfolding wire_of_entry [OF wf, symmetric]
    by (simp add: auth_area_def cp bindE_lift_Ok bindE_cases(1) [where m = "on_rng (session_nonce E s)", OF nn]
        bindE_cases(1) [where m = "on_fst (on_session (command_auth (crypto E)
        (digest_of (crypto E) d (to_be_bytes code @ concat names @ params)) av (first_name names) nonce))", OF ca] eff_simps Let_def)
qed

lemma auth_area_session_errors:
  assumes P: "purecrypto_ok (crypto E)"
  shows "hash_fn_of (sess_hash_alg s) = None \<Longrightarrow>
      auth_area E code names params (AuthSession s av, m) =
        (Err (Usage ''unsupported hash algorithm''), (AuthSession s av, m))"
    and "hash_fn_of (sess_hash_alg s) = Some d \<Longrightarrow> \<not> feature_std E \<Longrightarrow>
      auth_area E code names params (AuthSession s av, m) =
        (Err (Usage ''HMAC sessions need a nonceCaller source; enable `std` or supply nonces manually''),
         (AuthSession s av, m))"
  by (simp_all add: auth_area_def cp_hash_eq [OF P] eff_simps bindE_lift_Ok on_rng_def session_nonce_def
      bindE_def)

lemma length_request: "length (request code hs ac params) = 10 + length (request_body hs ac params)"
  by (simp add: request_def)

text \<open>
  The size field: the length of the body wraps in the cast, the sum with the ten bytes of the header
  is checked. So the frame is built as \<open>request\<close> has it, with the size modulo \<open>2 ^ 32\<close>, unless the
  wrapped length is within ten of the end.
\<close>

definition framed :: "32 word \<Rightarrow> Handle list \<Rightarrow> AuthCommand option \<Rightarrow> bytes \<Rightarrow> bytes result" where
  "framed code hs ac params = (if 10 + length (request_body hs ac params) mod 2 ^ 32 < 2 ^ 32
     then Ok (request code hs ac params) else Panic)"

lemma framed_small: "length (request code hs ac params) < 2 ^ 32 \<Longrightarrow> framed code hs ac params = Ok (request code hs ac params)"
  by (simp add: framed_def length_request)

lemma u32_add_length:
  "u32_add 10 (of_nat n) = (if 10 + n mod 2 ^ 32 < 2 ^ 32 then Ok (of_nat (10 + n)) else Panic)"
  by (simp add: u32_add_def unat_of_nat)

lemma build_frame_none:
  "build_frame E code hs names params (AuthNone, m) = (framed code hs None params, (AuthNone, m))"
  using u32_add_length [of "length (request_body hs None params)"]
  by (simp add: build_frame_def framed_def request_def request_body_def fold_marshal_Handle Let_def
      marshal_prim_def bindE_lift_Ok eff_simps)

lemma build_frame_area:
  assumes "uses_session_area auth"
    and a: "auth_area E code names params (auth, m) = (Ok (wire_auth_command ac), st)"
  shows "build_frame E code hs names params (auth, m) = (framed code hs (Some ac) params, st)"
  using assms(1) u32_add_length [of "length (request_body hs (Some ac) params)"]
  by (simp add: build_frame_def framed_def request_def request_body_def fold_marshal_Handle Let_def
      bindE_cases(1) [where m = "auth_area E code names params", OF a] bindE_assoc marshal_prim_def
      bindE_lift_Ok eff_simps add.assoc)

lemma build_frame_error:
  assumes "uses_session_area auth" "auth_area E code names params (auth, m) = (Err e, st)"
  shows "build_frame E code hs names params (auth, m) = (Err e, st)"
  using assms(1) by (simp add: build_frame_def Let_def bindE_cases(2) [where m = "auth_area E code names params", OF assms(2)] bindE_assoc)

section \<open>A reference decoder of commands\<close>

text \<open>
  The command format of the TPM library specification, part 1: header, handles, the
  authorization area with its size when the tag is \<open>TPM_ST_SESSIONS\<close>, and the parameters up
  to the end. One authorization entry is decoded.
\<close>

record Request =
  rq_tag :: "16 word"
  rq_size :: "32 word"
  rq_code :: "32 word"
  rq_handles :: "Handle list"
  rq_auth :: "AuthCommand option"
  rq_params :: bytes

definition parse_auth_command :: "AuthCommand parser" where
  "parse_auth_command = bindE unmarshal_Handle (\<lambda>h. bindE read_tpm2b (\<lambda>n. bindE read_u8 (\<lambda>a.
     bindE read_tpm2b (\<lambda>mac. ret \<lparr>ac_session_handle = h, ac_nonce_caller = n,
       ac_attributes = SessionAttributes a, ac_hmac = mac\<rparr>))))"

definition parse_auth_area :: "AuthCommand parser" where
  "parse_auth_area = bindE read_u32 (\<lambda>n. bindE (take_bytes (unat n)) (\<lambda>area.
     case parse_all parse_auth_command area of
       Some ac \<Rightarrow> ret ac | None \<Rightarrow> raise (Malformed ''authorization area'')))"

definition parse_request :: "nat \<Rightarrow> Request parser" where
  "parse_request k = bindE read_u16 (\<lambda>tag. bindE read_u32 (\<lambda>sz. bindE read_u32 (\<lambda>code.
     bindE (read_times k unmarshal_Handle) (\<lambda>hs.
     bindE (if tag = st_SESSIONS then bindE parse_auth_area (\<lambda>a. ret (Some a)) else ret None) (\<lambda>ac.
     bindE (bindE remaining take_bytes) (\<lambda>params.
     ret \<lparr>rq_tag = tag, rq_size = sz, rq_code = code, rq_handles = hs, rq_auth = ac,
          rq_params = params\<rparr>))))))"

lemma reads_auth_command:
  assumes "AuthCommand_wf ac"
  shows "reads parse_auth_command (wire_auth_command ac) ac"
proof -
  have f: "fits_tpm2b (ac_nonce_caller ac)" "fits_tpm2b (ac_hmac ac)"
    using assms by (simp_all add: AuthCommand_wf_def)
  have "reads parse_auth_command
      (to_be_bytes (handle_raw (ac_session_handle ac)) @ tpm2b (ac_nonce_caller ac) @
       [sa_bits (ac_attributes ac)] @ tpm2b (ac_hmac ac) @ [])
      \<lparr>ac_session_handle = ac_session_handle ac, ac_nonce_caller = ac_nonce_caller ac,
       ac_attributes = SessionAttributes (sa_bits (ac_attributes ac)), ac_hmac = ac_hmac ac\<rparr>"
    unfolding parse_auth_command_def by (rule f reads_newtypes reads_rules)+
  then show ?thesis by (cases ac) (simp add: wire_auth_command_def)
qed

lemma reads_auth_area:
  assumes "AuthCommand_wf ac" "length (wire_auth_command ac) < 2 ^ 32"
  shows "reads parse_auth_area
    (to_be_bytes (of_nat (length (wire_auth_command ac)) :: 32 word) @ wire_auth_command ac) ac"
proof -
  have "parse_all parse_auth_command (wire_auth_command ac) = Some ac"
    using parse_all_reads [OF reads_auth_command [OF assms(1)]] .
  then have "reads (bindE (take_bytes (length (wire_auth_command ac))) (\<lambda>area.
      case parse_all parse_auth_command area of
       Some ac \<Rightarrow> ret ac | None \<Rightarrow> raise (Malformed ''authorization area'')))
      (wire_auth_command ac @ []) ac"
    by (intro reads_bindE [OF reads_take]) (simp add: reads_ret)
  then show ?thesis
    unfolding parse_auth_area_def
    by (intro reads_bindE [OF reads_read_prim(4)]) (simp add: unat_of_nat_u32 [OF assms(2)])
qed

lemma after_prefix:
  assumes "reader_wf r" "unread r = bs @ rest"
  shows "reader_wf (advance (length bs) r)" and "unread (advance (length bs) r) = rest"
  using assms by simp_all

text \<open>The decoder reads back every request that fits its size field.\<close>

lemma parse_request_reads:
  assumes len: "length (request code hs ac params) < 2 ^ 32"
    and wf: "\<forall>a. ac = Some a \<longrightarrow> AuthCommand_wf a"
  shows "fst (parse_request (length hs) (Reader_new (request code hs ac params))) =
    Ok \<lparr>rq_tag = (if ac = None then st_NO_SESSIONS else st_SESSIONS),
        rq_size = of_nat (length (request code hs ac params)), rq_code = code, rq_handles = hs,
        rq_auth = ac, rq_params = params\<rparr>"
proof -
  let ?tag = "if ac = None then st_NO_SESSIONS else st_SESSIONS"
  let ?sz = "of_nat (10 + length (request_body hs ac params)) :: 32 word"
  let ?area = "case ac of None \<Rightarrow> []
     | Some a \<Rightarrow> to_be_bytes (of_nat (length (wire_auth_command a)) :: 32 word) @ wire_auth_command a"
  let ?r = "Reader_new (request code hs ac params)"
  have area: "reads (if ?tag = st_SESSIONS then bindE parse_auth_area (\<lambda>a. ret (Some a)) else ret None)
      ?area ac"
  proof (cases ac)
    case None
    then show ?thesis by (simp add: tags_differ reads_ret)
  next
    case (Some a)
    then have "length (wire_auth_command a) < 2 ^ 32"
      using len by (simp add: length_request request_body_def)
    then have "reads (bindE parse_auth_area (\<lambda>a. ret (Some a))) (?area @ []) (Some a)"
      using wf Some by (intro reads_bindE [OF _ reads_ret]) (simp add: reads_auth_area)
    then show ?thesis by (simp add: Some)
  qed
  let ?p = "bindE read_u16 (\<lambda>tag. bindE read_u32 (\<lambda>sz. bindE read_u32 (\<lambda>code.
     bindE (read_times (length hs) unmarshal_Handle) (\<lambda>hs.
     bindE (if tag = st_SESSIONS then bindE parse_auth_area (\<lambda>a. ret (Some a)) else ret None) (\<lambda>ac.
     ret (tag, sz, code, hs, ac))))))"
  have front: "reads ?p (to_be_bytes ?tag @ to_be_bytes ?sz @ to_be_bytes code @ wire_handles hs @ ?area @ [])
      (?tag, ?sz, code, hs, ac)"
    by (rule area reads_handles reads_rules)+
  have split: "parse_request (length hs) = bindE ?p (\<lambda>(tag, sz, code, hs, ac).
      bindE (bindE remaining take_bytes) (\<lambda>params. ret \<lparr>rq_tag = tag, rq_size = sz, rq_code = code,
        rq_handles = hs, rq_auth = ac, rq_params = params\<rparr>))"
    by (simp add: parse_request_def bindE_assoc)
  have u: "unread ?r = (to_be_bytes ?tag @ to_be_bytes ?sz @ to_be_bytes code @ wire_handles hs @ ?area @ []) @ params"
    by (simp add: request_def request_body_def)
  let ?front = "to_be_bytes ?tag @ to_be_bytes ?sz @ to_be_bytes code @ wire_handles hs @ ?area @ []"
  have wf': "reader_wf (advance (length ?front) ?r)" and u': "unread (advance (length ?front) ?r) = params"
    by (rule after_prefix [OF reader_wf_new u])+
  show ?thesis
    unfolding split reads_after [OF front reader_wf_new u]
    unfolding prod.case bind_rest [OF wf'] u'
    by (simp add: ret_simp length_request)
qed

section \<open>The request a run sends\<close>

text \<open>
  The abstract authorization step: which entry goes into the frame, and what becomes of the
  session and the generator.
\<close>

fun authorize ::
  "('h, 'm, 'g, 't) ports \<Rightarrow> 32 word \<Rightarrow> bytes list \<Rightarrow> bytes \<Rightarrow>
   (Auth \<times> ('t, 'g) machine, Error, AuthCommand option) eff" where
  "authorize E code names params (AuthNone, m) = (Ok None, (AuthNone, m))"
| "authorize E code names params (AuthPassword pw, m) =
     (if fits_tpm2b pw then (Ok (Some (password_entry pw)), (AuthPassword pw, m))
      else (Err (Usage ''auth value too long''), (AuthPassword pw, m)))"
| "authorize E code names params (AuthSession s av, m) = (case hash_fn_of (sess_hash_alg s) of
       None \<Rightarrow> (Err (Usage ''unsupported hash algorithm''), (AuthSession s av, m))
     | Some d \<Rightarrow>
         if feature_std E then
           (case os_fill (crypto E) (os_rng m) (hash_len d) of (nonce, g) \<Rightarrow>
             (Ok (Some (session_entry (crypto E) d s av code names params nonce)),
              (AuthSession (s\<lparr>nonce_caller := nonce\<rparr>) av, m\<lparr>os_rng := g\<rparr>)))
         else (Err (Usage ''HMAC sessions need a nonceCaller source; enable `std` or supply nonces manually''),
               (AuthSession s av, m)))"

text \<open>
  The frame fits its size field whatever the authorization: the largest entry is a password of
  65535 bytes, which takes 65548 bytes with the size of the area.
\<close>

definition request_fits :: "Handle list \<Rightarrow> bytes \<Rightarrow> bool" where
  "request_fits hs params \<longleftrightarrow> 4 * length hs + length params + 65558 < 2 ^ 32"

lemma length_wire_handles [simp]: "length (wire_handles hs) = 4 * length hs"
  by (induction hs) (simp_all add: wire_handles_def)

lemma length_nonce:
  "purecrypto_ok P \<Longrightarrow> os_fill P g n = (b, g') \<Longrightarrow> length b = n"
  unfolding purecrypto_ok_def by (metis fst_conv)

lemma authorize_wf:
  assumes P: "purecrypto_ok (crypto E)"
    and a: "authorize E code names params (auth, m) = (Ok (Some ac), st)"
  shows "AuthCommand_wf ac \<and> length (wire_auth_command ac) \<le> 65544"
proof (cases auth)
  case (AuthPassword pw)
  then have "ac = password_entry pw" "fits_tpm2b pw" using a by (auto split: if_splits)
  moreover have "length (wire_auth_command (password_entry pw)) = 9 + length pw"
    by (simp add: wire_password_entry length_tpm2b)
  ultimately show ?thesis
    by (simp add: AuthCommand_wf_def fits_tpm2b_def) (simp add: password_entry_def)
next
  case (AuthSession s av)
  then obtain d nonce g where f: "os_fill (crypto E) (os_rng m) (hash_len d) = (nonce, g)"
    and ac: "ac = session_entry (crypto E) d s av code names params nonce"
    using a by (auto split: option.splits if_splits prod.splits)
  note n = length_nonce [OF P f]
  have "length (wire_auth_command ac) = 9 + hash_len d + hash_len d"
    using P n by (simp add: ac wire_auth_command_def session_entry_def length_tpm2b command_mac_def)
  then show ?thesis
    using session_entry_wf [OF P n] hash_len_bounds(2) [of d] ac by simp
qed (use a in simp)

lemma authorize_returns: "returns (fst (authorize E code names params st))"
  by (cases "(E, code, names, params, st)" rule: authorize.cases)
    (simp_all split: option.split prod.split)

lemma request_room:
  assumes "request_fits hs params" "\<forall>a. ac = Some a \<longrightarrow> length (wire_auth_command a) \<le> 65544"
  shows "length (request code hs ac params) < 2 ^ 32"
  using assms by (cases ac) (auto simp: request_fits_def length_request request_body_def)

lemma auth_area_eq:
  assumes P: "purecrypto_ok (crypto E)" and auth: "uses_session_area auth"
  shows "auth_area E code names params (auth, m) = (case authorize E code names params (auth, m) of
      (Ok (Some ac), st) \<Rightarrow> (Ok (wire_auth_command ac), st)
    | (Ok None, st) \<Rightarrow> (Panic, st)
    | (Err e, st) \<Rightarrow> (Err e, st)
    | (Panic, st) \<Rightarrow> (Panic, st)
    | (Loop, st) \<Rightarrow> (Loop, st))"
  using auth auth_area_session [OF P]
  by (cases auth) (auto simp: auth_area_password auth_area_session_errors [OF P]
      split: option.split prod.split)

theorem build_frame_cases:
  assumes P: "purecrypto_ok (crypto E)"
  shows "build_frame E code hs names params (auth, m) = (case authorize E code names params (auth, m) of
      (Ok ac, st) \<Rightarrow> (framed code hs ac params, st)
    | (Err e, st) \<Rightarrow> (Err e, st)
    | (Panic, st) \<Rightarrow> (Panic, st)
    | (Loop, st) \<Rightarrow> (Loop, st))"
proof (cases "uses_session_area auth")
  case False
  then show ?thesis by (cases auth) (simp_all add: build_frame_none)
next
  case True
  obtain x st where a: "authorize E code names params (auth, m) = (x, st)"
    by (cases "authorize E code names params (auth, m)")
  have "x \<noteq> Panic" "x \<noteq> Loop" "x \<noteq> Ok None"
    using authorize_returns [of E code names params "(auth, m)"] True a
    by (cases auth; auto split: if_splits option.splits prod.splits)+
  then consider ac where "x = Ok (Some ac)" | e where "x = Err e"
    by (cases x) auto
  then show ?thesis
  proof cases
    case 1
    with a True show ?thesis
      by (simp add: build_frame_area [where ac = ac and st = st] auth_area_eq [OF P True])
  next
    case 2
    with a True show ?thesis by (simp add: build_frame_error auth_area_eq [OF P True])
  qed
qed

text \<open>Where the request fits, the frame is the request.\<close>

theorem build_frame_eq:
  assumes P: "purecrypto_ok (crypto E)" and fits: "request_fits hs params"
  shows "build_frame E code hs names params (auth, m) = (case authorize E code names params (auth, m) of
      (Ok ac, st) \<Rightarrow> (Ok (request code hs ac params), st)
    | (Err e, st) \<Rightarrow> (Err e, st)
    | (Panic, st) \<Rightarrow> (Panic, st)
    | (Loop, st) \<Rightarrow> (Loop, st))"
proof -
  have "framed code hs ac params = Ok (request code hs ac params)"
    if "authorize E code names params (auth, m) = (Ok ac, st)" for ac st
    using that authorize_wf [OF P] by (intro framed_small request_room [OF fits]) blast
  then show ?thesis
    by (auto simp: build_frame_cases [OF P] split: prod.split outcome.split)
qed

end
