(* ===== verification/Resubmission.thy ===== *)
theory Resubmission
  imports Requests
begin

text \<open>
  The resubmission loop of \<open>Tpm::run\<close> (\<open>src/src/tpm.rs\<close>): every execution is a sequence of
  rounds answered with a transient warning, each leaving the authorization as it was, and one
  last round whose result is the result of the command.
\<close>

section \<open>Rounds\<close>

definition round_trip ::
  "('h, 'm, 'g, 't) ports \<Rightarrow> 32 word \<Rightarrow> bytes list \<Rightarrow> nat \<Rightarrow> bytes \<Rightarrow>
   (Auth \<times> ('t, 'g) machine, Error, RawResponse) eff" where
  "round_trip E code names k frame = bindE (on_transport (transmit E frame)) (\<lambda>resp.
     on_fst (parse_response (crypto E) code resp names k))"

text \<open>The reply is a warning to resubmit on.\<close>

definition warns ::
  "('h, 'm, 'g, 't) ports \<Rightarrow> 32 word \<Rightarrow> bytes list \<Rightarrow> nat \<Rightarrow> Auth \<Rightarrow> bytes \<Rightarrow> bool" where
  "warns E code names k auth resp \<longleftrightarrow>
     (\<exists>rc. fst (parse_response (crypto E) code resp names k auth) = Err (Tpm rc) \<and> is_transient rc)"

inductive resubmits ::
  "('h, 'm, 'g, 't) ports \<Rightarrow> 32 word \<Rightarrow> bytes list \<Rightarrow> nat \<Rightarrow> bytes \<Rightarrow> Auth \<Rightarrow>
   nat \<Rightarrow> ('t, 'g) machine \<Rightarrow> nat \<Rightarrow> ('t, 'g) machine \<Rightarrow> bool"
  for E code names k frame auth where
  resubmit_none: "resubmits E code names k frame auth n m n m"
| resubmit_again: "transmit E frame (transport m) = (Ok resp, t) \<Longrightarrow> warns E code names k auth resp \<Longrightarrow>
    n < MAX_TRANSIENT_RETRIES \<Longrightarrow>
    resubmits E code names k frame auth (n + 1) (backoff E (n + 1) (m\<lparr>transport := t\<rparr>)) n' m' \<Longrightarrow>
    resubmits E code names k frame auth n m n' m'"

lemma transmit_loop_step:
  "transmit_loop E code names k frame n (auth, m) = (case transmit E frame (transport m) of
      (Ok resp, t) \<Rightarrow> (case parse_response (crypto E) code resp names k auth of
          (Err (Tpm rc), auth') \<Rightarrow>
            if is_transient rc \<and> n < MAX_TRANSIENT_RETRIES
            then transmit_loop E code names k frame (n + 1) (auth', backoff E (n + 1) (m\<lparr>transport := t\<rparr>))
            else (Err (Tpm rc), (auth', m\<lparr>transport := t\<rparr>))
        | (x, auth') \<Rightarrow> (x, (auth', m\<lparr>transport := t\<rparr>)))
    | (Err e, t) \<Rightarrow> (Err e, (auth, m\<lparr>transport := t\<rparr>))
    | (Panic, t) \<Rightarrow> (Panic, (auth, m\<lparr>transport := t\<rparr>))
    | (Loop, t) \<Rightarrow> (Loop, (auth, m\<lparr>transport := t\<rparr>)))"
  by (subst transmit_loop.simps)
    (auto simp: on_transport_def on_fst_def split: prod.split outcome.split Error.split)

lemma round_trip_eq:
  "round_trip E code names k frame (auth, m) = (case transmit E frame (transport m) of
      (Ok resp, t) \<Rightarrow> (case parse_response (crypto E) code resp names k auth of
          (x, auth') \<Rightarrow> (x, (auth', m\<lparr>transport := t\<rparr>)))
    | (Err e, t) \<Rightarrow> (Err e, (auth, m\<lparr>transport := t\<rparr>))
    | (Panic, t) \<Rightarrow> (Panic, (auth, m\<lparr>transport := t\<rparr>))
    | (Loop, t) \<Rightarrow> (Loop, (auth, m\<lparr>transport := t\<rparr>)))"
  by (auto simp: round_trip_def bindE_def on_transport_def on_fst_def split: prod.split outcome.split)

lemma loop_once:
  assumes "\<not> (\<exists>resp t. transmit E frame (transport m) = (Ok resp, t) \<and>
      warns E code names k auth resp \<and> n < MAX_TRANSIENT_RETRIES)"
  shows "transmit_loop E code names k frame n (auth, m) = round_trip E code names k frame (auth, m)"
  using assms
  by (subst transmit_loop_step) (auto simp: round_trip_eq warns_def split: prod.split outcome.split Error.split)

lemma loop_again:
  assumes "purecrypto_ok (crypto E)" "transmit E frame (transport m) = (Ok resp, t)"
    "warns E code names k auth resp" "n < MAX_TRANSIENT_RETRIES"
  shows "transmit_loop E code names k frame n (auth, m) =
    transmit_loop E code names k frame (n + 1) (auth, backoff E (n + 1) (m\<lparr>transport := t\<rparr>))"
proof -
  obtain rc where rc: "is_transient rc"
      "parse_response (crypto E) code resp names k auth = (Err (Tpm rc), auth)"
    using assms(3) parse_error_frame [OF assms(1)] unfolding warns_def by (metis prod.collapse)
  then show ?thesis by (subst transmit_loop_step) (simp add: assms)
qed

text \<open>The decomposition of an execution.\<close>

lemma loop_rounds:
  assumes P: "purecrypto_ok (crypto E)" and n: "n \<le> MAX_TRANSIENT_RETRIES"
  shows "\<exists>n' m'. resubmits E code names k frame auth n m n' m' \<and> n' \<le> MAX_TRANSIENT_RETRIES \<and>
    transmit_loop E code names k frame n (auth, m) = round_trip E code names k frame (auth, m') \<and>
    (\<forall>resp t. transmit E frame (transport m') = (Ok resp, t) \<longrightarrow> warns E code names k auth resp \<longrightarrow>
      n' = MAX_TRANSIENT_RETRIES)"
  using n
proof (induction "MAX_TRANSIENT_RETRIES - n" arbitrary: n m)
  case 0
  then have "n = MAX_TRANSIENT_RETRIES" by simp
  then show ?case
    using loop_once [of E frame m code names k auth n]
    by (intro exI [of _ n] exI [of _ m] conjI resubmit_none) simp_all
next
  case (Suc d)
  show ?case
  proof (cases "\<exists>resp t. transmit E frame (transport m) = (Ok resp, t) \<and> warns E code names k auth resp")
    case False
    then show ?thesis
      using loop_once [of E frame m code names k auth n] Suc.prems
      by (intro exI [of _ n] exI [of _ m] conjI resubmit_none) auto
  next
    case True
    then obtain resp t where r: "transmit E frame (transport m) = (Ok resp, t)"
        "warns E code names k auth resp" by blast
    have lt: "n < MAX_TRANSIENT_RETRIES" using Suc.hyps(2) by simp
    let ?m = "backoff E (n + 1) (m\<lparr>transport := t\<rparr>)"
    have "d = MAX_TRANSIENT_RETRIES - (n + 1)" "n + 1 \<le> MAX_TRANSIENT_RETRIES"
      using Suc.hyps(2) lt by simp_all
    from Suc.hyps(1) [OF this, of ?m] obtain n' m' where
      "resubmits E code names k frame auth (n + 1) ?m n' m'" and rest: "n' \<le> MAX_TRANSIENT_RETRIES"
      "transmit_loop E code names k frame (n + 1) (auth, ?m) = round_trip E code names k frame (auth, m')"
      "\<forall>resp t. transmit E frame (transport m') = (Ok resp, t) \<longrightarrow> warns E code names k auth resp \<longrightarrow>
        n' = MAX_TRANSIENT_RETRIES"
      by blast
    then have "resubmits E code names k frame auth n m n' m'"
      by (intro resubmit_again [OF r lt])
    with rest loop_again [OF P r lt] show ?thesis by auto
  qed
qed

section \<open>What the rounds keep\<close>

lemma backoff_simps [simp]:
  "transport (backoff E n m) = transport m" "os_rng (backoff E n m) = os_rng m"
  "slept (backoff E n m) = slept m @ (if feature_std E then [n * 5] else [])"
  by (simp_all add: backoff_def)

lemma resubmits_frame:
  "resubmits E code names k frame auth n m n' m' \<Longrightarrow>
    n \<le> n' \<and> os_rng m' = os_rng m \<and>
    slept m' = slept m @ (if feature_std E then map (\<lambda>i. i * 5) [Suc n..<Suc n'] else [])"
proof (induction rule: resubmits.induct)
  case (resubmit_again m resp t n n' m')
  then have "Suc n \<le> n'" by simp
  then have "[Suc n..<Suc n'] = Suc n # [Suc (Suc n)..<Suc n']" by (simp add: upt_conv_Cons)
  then show ?case using resubmit_again by simp
qed simp

text \<open>
  A success was parsed from the last response, against the authorization the request was
  built with.
\<close>

lemma transmit_loop_Ok:
  assumes P: "purecrypto_ok (crypto E)"
    and ok: "transmit_loop E code names k frame 0 (auth, m) = (Ok rr, (auth', m'))"
  obtains t resp where "transmit E frame t = (Ok resp, transport m')"
    "parse_response (crypto E) code resp names k auth = (Ok rr, auth')" "os_rng m' = os_rng m"
proof -
  obtain n' m1 where r: "resubmits E code names k frame auth 0 m n' m1"
    and l: "transmit_loop E code names k frame 0 (auth, m) = round_trip E code names k frame (auth, m1)"
    using loop_rounds [OF P, of 0 code names k frame auth m] by auto
  have "round_trip E code names k frame (auth, m1) = (Ok rr, (auth', m'))" using l ok by simp
  then show thesis
    using that [of "transport m1"] resubmits_frame [OF r]
    by (auto simp: round_trip_eq split: prod.splits outcome.splits)
qed

lemma transmit_loop_Err:
  assumes P: "purecrypto_ok (crypto E)"
    and err: "transmit_loop E code names k frame 0 (auth, m) = (Err e, (auth', m'))"
  shows "auth' = auth \<and> os_rng m' = os_rng m"
proof -
  obtain n' m1 where r: "resubmits E code names k frame auth 0 m n' m1"
    and l: "transmit_loop E code names k frame 0 (auth, m) = round_trip E code names k frame (auth, m1)"
    using loop_rounds [OF P, of 0 code names k frame auth m] by auto
  have "round_trip E code names k frame (auth, m1) = (Err e, (auth', m'))" using l err by simp
  then show ?thesis
    using resubmits_frame [OF r] parse_error_frame [OF P]
    by (auto simp: round_trip_eq split: prod.splits outcome.splits)
qed

section \<open>Counting transmissions\<close>

text \<open>The same machine with a transport that also keeps the frames it was given.\<close>

definition logged :: "('h, 'm, 'g, 't) ports \<Rightarrow> ('h, 'm, 'g, 't \<times> bytes list) ports" where
  "logged E = \<lparr>crypto = crypto E,
     transmit = (\<lambda>f (t, log). case transmit E f t of (x, t') \<Rightarrow> (x, (t', log @ [f]))),
     feature_std = feature_std E\<rparr>"

definition unlogged :: "('t \<times> bytes list, 'g) machine \<Rightarrow> ('t, 'g) machine" where
  "unlogged m = \<lparr>transport = fst (transport m), os_rng = os_rng m, slept = slept m\<rparr>"

lemma logged_simps [simp]:
  "crypto (logged E) = crypto E" "feature_std (logged E) = feature_std E"
  "warns (logged E) = warns E"
  by (auto simp: logged_def warns_def fun_eq_iff)

lemma transmit_logged:
  "transmit (logged E) f t = (case transmit E f (fst t) of (x, t') \<Rightarrow> (x, (t', snd t @ [f])))"
  by (simp add: logged_def split: prod.split)

lemma unlogged_simps [simp]:
  "transport (unlogged m) = fst (transport m)"
  "unlogged (m\<lparr>transport := t\<rparr>) = (unlogged m)\<lparr>transport := fst t\<rparr>"
  "unlogged (backoff (logged E) n m) = backoff E n (unlogged m)"
  by (simp_all add: unlogged_def backoff_def)

lemma resubmits_log:
  "resubmits (logged E) code names k frame auth n m n' m' \<Longrightarrow>
    snd (transport m') = snd (transport m) @ replicate (n' - n) frame \<and>
    resubmits E code names k frame auth n (unlogged m) n' (unlogged m')"
proof (induction rule: resubmits.induct)
  case (resubmit_again m resp t n n' m')
  obtain t0 where t0: "transmit E frame (fst (transport m)) = (Ok resp, t0)"
    and t: "t = (t0, snd (transport m) @ [frame])"
    using resubmit_again.hyps(1) by (auto simp: transmit_logged split: prod.splits)
  have "n + 1 \<le> n'" using resubmits_frame [OF resubmit_again.hyps(4)] by simp
  then have rep: "replicate (n' - n) frame = [frame] @ replicate (n' - (n + 1)) frame"
    by (simp add: Suc_diff_Suc flip: replicate_Suc)
  have "resubmits E code names k frame auth n (unlogged m) n' (unlogged m')"
    using resubmit_again.IH resubmit_again.hyps(2,3) t0 t
    by (intro resubmits.resubmit_again [of E frame "unlogged m" resp t0]) simp_all
  with resubmit_again.IH t rep show ?case by simp
qed (simp add: resubmit_none)

lemma round_trip_log:
  "round_trip (logged E) code names k frame (auth, m) = (x, (auth', m')) \<Longrightarrow>
    snd (transport m') = snd (transport m) @ [frame] \<and> slept m' = slept m \<and>
    round_trip E code names k frame (auth, unlogged m) = (x, (auth', unlogged m'))"
  by (auto simp: round_trip_eq transmit_logged split: prod.splits outcome.splits)

text \<open>
  One command is transmitted at least once and at most 13 times, always as the same frame;
  the waits in between are 5, 10, 15 and so on milliseconds.
\<close>

lemma transmissions:
  assumes P: "purecrypto_ok (crypto E)"
    and run: "transmit_loop (logged E) code names k frame 0 (auth, m) = (x, (auth', m'))"
  obtains j where "j \<le> MAX_TRANSIENT_RETRIES"
    "snd (transport m') = snd (transport m) @ replicate (Suc j) frame"
    "slept m' = slept m @ (if feature_std E then map (\<lambda>i. i * 5) [1..<Suc j] else [])"
    "\<And>rc. x = Err (Tpm rc) \<Longrightarrow> is_transient rc \<Longrightarrow> \<forall>f t t'. transmit E f t \<noteq> (Err (Tpm rc), t') \<Longrightarrow>
      j = MAX_TRANSIENT_RETRIES"
proof -
  have P': "purecrypto_ok (crypto (logged E))" using P by simp
  obtain n' m1 where r: "resubmits (logged E) code names k frame auth 0 m n' m1"
    and n': "n' \<le> MAX_TRANSIENT_RETRIES"
    and l: "transmit_loop (logged E) code names k frame 0 (auth, m) =
      round_trip (logged E) code names k frame (auth, m1)"
    and stop: "\<forall>resp t. transmit (logged E) frame (transport m1) = (Ok resp, t) \<longrightarrow>
      warns (logged E) code names k auth resp \<longrightarrow> n' = MAX_TRANSIENT_RETRIES"
    using loop_rounds [OF P', of 0 code names k frame auth m] by blast
  have last: "round_trip (logged E) code names k frame (auth, m1) = (x, (auth', m'))"
    using l run by simp
  note log = resubmits_log [OF r] round_trip_log [OF last] resubmits_frame [OF r]
  have stop': "n' = MAX_TRANSIENT_RETRIES" if "x = Err (Tpm rc)" "is_transient rc"
    "\<forall>f t t'. transmit E f t \<noteq> (Err (Tpm rc), t')" for rc
    using last stop that
    by (auto simp: round_trip_eq transmit_logged warns_def split: prod.splits outcome.splits)
  show thesis
  proof (rule that [of n'])
    show "snd (transport m') = snd (transport m) @ replicate (Suc n') frame"
      using log by (simp add: replicate_append_same)
    show "slept m' = slept m @ (if feature_std E then map (\<lambda>i. i * 5) [1..<Suc n'] else [])"
      using log by simp
  qed (use n' stop' in blast)+
qed

section \<open>Runs\<close>

text \<open>
  What the loop needs of a \<open>Transport\<close>: in every state the implementation can be in, a
  transmission returns and leaves it in such a state again.
\<close>

locale transport_link =
  fixes send :: "bytes \<Rightarrow> ('t, Error, bytes) eff"
    and live :: "'t \<Rightarrow> bool"
  assumes send_returns: "live t \<Longrightarrow> returns (fst (send f t))"
    and send_live: "live t \<Longrightarrow> live (snd (send f t))"
begin

lemma resubmits_live:
  assumes "transmit E = send"
  shows "resubmits E code names k frame auth n m n' m' \<Longrightarrow> live (transport m) \<Longrightarrow> live (transport m')"
proof (induction rule: resubmits.induct)
  case (resubmit_again m resp t n n' m')
  then show ?case using send_live [of "transport m" frame] assms by simp
qed simp

lemma loop_returns:
  assumes E: "transmit E = send" and P: "purecrypto_ok (crypto E)" and m: "live (transport m)"
  shows "returns (fst (transmit_loop E code names k frame 0 (auth, m))) \<and>
    live (transport (snd (snd (transmit_loop E code names k frame 0 (auth, m)))))"
proof -
  obtain n' m1 where r: "resubmits E code names k frame auth 0 m n' m1"
    and l: "transmit_loop E code names k frame 0 (auth, m) = round_trip E code names k frame (auth, m1)"
    using loop_rounds [OF P, of 0 code names k frame auth m] by blast
  have m1: "live (transport m1)" using resubmits_live [OF E r m] .
  obtain x t where s: "send frame (transport m1) = (x, t)" by (cases "send frame (transport m1)")
  have x: "returns x" "live t" using send_returns [OF m1, of frame] send_live [OF m1, of frame] s by auto
  have "returns y" if "parse_response (crypto E) code resp names k auth = (y, auth')" for resp y auth'
    using parse_returns [OF P, of code resp names k auth] that by simp
  then show ?thesis
    unfolding l round_trip_eq E s using x by (cases x) (auto split: prod.split)
qed

lemma run_returns:
  assumes E: "transmit E = send" and P: "purecrypto_ok (crypto E)" and fits: "request_fits hs params"
    and m: "live (transport m)"
  shows "returns (fst (run E code hs names params k (auth, m))) \<and>
    live (transport (snd (snd (run E code hs names params k (auth, m)))))"
proof -
  obtain x auth1 m1 where a: "authorize E code names params (auth, m) = (x, (auth1, m1))"
    by (metis prod.exhaust)
  have t: "transport m1 = transport m"
    using a by (cases auth) (auto split: if_splits option.splits prod.splits)
  have "returns x" using authorize_returns [of E code names params "(auth, m)"] a by simp
  then show ?thesis
    using loop_returns [OF E P, of m1] m t
    by (cases x) (simp_all add: run_def bindE_def build_frame_eq [OF P fits] a)
qed

end

text \<open>A run is the abstract authorization followed by the loop over its request.\<close>

lemma run_eq:
  assumes P: "purecrypto_ok (crypto E)" and fits: "request_fits hs params"
  shows "run E code hs names params k (auth, m) = bindE (authorize E code names params)
    (\<lambda>ac. transmit_loop E code names k (request code hs ac params) 0) (auth, m)"
  by (simp add: run_def bindE_def build_frame_eq [OF P fits] split: prod.split outcome.split)

lemma run_Ok:
  assumes P: "purecrypto_ok (crypto E)" and fits: "request_fits hs params"
    and ok: "run E code hs names params k (auth, m) = (Ok rr, (auth', m'))"
  obtains ac auth1 m1 t resp where "authorize E code names params (auth, m) = (Ok ac, (auth1, m1))"
    "transmit E (request code hs ac params) t = (Ok resp, transport m')"
    "parse_response (crypto E) code resp names k auth1 = (Ok rr, auth')" "os_rng m' = os_rng m1"
proof -
  from ok obtain ac st where a: "authorize E code names params (auth, m) = (Ok ac, st)"
    and l: "transmit_loop E code names k (request code hs ac params) 0 st = (Ok rr, (auth', m'))"
    unfolding run_eq [OF P fits] by (rule bindE_OkE)
  obtain auth1 m1 where st: "st = (auth1, m1)" by (cases st)
  show thesis
    using l unfolding st by (rule transmit_loop_Ok [OF P]) (use a st that in blast)
qed

text \<open>A run whose request is answered at once by a well-formed reply.\<close>

lemma loop_reply:
  assumes P: "purecrypto_ok (crypto E)" and wf: "reply_wf rhs p ar"
    and t: "transmit E frame (transport m) = (Ok (reply rhs p ar), t)"
  shows "transmit_loop E code names (length rhs) frame n (auth, m) =
    (case checked (crypto E) code names (rhs, p, ar) auth of (x, auth') \<Rightarrow> (x, (auth', m\<lparr>transport := t\<rparr>)))"
proof -
  have "checked (crypto E) code names (rhs, p, ar) auth \<noteq> (Err (Tpm rc), auth')" for rc auth'
    by (auto simp: checked_eq P check_response_auth_eq hmac_mismatch_def
        split: option.split Auth.split)
  then show ?thesis
    by (subst transmit_loop_step) (auto simp: t parse_reply [OF P wf] split: prod.split outcome.split Error.split)
qed

lemma run_reply:
  assumes P: "purecrypto_ok (crypto E)" and fits: "request_fits hs params" and wf: "reply_wf rhs p ar"
    and a: "authorize E code names params (auth, m) = (Ok ac, (auth1, m1))"
    and t: "transmit E (request code hs ac params) (transport m1) = (Ok (reply rhs p ar), t)"
  shows "run E code hs names params (length rhs) (auth, m) =
    (case checked (crypto E) code names (rhs, p, ar) auth1 of (x, auth') \<Rightarrow> (x, (auth', m1\<lparr>transport := t\<rparr>)))"
  by (simp add: run_eq [OF P fits] bindE_def a loop_reply [OF P wf t])

end
