(* ===== verification/Commands.thy ===== *)
theory Commands
  imports Resubmission
begin

text \<open>
  The typed commands of \<open>src/src/commands/\<close>: each lays out its parameter area, runs the
  command through the dispatcher, and unmarshals the reply. The commands without an
  authorization run on the machine alone (their \<open>Auth::None\<close> is a temporary); the others take
  the caller's authorization and thread it.
\<close>

section \<open>Result types\<close>

record CreatePrimaryResult =
  cp_handle :: Handle
  cp_name :: Buffer
  cp_public :: Buffer

record CreateResult =
  cr_private :: Buffer
  cr_public :: Buffer

record LoadResult =
  lr_handle :: Handle
  lr_name :: Buffer

record PcrReadResult =
  update_counter :: "32 word"
  pr_selection :: PcrSelectionList
  pr_values :: "Buffer list"

record CapabilityData =
  cd_more :: bool
  cd_capability :: "32 word"
  cd_data :: bytes

section \<open>Running and unmarshalling\<close>

definition run_plain ::
  "('h, 'm, 'g, 't) ports \<Rightarrow> 32 word \<Rightarrow> Handle list \<Rightarrow> bytes list \<Rightarrow> bytes \<Rightarrow> nat \<Rightarrow>
   (('t, 'g) machine, Error, RawResponse) eff" where
  "run_plain E code handles names params k m =
     (case run E code handles names params k (AuthNone, m) of (x, (_, m')) \<Rightarrow> (x, m'))"

text \<open>\<open>let mut r = Reader::new(&params); p(&mut r)\<close>.\<close>

definition unmarshal_params :: "'a parser \<Rightarrow> bytes \<Rightarrow> ('s, Error, 'a) eff" where
  "unmarshal_params p params = lift_outcome (fst (p (Reader_new params)))"

section \<open>Startup, randomness, capability\<close>

definition startup :: "('h, 'm, 'g, 't) ports \<Rightarrow> 16 word \<Rightarrow> (('t, 'g) machine, Error, unit) eff" where
  "startup E startup_type =
     (let p = marshal_prim startup_type []
      in bindE (run_plain E cc_STARTUP [] [] p 0) (\<lambda>_. ret ()))"

definition shutdown :: "('h, 'm, 'g, 't) ports \<Rightarrow> 16 word \<Rightarrow> (('t, 'g) machine, Error, unit) eff" where
  "shutdown E shutdown_type =
     (let p = marshal_prim shutdown_type []
      in bindE (run_plain E cc_SHUTDOWN [] [] p 0) (\<lambda>_. ret ()))"

definition self_test :: "('h, 'm, 'g, 't) ports \<Rightarrow> bool \<Rightarrow> (('t, 'g) machine, Error, unit) eff" where
  "self_test E full =
     (let p = [if full then 1 else 0]
      in bindE (run_plain E cc_SELF_TEST [] [] p 0) (\<lambda>_. ret ()))"

definition get_random :: "('h, 'm, 'g, 't) ports \<Rightarrow> 16 word \<Rightarrow> (('t, 'g) machine, Error, bytes) eff" where
  "get_random E n =
     (let p = marshal_prim n []
      in bindE (run_plain E cc_GET_RANDOM [] [] p 0) (\<lambda>resp.
         unmarshal_params read_tpm2b (rr_params resp)))"

definition stir_random :: "('h, 'm, 'g, 't) ports \<Rightarrow> bytes \<Rightarrow> (('t, 'g) machine, Error, unit) eff" where
  "stir_random E data =
     (if length data > 128 then raise (Usage ''StirRandom accepts at most 128 bytes'')
      else case marshal_tpm2b data [] of (x, p) \<Rightarrow>
        bindE (lift_outcome x) (\<lambda>_. bindE (run_plain E cc_STIR_RANDOM [] [] p 0) (\<lambda>_. ret ())))"

definition get_capability ::
  "('h, 'm, 'g, 't) ports \<Rightarrow> 32 word \<Rightarrow> 32 word \<Rightarrow> 32 word \<Rightarrow>
   (('t, 'g) machine, Error, CapabilityData) eff" where
  "get_capability E capability property count =
     (let p = marshal_prim count (marshal_prim property (marshal_prim capability []))
      in bindE (run_plain E cc_GET_CAPABILITY [] [] p 0) (\<lambda>resp.
         unmarshal_params
           (bindE read_u8 (\<lambda>more. bindE read_u32 (\<lambda>cap. bindE (bindE remaining take_bytes) (\<lambda>data.
             ret \<lparr>cd_more = more \<noteq> 0, cd_capability = cap, cd_data = data\<rparr>))))
           (rr_params resp)))"

section \<open>Sessions\<close>

definition start_auth_session ::
  "('h, 'm, 'g, 't) ports \<Rightarrow> Alg \<Rightarrow> bytes \<Rightarrow> (('t, 'g) machine, Error, Session) eff" where
  "start_auth_session E hash_alg nonce_c =
     (let handles = [Handle rh_NULL, Handle rh_NULL] in
      case marshal_tpm2b nonce_c [] of (x, p) \<Rightarrow>
      bindE (lift_outcome x) (\<lambda>_.
      case marshal_tpm2b [] p of (x, p) \<Rightarrow>
      bindE (lift_outcome x) (\<lambda>_.
      let p = p @ [se_HMAC];
          p = marshal_SymDefObject sym_null p;
          p = marshal_Alg hash_alg p
      in bindE (run_plain E cc_START_AUTH_SESSION handles [] p 1) (\<lambda>resp.
         bindE (lift_outcome (index_at (rr_handles resp) 0)) (\<lambda>session_handle.
         bindE (unmarshal_params read_tpm2b (rr_params resp)) (\<lambda>nonce_t.
         lift_outcome (Session_new (crypto E) session_handle hash_alg nonce_t nonce_c
           sa_continue_session [] [] [])))))))"

text \<open>Present with the feature \<open>std\<close> only; the generator is the machine's.\<close>

definition start_hmac_session ::
  "('h, 'm, 'g, 't) ports \<Rightarrow> Alg \<Rightarrow> (('t, 'g) machine, Error, Session) eff" where
  "start_hmac_session E hash_alg =
     bindE (lift_outcome (crypto_digest_size hash_alg)) (\<lambda>n.
     bindE (\<lambda>m. case os_fill (crypto E) (os_rng m) n of (b, g) \<Rightarrow> (Ok b, m\<lparr>os_rng := g\<rparr>)) (\<lambda>nonce.
     start_auth_session E hash_alg nonce))"

definition flush_context :: "('h, 'm, 'g, 't) ports \<Rightarrow> Handle \<Rightarrow> (('t, 'g) machine, Error, unit) eff" where
  "flush_context E h =
     (let p = marshal_Handle h []
      in bindE (run_plain E cc_FLUSH_CONTEXT [] [] p 0) (\<lambda>_. ret ()))"

section \<open>Objects\<close>

definition create_params :: "SensitiveCreate \<Rightarrow> Public \<Rightarrow> bytes" where
  "create_params sensitive public =
     (let p = SensitiveCreate_wrap_2b sensitive [];
          p = Public_wrap_2b public p;
          p = marshal_tpm2b_ok [] p
      in marshal_PcrSelectionList (PcrSelectionList []) p)"

definition create_primary ::
  "('h, 'm, 'g, 't) ports \<Rightarrow> Handle \<Rightarrow> SensitiveCreate \<Rightarrow> Public \<Rightarrow>
   (Auth \<times> ('t, 'g) machine, Error, CreatePrimaryResult) eff" where
  "create_primary E hierarchy sensitive public =
     (let p = create_params sensitive public;
          name = permanent_name hierarchy
      in bindE (run E cc_CREATE_PRIMARY [hierarchy] [name] p 1) (\<lambda>resp.
         bindE (lift_outcome (index_at (rr_handles resp) 0)) (\<lambda>h.
         unmarshal_params
           (bindE read_tpm2b (\<lambda>out_public. bindE read_tpm2b (\<lambda>_. bindE read_tpm2b (\<lambda>_.
            bindE skip_tk_creation (\<lambda>_. bindE read_tpm2b (\<lambda>obj_name.
            ret \<lparr>cp_handle = h, cp_name = Buffer obj_name, cp_public = Buffer out_public\<rparr>))))))
           (rr_params resp))))"

definition create ::
  "('h, 'm, 'g, 't) ports \<Rightarrow> Handle \<Rightarrow> bytes \<Rightarrow> SensitiveCreate \<Rightarrow> Public \<Rightarrow>
   (Auth \<times> ('t, 'g) machine, Error, CreateResult) eff" where
  "create E parent parent_name sensitive public =
     (let p = create_params sensitive public
      in bindE (run E cc_CREATE [parent] [parent_name] p 0) (\<lambda>resp.
         unmarshal_params
           (bindE read_tpm2b (\<lambda>private. bindE read_tpm2b (\<lambda>public.
            ret \<lparr>cr_private = Buffer private, cr_public = Buffer public\<rparr>)))
           (rr_params resp)))"

definition load ::
  "('h, 'm, 'g, 't) ports \<Rightarrow> Handle \<Rightarrow> bytes \<Rightarrow> Buffer \<Rightarrow> Buffer \<Rightarrow>
   (Auth \<times> ('t, 'g) machine, Error, LoadResult) eff" where
  "load E parent parent_name in_private in_public =
     (let p = marshal_Buffer in_public (marshal_Buffer in_private [])
      in bindE (run E cc_LOAD [parent] [parent_name] p 1) (\<lambda>resp.
         bindE (lift_outcome (index_at (rr_handles resp) 0)) (\<lambda>h.
         unmarshal_params
           (bindE read_tpm2b (\<lambda>name. ret \<lparr>lr_handle = h, lr_name = Buffer name\<rparr>))
           (rr_params resp))))"

definition unseal ::
  "('h, 'm, 'g, 't) ports \<Rightarrow> Handle \<Rightarrow> bytes \<Rightarrow> (Auth \<times> ('t, 'g) machine, Error, bytes) eff" where
  "unseal E item item_name =
     bindE (run E cc_UNSEAL [item] [item_name] [] 0) (\<lambda>resp.
       unmarshal_params read_tpm2b (rr_params resp))"

section \<open>PCRs\<close>

definition unmarshal_from :: "PcrSelectionList parser" where
  "unmarshal_from = unmarshal_PcrSelectionList"

definition pcr_read ::
  "('h, 'm, 'g, 't) ports \<Rightarrow> PcrSelectionList \<Rightarrow> (('t, 'g) machine, Error, PcrReadResult) eff" where
  "pcr_read E selection =
     (let p = marshal_PcrSelectionList selection []
      in bindE (run_plain E cc_PCR_READ [] [] p 0) (\<lambda>resp.
         unmarshal_params
           (bindE read_u32 (\<lambda>counter. bindE unmarshal_from (\<lambda>sel. bindE read_digest_list (\<lambda>values.
            ret \<lparr>update_counter = counter, pr_selection = sel, pr_values = values\<rparr>))))
           (rr_params resp)))"

definition pcr_read_one ::
  "('h, 'm, 'g, 't) ports \<Rightarrow> Alg \<Rightarrow> byte \<Rightarrow> (('t, 'g) machine, Error, Buffer option) eff" where
  "pcr_read_one E bank pcr =
     bindE (pcr_read E (PcrSelectionList [PcrSelection_single bank pcr])) (\<lambda>res.
       ret (case pr_values res of [] \<Rightarrow> None | v # _ \<Rightarrow> Some v))"

definition digest_values :: "(Alg \<times> bytes) list \<Rightarrow> bytes" where
  "digest_values digests =
     fold (\<lambda>(alg, dig) p. marshal_Alg alg p @ dig) digests
       (marshal_prim (of_nat (length digests) :: 32 word) [])"

definition pcr_extend ::
  "('h, 'm, 'g, 't) ports \<Rightarrow> 32 word \<Rightarrow> (Alg \<times> bytes) list \<Rightarrow>
   (Auth \<times> ('t, 'g) machine, Error, unit) eff" where
  "pcr_extend E pcr digests =
     (let h = Handle pcr;
          p = digest_values digests;
          name = permanent_name h
      in bindE (run E cc_PCR_EXTEND [h] [name] p 0) (\<lambda>_. ret ()))"

section \<open>Replies to commands\<close>

lemma run_plain_reply:
  assumes P: "purecrypto_ok (crypto E)" and fits: "request_fits hs params" and wf: "reply_wf rhs p ar"
    and t: "transmit E (request code hs None params) (transport m) = (Ok (reply rhs p ar), t)"
  shows "run_plain E code hs names params (length rhs) m =
    (Ok \<lparr>rr_handles = rhs, rr_params = p\<rparr>, m\<lparr>transport := t\<rparr>)"
proof -
  have "run E code hs names params (length rhs) (AuthNone, m) =
      (case checked (crypto E) code names (rhs, p, ar) AuthNone of
        (x, auth') \<Rightarrow> (x, (auth', m\<lparr>transport := t\<rparr>)))"
    by (rule run_reply [OF P fits wf _ t]) simp
  then show ?thesis
    by (simp add: run_plain_def checked_eq [OF P] check_response_auth_eq [OF P] split: option.split)
qed

text \<open>
  The command was authorized, the request went out, a well-formed reply came back, and the
  check of its authorization passed.
\<close>

definition answered ::
  "('h, 'm, 'g, 't) ports \<Rightarrow> 32 word \<Rightarrow> Handle list \<Rightarrow> bytes list \<Rightarrow> bytes \<Rightarrow> Auth \<times> ('t, 'g) machine \<Rightarrow>
   Handle list \<Rightarrow> bytes \<Rightarrow> Auth \<times> ('t, 'g) machine \<Rightarrow> bool" where
  "answered E code hs names params st rhs p st' \<longleftrightarrow>
     (\<exists>ac auth1 m1 t ar. authorize E code names params st = (Ok ac, (auth1, m1)) \<and>
        transmit E (request code hs ac params) (transport m1) = (Ok (reply rhs p ar), t) \<and>
        reply_wf rhs p ar \<and>
        checked (crypto E) code names (rhs, p, ar) auth1 =
          (Ok \<lparr>rr_handles = rhs, rr_params = p\<rparr>, fst st') \<and>
        snd st' = m1\<lparr>transport := t\<rparr>)"

lemma answered_run:
  assumes P: "purecrypto_ok (crypto E)" and fits: "request_fits hs params"
    and a: "answered E code hs names params st rhs p st'"
  shows "run E code hs names params (length rhs) st = (Ok \<lparr>rr_handles = rhs, rr_params = p\<rparr>, st')"
proof -
  obtain auth m auth' m' where st: "st = (auth, m)" "st' = (auth', m')"
    by (cases st; cases st')
  from a obtain ac auth1 m1 t ar where x: "authorize E code names params (auth, m) = (Ok ac, (auth1, m1))"
      "transmit E (request code hs ac params) (transport m1) = (Ok (reply rhs p ar), t)"
      "reply_wf rhs p ar"
      "checked (crypto E) code names (rhs, p, ar) auth1 = (Ok \<lparr>rr_handles = rhs, rr_params = p\<rparr>, auth')"
      "m' = m1\<lparr>transport := t\<rparr>"
    unfolding answered_def st by auto
  show ?thesis
    unfolding st using run_reply [OF P fits x(3,1,2)] x(4,5) by simp
qed

text \<open>Parsing the parameters of a reply.\<close>

lemma unmarshal_params_reads:
  "reads p bs a \<Longrightarrow> unmarshal_params p (bs @ rest) s = (Ok a, s)"
  by (simp add: unmarshal_params_def reads_new eff_simps)

lemma unmarshal_params_bounded:
  assumes "safe_parser p"
  shows "returns (fst (unmarshal_params p bs s)) \<and> snd (unmarshal_params p bs s) = s"
  using assms by (simp add: unmarshal_params_def safe_parser_def eff_simps)

text \<open>The handles of a success are as many as were asked for: indexing them cannot panic.\<close>

lemma run_handles:
  assumes P: "purecrypto_ok (crypto E)" and fits: "request_fits hs params"
    and ok: "run E code hs names params k st = (Ok rr, st')"
  shows "length (rr_handles rr) = k"
proof -
  obtain auth m auth' m' where st: "st = (auth, m)" "st' = (auth', m')" by (cases st; cases st')
  obtain resp auth1 where "parse_response (crypto E) code resp names k auth1 = (Ok rr, auth')"
    using run_Ok [OF P fits ok [unfolded st]] by metis
  then show ?thesis by (rule parse_Ok [OF P])
qed

lemma run_plain_handles:
  assumes "purecrypto_ok (crypto E)" "request_fits hs params"
    "run_plain E code hs names params k m = (Ok rr, m')"
  shows "length (rr_handles rr) = k"
proof -
  obtain a where "run E code hs names params k (AuthNone, m) = (Ok rr, (a, m'))"
    using assms(3) by (auto simp: run_plain_def split: prod.splits)
  then show ?thesis by (rule run_handles [OF assms(1,2)])
qed

section \<open>Parameter areas\<close>

lemma create_params_eq:
  "create_params s pub =
     (if fits_tpm2b (wire_SensitiveCreate s) then tpm2b (wire_SensitiveCreate s) else []) @
     (if fits_tpm2b (wire_Public pub) then tpm2b (wire_Public pub) else []) @
     [0, 0, 0, 0, 0, 0]"
proof -
  have z: "to_be_bytes (0 :: 32 word) = [0, 0, 0, 0]" "to_be_bytes (0 :: 16 word) = [0, 0]"
    by (simp_all add: to_be_bytes_def upt_rec)
  show ?thesis
    by (simp add: create_params_def SensitiveCreate_wrap_2b_eq Public_wrap_2b_eq marshal_tpm2b_ok_eq
        fits_tpm2b_def [of "[]"] marshal_PcrSelectionList_def marshal_prim_def tpm2b_def [of "[]"] z)
qed

text \<open>A decoder of the shared parameters of \<open>TPM2_Create\<close> and \<open>TPM2_CreatePrimary\<close>.\<close>

definition parse_sized :: "'a parser \<Rightarrow> 'a parser" where
  "parse_sized p = bindE read_tpm2b (\<lambda>d. case parse_all p d of
     Some a \<Rightarrow> ret a | None \<Rightarrow> raise (Malformed ''sized structure''))"

definition parse_create_params :: "(SensitiveCreate \<times> Public \<times> Buffer \<times> PcrSelectionList) parser" where
  "parse_create_params = bindE (parse_sized parse_SensitiveCreate) (\<lambda>s.
     bindE (parse_sized parse_Public) (\<lambda>pub. bindE unmarshal_Buffer (\<lambda>info.
     bindE unmarshal_PcrSelectionList (\<lambda>pcrs. ret (s, pub, info, pcrs)))))"

lemma reads_sized:
  assumes "reads p d a" "fits_tpm2b d"
  shows "reads (parse_sized p) (tpm2b d) a"
proof -
  have "reads (parse_sized p) (tpm2b d @ []) a"
    unfolding parse_sized_def
    by (rule reads_bindE [OF reads_tpm2b [OF assms(2)]])
      (simp add: parse_all_reads [OF assms(1)] reads_ret)
  then show ?thesis by simp
qed

lemma reads_create_params:
  assumes "SensitiveCreate_wf s" "fits_tpm2b (wire_SensitiveCreate s)"
    and "Public_wf pub" "fits_tpm2b (wire_Public pub)"
  shows "reads parse_create_params (create_params s pub) (s, pub, Buffer_empty, PcrSelectionList [])"
proof -
  have e: "reads unmarshal_Buffer (wire_Buffer Buffer_empty) Buffer_empty"
    by (rule reads_Buffer) (simp add: Buffer_wf_def Buffer_empty_def fits_tpm2b_def)
  have l: "reads unmarshal_PcrSelectionList (to_bytes marshal_PcrSelectionList (PcrSelectionList []))
      (PcrSelectionList [])"
    by (rule codec_PcrSelectionList.reads_marshal) (simp add: PcrSelectionList_wf_def)
  have "reads parse_create_params (tpm2b (wire_SensitiveCreate s) @ tpm2b (wire_Public pub) @
      wire_Buffer Buffer_empty @ to_bytes marshal_PcrSelectionList (PcrSelectionList []) @ [])
      (s, pub, Buffer_empty, PcrSelectionList [])"
    unfolding parse_create_params_def
    by (rule reads_bindE, rule reads_sized, rule reads_SensitiveCreate, rule assms, rule assms,
        rule reads_bindE, rule reads_sized, rule reads_Public, rule assms, rule assms)
      (rule reads_bindE e l reads_ret)+
  also have "tpm2b (wire_SensitiveCreate s) @ tpm2b (wire_Public pub) @ wire_Buffer Buffer_empty @
      to_bytes marshal_PcrSelectionList (PcrSelectionList []) @ [] = create_params s pub"
  proof -
    have z: "to_be_bytes (0 :: 32 word) = [0, 0, 0, 0]" "to_be_bytes (0 :: 16 word) = [0, 0]"
      by (simp_all add: to_be_bytes_def upt_rec)
    show ?thesis
      by (simp add: create_params_eq assms to_bytes_PcrSelectionList wire_Buffer_def Buffer_wf_def
          Buffer_empty_def fits_tpm2b_def [of "[]"] tpm2b_def [of "[]"] z)
  qed
  finally show ?thesis .
qed

lemma digest_values_eq:
  "digest_values ds = to_be_bytes (of_nat (length ds) :: 32 word) @
     concat (map (\<lambda>(alg, d). to_be_bytes (alg_raw alg) @ d) ds)"
proof -
  have "fold (\<lambda>(alg, dig) p. marshal_Alg alg p @ dig) ds out =
      out @ concat (map (\<lambda>(alg, d). to_be_bytes (alg_raw alg) @ d) ds)" for out
    by (induction ds arbitrary: out) (auto simp: marshal_Alg_eq)
  then show ?thesis by (simp add: digest_values_def marshal_prim_def)
qed

text \<open>
  The decoder of \<open>TPML_DIGEST_VALUES\<close>: a digest's length follows from its algorithm.
\<close>

definition parse_digest_value :: "(Alg \<times> bytes) parser" where
  "parse_digest_value = bindE unmarshal_Alg (\<lambda>alg. case hash_fn_of alg of
     None \<Rightarrow> raise (Malformed ''unknown bank'')
   | Some d \<Rightarrow> bindE (take_bytes (hash_len d)) (\<lambda>b. ret (alg, b)))"

definition parse_digest_values :: "(Alg \<times> bytes) list parser" where
  "parse_digest_values = bindE read_u32 (\<lambda>n. read_times (unat n) parse_digest_value)"

definition digests_wf :: "(Alg \<times> bytes) list \<Rightarrow> bool" where
  "digests_wf ds \<longleftrightarrow> length ds < 2 ^ 32 \<and>
     list_all (\<lambda>(alg, b). \<exists>d. hash_fn_of alg = Some d \<and> length b = hash_len d) ds"

lemma reads_digest_values:
  assumes "digests_wf ds"
  shows "reads parse_digest_values (digest_values ds) ds"
proof -
  let ?enc = "\<lambda>(alg, d). to_be_bytes (alg_raw alg) @ d"
  have one: "reads parse_digest_value (?enc x) x" if x: "x \<in> set ds" for x
  proof -
    obtain alg b where ab: "x = (alg, b)" by (cases x)
    then obtain d where d: "hash_fn_of alg = Some d" "length b = hash_len d"
      using x assms by (auto simp: digests_wf_def list_all_iff)
    have "reads (bindE (take_bytes (hash_len d)) (\<lambda>b. ret (alg, b))) (b @ []) (alg, b)"
      by (rule reads_rules d)+
    then show ?thesis
      unfolding parse_digest_value_def ab
      by (simp add: d) (rule reads_bindE [OF reads_newtypes(1)], simp add: d)
  qed
  have n: "unat (of_nat (length ds) :: 32 word) = length ds"
    using assms by (simp add: digests_wf_def unat_of_nat_u32)
  show ?thesis
    unfolding parse_digest_values_def digest_values_eq
    by (rule reads_bindE [OF reads_read_prim(4)]) (use reads_read_times [OF one] in \<open>simp add: n\<close>)
qed

section \<open>Commands return\<close>

lemma fits_small: "length params \<le> 262144 \<Longrightarrow> length hs \<le> 2 \<Longrightarrow> request_fits hs params"
  by (simp add: request_fits_def)

lemma length_create_params: "length (create_params s pub) \<le> 131080"
  by (simp add: create_params_eq length_tpm2b fits_tpm2b_def)

lemma length_single: "length (pcr_select (PcrSelection_single h i)) = max 3 (unat (i div 8) + 1)"
  by (simp add: PcrSelection_single_def Let_def max_def del: replicate_Suc)

lemma single_hash [simp]: "pcr_hash (PcrSelection_single h i) = h"
  by (simp add: PcrSelection_single_def Let_def)

lemma single_bit:
  assumes "i < 8 * length (pcr_select (PcrSelection_single h pcr))"
  shows "bit (pcr_select (PcrSelection_single h pcr) ! (i div 8)) (i mod 8) \<longleftrightarrow> i = unat pcr"
proof -
  let ?b = "unat pcr div 8" and ?sel = "pcr_select (PcrSelection_single h pcr)"
  have b: "unat (pcr div 8) = ?b" "unat (pcr mod 8) = unat pcr mod 8" by (simp_all add: unat_div unat_mod)
  have len: "length ?sel = max 3 (?b + 1)" using length_single [of h pcr] b by simp
  have nth: "?sel ! j = (if j = ?b then push_bit (unat pcr mod 8) 1 else 0)" if "j < length ?sel" for j
    using that unfolding len
    by (auto simp: PcrSelection_single_def Let_def b nth_append nth_list_update max_def
        simp del: replicate_Suc push_bit_of_1)
  have "i div 8 < length ?sel" using assms by (simp add: less_mult_imp_div_less mult.commute)
  then have "bit (?sel ! (i div 8)) (i mod 8) \<longleftrightarrow> i div 8 = ?b \<and> i mod 8 = unat pcr mod 8"
    by (subst nth) (auto simp: bit_exp_iff)
  also have "\<dots> \<longleftrightarrow> i = unat pcr" by (metis div_mult_mod_eq)
  finally show ?thesis .
qed

lemma single_fits: "request_fits [] (marshal_PcrSelectionList (PcrSelectionList [PcrSelection_single h i]) [])"
proof -
  have "unat (i div 8) < 2 ^ 8" using unsigned_less [of "i div 8", where ?'a = nat] by simp
  then have "length (pcr_select (PcrSelection_single h i)) \<le> 257" by (simp add: length_single)
  then show ?thesis
    by (intro fits_small)
      (simp_all add: marshal_PcrSelectionList_def marshal_PcrSelection_def marshal_prim_def marshal_Alg_eq)
qed

lemma safe_tpm2b: "safe_parser read_tpm2b"
  by (rule safe_bounded [OF bounded_tpm2b])

lemma safe_creation: "safe_parser skip_tk_creation"
  by (rule safe_bounded [OF bounded_skip_tk_creation])

lemma unmarshal_params_returns: "safe_parser p \<Longrightarrow> returns (fst (unmarshal_params p bs s))"
  by (rule unmarshal_params_bounded [THEN conjunct1])

lemma index_returns:
  assumes "0 < length xs" "\<And>x. returns (fst (f x s))"
  shows "returns (fst (bindE (lift_outcome (index_at xs 0)) f s))"
  using assms by (simp add: bindE_lift_Ok)

lemma Session_new_returns: "purecrypto_ok P \<Longrightarrow> returns (Session_new P h alg nt nc a b n salt)"
  by (simp add: Session_new_eq split: option.split)

lemma map_unit_returns: "returns (fst (m s)) \<Longrightarrow> returns (fst (bindE m (\<lambda>_. ret ()) s))"
  by (intro returns_bindE) (auto simp: ret_simp)

context transport_link
begin

lemma run_then:
  assumes E: "transmit E = send" and P: "purecrypto_ok (crypto E)" and m: "live (transport (snd st))"
    and fits: "request_fits hs params"
    and f: "\<And>rr st'. length (rr_handles rr) = k \<Longrightarrow> returns (fst (f rr st'))"
  shows "returns (fst (bindE (run E code hs names params k) f st))"
proof (rule returns_bindE)
  show "returns (fst (run E code hs names params k st))"
    using run_returns [OF E P fits m, of code names k "fst st"] by simp
  show "returns (fst (f rr st'))" if "run E code hs names params k st = (Ok rr, st')" for rr st'
    using f run_handles [OF P fits that] .
qed

lemma run_plain_returns:
  assumes "transmit E = send" "purecrypto_ok (crypto E)" "live (transport m)" "request_fits hs params"
  shows "returns (fst (run_plain E code hs names params k m))"
  using run_returns [OF assms(1,2,4,3), of code names k AuthNone]
  by (simp add: run_plain_def case_prod_beta)

lemma run_plain_then:
  assumes E: "transmit E = send" and P: "purecrypto_ok (crypto E)" and m: "live (transport m)"
    and fits: "request_fits hs params"
    and f: "\<And>rr m'. length (rr_handles rr) = k \<Longrightarrow> returns (fst (f rr m'))"
  shows "returns (fst (bindE (run_plain E code hs names params k) f m))"
  using run_plain_returns [OF E P m fits] f run_plain_handles [OF P fits]
  by (intro returns_bindE) blast+

lemma plain_commands_return:
  assumes E: "transmit E = send" and P: "purecrypto_ok (crypto E)" and m: "live (transport m)"
  shows "returns (fst (startup E ty m))" "returns (fst (shutdown E ty m))"
    "returns (fst (self_test E full m))" "returns (fst (get_random E n m))"
    "returns (fst (stir_random E data m))" "returns (fst (get_capability E c prop count m))"
    "returns (fst (flush_context E h m))"
proof -
  note intros = run_plain_then [OF E P m] map_unit_returns run_plain_returns [OF E P m] fits_small
  show "returns (fst (startup E ty m))" "returns (fst (shutdown E ty m))"
    "returns (fst (self_test E full m))" "returns (fst (flush_context E h m))"
    unfolding startup_def shutdown_def self_test_def flush_context_def Let_def
    by (intro intros; simp add: marshal_prim_def marshal_Handle_def)+
  show "returns (fst (get_random E n m))"
    unfolding get_random_def Let_def
    by (intro intros unmarshal_params_returns safe_tpm2b) (simp_all add: marshal_prim_def)
  show "returns (fst (stir_random E data m))"
  proof (cases "length data > 128")
    case False
    then have "fits_tpm2b data" by (simp add: fits_tpm2b_def)
    then show ?thesis
      unfolding stir_random_def marshal_tpm2b_eq using False
      by (simp add: bindE_lift_Ok) (intro intros; simp add: length_tpm2b)
  qed (simp add: stir_random_def raise_simp)
  have "safe_parser (bindE read_u8 (\<lambda>more. bindE read_u32 (\<lambda>cap. bindE (bindE remaining take_bytes)
      (\<lambda>data. ret \<lparr>cd_more = more \<noteq> 0, cd_capability = cap, cd_data = data\<rparr>))))"
    by (intro safe_bindE safe_bounded [OF bounded_read_prim(1)] safe_bounded [OF bounded_read_prim(3)]
        safe_rest safe_ret)
  then show "returns (fst (get_capability E c prop count m))"
    unfolding get_capability_def Let_def
    by (intro intros unmarshal_params_returns) (simp_all add: marshal_prim_def)
qed

lemma start_auth_session_returns:
  assumes E: "transmit E = send" and P: "purecrypto_ok (crypto E)" and m: "live (transport m)"
  shows "returns (fst (start_auth_session E alg nonce m))"
proof (cases "fits_tpm2b nonce")
  case True
  have e: "fits_tpm2b []" by (simp add: fits_tpm2b_def)
  have params: "length (marshal_Alg alg (marshal_SymDefObject sym_null ((tpm2b nonce @ tpm2b []) @ [se_HMAC]))) \<le> 262144"
    using True by (simp add: marshal_Alg_eq marshal_SymDefObject_eq wire_SymDefObject_def sym_null_def
        length_tpm2b fits_tpm2b_def)
  have tail: "returns (fst (bindE (unmarshal_params read_tpm2b (rr_params rr)) (\<lambda>nonce_t.
      lift_outcome (Session_new (crypto E) h alg nonce_t nonce sa_continue_session [] [] [])) m'))"
    for rr :: RawResponse and h m'
    by (intro returns_bindE unmarshal_params_returns safe_tpm2b)
      (simp add: lift_outcome_simp Session_new_returns [OF P])
  show ?thesis
    unfolding start_auth_session_def Let_def marshal_tpm2b_eq if_P [OF True] if_P [OF e] prod.case bindE_lift_Ok append_Nil
    by (rule run_plain_then [OF E P m fits_small [OF params]], simp, rule index_returns, simp, rule tail)
qed (simp add: start_auth_session_def marshal_tpm2b_eq eff_simps)

lemma start_hmac_session_returns:
  assumes E: "transmit E = send" and P: "purecrypto_ok (crypto E)" and m: "live (transport m)"
  shows "returns (fst (start_hmac_session E alg m))"
proof (cases "hash_fn_of alg")
  case None
  then show ?thesis by (simp add: start_hmac_session_def crypto_digest_size_eq eff_simps)
next
  case (Some d)
  obtain b g where "os_fill (crypto E) (os_rng m) (hash_len d) = (b, g)" by (metis prod.exhaust)
  then have "start_hmac_session E alg m = start_auth_session E alg b (m\<lparr>os_rng := g\<rparr>)"
    by (simp add: start_hmac_session_def crypto_digest_size_eq Some bindE_lift_Ok bindE_def)
  then show ?thesis using start_auth_session_returns [OF E P] m by simp
qed

lemma object_commands_return:
  assumes E: "transmit E = send" and P: "purecrypto_ok (crypto E)" and m: "live (transport (snd st))"
  shows "returns (fst (create_primary E h s pub st))" "returns (fst (create E h n s pub st))"
    "returns (fst (load E h n prv pb st))" "returns (fst (unseal E h n st))"
proof -
  note onward = run_then [OF E P m]
  have cp: "request_fits [h] (create_params s pub)"
    using length_create_params [of s pub] by (intro fits_small) simp_all
  have ld: "request_fits [h] (marshal_Buffer pb (marshal_Buffer prv []))"
    by (rule fits_small) (simp_all add: marshal_Buffer_eq wire_Buffer_def Buffer_wf_def length_tpm2b fits_tpm2b_def)
  show "returns (fst (create_primary E h s pub st))"
    unfolding create_primary_def Let_def
    by (rule onward [OF cp], rule index_returns, simp)
      (intro unmarshal_params_returns safe_bindE safe_tpm2b safe_creation safe_ret)
  show "returns (fst (create E h n s pub st))"
    unfolding create_def Let_def
    by (rule onward [OF cp]) (intro unmarshal_params_returns safe_bindE safe_tpm2b safe_ret)
  show "returns (fst (load E h n prv pb st))"
    unfolding load_def Let_def
    by (rule onward [OF ld], rule index_returns, simp)
      (intro unmarshal_params_returns safe_bindE safe_tpm2b safe_ret)
  show "returns (fst (unseal E h n st))"
    unfolding unseal_def
    by (rule onward [OF fits_small]) (auto intro: unmarshal_params_returns safe_tpm2b)
qed

lemma pcr_commands_return:
  assumes E: "transmit E = send" and P: "purecrypto_ok (crypto E)"
  shows "live (transport m) \<Longrightarrow> request_fits [] (marshal_PcrSelectionList sel []) \<Longrightarrow>
      returns (fst (pcr_read E sel m))"
    and "live (transport m) \<Longrightarrow> returns (fst (pcr_read_one E bank i m))"
    and "live (transport (snd st)) \<Longrightarrow> request_fits [Handle pcr] (digest_values ds) \<Longrightarrow>
      returns (fst (pcr_extend E pcr ds st))"
proof -
  have read: "returns (fst (pcr_read E sel m))"
    if m: "live (transport m)" and fits: "request_fits [] (marshal_PcrSelectionList sel [])" for sel
    unfolding pcr_read_def Let_def unmarshal_from_def
    by (rule run_plain_then [OF E P m fits])
      (intro unmarshal_params_returns safe_bindE safe_ret safe_bounded [OF bounded_read_prim(3)]
        safe_bounded [OF codec_PcrSelectionList.unmarshal_bounded] safe_bounded [OF bounded_digest_list])
  show "live (transport m) \<Longrightarrow> request_fits [] (marshal_PcrSelectionList sel []) \<Longrightarrow>
      returns (fst (pcr_read E sel m))"
    by (rule read)
  show "returns (fst (pcr_extend E pcr ds st))"
    if "live (transport (snd st))" "request_fits [Handle pcr] (digest_values ds)"
    unfolding pcr_extend_def Let_def
    by (rule run_then [OF E P that]) (simp add: ret_simp)
  show "live (transport m) \<Longrightarrow> returns (fst (pcr_read_one E bank i m))"
    unfolding pcr_read_one_def by (intro returns_bindE read single_fits) (auto simp: ret_simp)
qed

end

end
