(* ===== verification/Transports.thy ===== *)
theory Transports
  imports Commands
begin

text \<open>
  The two backends of \<open>src/src/transport/\<close>: the Linux character device and the simulator's
  TCP framing. Files and sockets of the standard library are records of their \<open>write\<close>,
  \<open>flush\<close> and \<open>read\<close>; \<open>write_all\<close> and \<open>read_exact\<close> are the loops the library documents over
  them, with their retries on \<open>Interrupted\<close>. The contract of a stream is a locale, interpreted
  on a device that answers commands and on a socket that fragments at will.
\<close>

section \<open>Standard library input and output\<close>

datatype io_error = Interrupted (io_text: string) | Failed (io_text: string)

text \<open>
  \<open>io_write\<close> takes a prefix of the buffer and returns its length; \<open>io_read n\<close> returns at most
  \<open>n\<close> bytes, none at the end of the stream.
\<close>

record 's io =
  io_write :: "bytes \<Rightarrow> ('s, io_error, nat) eff"
  io_flush :: "('s, io_error, unit) eff"
  io_read :: "nat \<Rightarrow> ('s, io_error, bytes) eff"

partial_function (option) write_all_loop ::
  "'s io \<Rightarrow> bytes \<Rightarrow> 's \<Rightarrow> ((io_error, unit) outcome \<times> 's) option" where
  "write_all_loop D b s =
     (if b = [] then Some (Ok (), s)
      else case io_write D b s of (x, s') \<Rightarrow> (case x of
          Ok n \<Rightarrow>
            if n = 0 then Some (Err (Failed ''failed to write whole buffer''), s')
            else if n \<le> length b then write_all_loop D (drop n b) s'
            else Some (Panic, s')
        | Err e \<Rightarrow> (case e of
            Interrupted m \<Rightarrow> write_all_loop D b s'
          | Failed m \<Rightarrow> Some (Err (Failed m), s'))
        | Panic \<Rightarrow> Some (Panic, s')
        | Loop \<Rightarrow> None))"

partial_function (option) read_exact_loop ::
  "'s io \<Rightarrow> nat \<Rightarrow> bytes \<Rightarrow> 's \<Rightarrow> ((io_error, bytes) outcome \<times> 's) option" where
  "read_exact_loop D n acc s =
     (if n = 0 then Some (Ok acc, s)
      else case io_read D n s of (x, s') \<Rightarrow> (case x of
          Ok r \<Rightarrow>
            if r = [] then Some (Err (Failed ''failed to fill whole buffer''), s')
            else if length r \<le> n then read_exact_loop D (n - length r) (acc @ r) s'
            else Some (Panic, s')
        | Err e \<Rightarrow> (case e of
            Interrupted m \<Rightarrow> read_exact_loop D n acc s'
          | Failed m \<Rightarrow> Some (Err (Failed m), s'))
        | Panic \<Rightarrow> Some (Panic, s')
        | Loop \<Rightarrow> None))"

text \<open>A loop that does not end is the outcome \<open>Loop\<close>.\<close>

definition write_all :: "'s io \<Rightarrow> bytes \<Rightarrow> ('s, io_error, unit) eff" where
  "write_all D b s = (case write_all_loop D b s of None \<Rightarrow> (Loop, s) | Some r \<Rightarrow> r)"

definition read_exact :: "'s io \<Rightarrow> nat \<Rightarrow> ('s, io_error, bytes) eff" where
  "read_exact D n s = (case read_exact_loop D n [] s of None \<Rightarrow> (Loop, s) | Some r \<Rightarrow> r)"

text \<open>\<open>.map_err(f)\<close> on a stateful computation, and a computation on a part of the state.\<close>

definition map_err_eff :: "('e \<Rightarrow> 'f) \<Rightarrow> ('s, 'e, 'a) eff \<Rightarrow> ('s, 'f, 'a) eff" where
  "map_err_eff g f s = (case f s of (x, s') \<Rightarrow> (map_err g x, s'))"

definition transport_error :: "string \<Rightarrow> io_error \<Rightarrow> Error" where
  "transport_error prefix e = Transport (prefix @ io_text e)"

section \<open>The device\<close>

record 's DeviceTransport =
  dev_file :: 's

definition device_MAX_RESPONSE :: nat where
  "device_MAX_RESPONSE = 4096"

text \<open>\<open>OpenOptions::open\<close> for reading and writing belongs to the file system: a parameter.\<close>

definition device_open ::
  "(string \<Rightarrow> ('w, io_error, 's) eff) \<Rightarrow> string \<Rightarrow> ('w, Error, 's DeviceTransport) eff" where
  "device_open fs path =
     bindE (map_err_eff (transport_error (''open '' @ path @ '': '')) (fs path))
       (\<lambda>f. ret \<lparr>dev_file = f\<rparr>)"

definition device_open_default ::
  "(string \<Rightarrow> ('w, io_error, 's) eff) \<Rightarrow> ('w, Error, 's DeviceTransport) eff" where
  "device_open_default fs = device_open fs ''/dev/tpmrm0''"

definition device_open_raw ::
  "(string \<Rightarrow> ('w, io_error, 's) eff) \<Rightarrow> ('w, Error, 's DeviceTransport) eff" where
  "device_open_raw fs = device_open fs ''/dev/tpm0''"

definition on_file :: "('s, 'e, 'a) eff \<Rightarrow> ('s DeviceTransport, 'e, 'a) eff" where
  "on_file f t = (case f (dev_file t) of (x, s) \<Rightarrow> (x, t\<lparr>dev_file := s\<rparr>))"

definition device_transmit :: "'s io \<Rightarrow> bytes \<Rightarrow> ('s DeviceTransport, Error, bytes) eff" where
  "device_transmit D command =
     bindE (on_file (map_err_eff (transport_error ''write command: '') (write_all D command))) (\<lambda>_.
     bindE (on_file (map_err_eff (transport_error []) (io_flush D))) (\<lambda>_.
     bindE (on_file (map_err_eff (transport_error ''read response: '') (io_read D device_MAX_RESPONSE)))
       (\<lambda>buf. if length buf = 0 then raise (Transport ''empty TPM response'') else ret buf)))"

section \<open>The simulator\<close>

definition TPM_SIGNAL_POWER_ON :: "32 word" where "TPM_SIGNAL_POWER_ON = 1"
definition TPM_SIGNAL_NV_ON :: "32 word" where "TPM_SIGNAL_NV_ON = 11"
definition TPM_SEND_COMMAND :: "32 word" where "TPM_SEND_COMMAND = 8"
definition TPM_SESSION_END :: "32 word" where "TPM_SESSION_END = 20"

definition DEFAULT_ADDR :: string where
  "DEFAULT_ADDR = ''127.0.0.1:2321''"

definition DEFAULT_PLATFORM_ADDR :: string where
  "DEFAULT_PLATFORM_ADDR = ''127.0.0.1:2322''"

definition sim_MAX_RESPONSE :: nat where
  "sim_MAX_RESPONSE = 2 ^ 20"

record 's SimulatorTransport =
  sim_cmd :: 's
  sim_platform :: "'s option"
  sim_locality :: byte

definition write_u32 :: "'s io \<Rightarrow> 32 word \<Rightarrow> ('s, Error, unit) eff" where
  "write_u32 D v = map_err_eff (transport_error []) (write_all D (to_be_bytes v))"

definition stream_read_u32 :: "'s io \<Rightarrow> ('s, Error, 32 word) eff" where
  "stream_read_u32 D = bindE (map_err_eff (transport_error []) (read_exact D 4))
     (\<lambda>b. ret (from_be_bytes b))"

text \<open>
  \<open>TcpStream::connect\<close> is a parameter; the result of \<open>set_nodelay\<close> is dropped by the code.
\<close>

definition sim_connect ::
  "(string \<Rightarrow> ('w, io_error, 's) eff) \<Rightarrow> string \<Rightarrow> ('w, Error, 's SimulatorTransport) eff" where
  "sim_connect net addr =
     bindE (map_err_eff (transport_error ''connect: '') (net addr))
       (\<lambda>s. ret \<lparr>sim_cmd = s, sim_platform = None, sim_locality = 0\<rparr>)"

definition sim_connect_default ::
  "(string \<Rightarrow> ('w, io_error, 's) eff) \<Rightarrow> ('w, Error, 's SimulatorTransport) eff" where
  "sim_connect_default net = sim_connect net DEFAULT_ADDR"

definition sim_connect_mssim ::
  "(string \<Rightarrow> ('w, io_error, 's) eff) \<Rightarrow> string \<Rightarrow> string \<Rightarrow> ('w, Error, 's SimulatorTransport) eff" where
  "sim_connect_mssim net cmd_addr platform_addr =
     bindE (sim_connect net cmd_addr) (\<lambda>t.
     bindE (map_err_eff (transport_error ''connect platform: '') (net platform_addr)) (\<lambda>p.
     ret (t\<lparr>sim_platform := Some p\<rparr>)))"

definition sim_connect_mssim_default ::
  "(string \<Rightarrow> ('w, io_error, 's) eff) \<Rightarrow> ('w, Error, 's SimulatorTransport) eff" where
  "sim_connect_mssim_default net = sim_connect_mssim net DEFAULT_ADDR DEFAULT_PLATFORM_ADDR"

definition sim_set_locality :: "byte \<Rightarrow> 's SimulatorTransport \<Rightarrow> 's SimulatorTransport" where
  "sim_set_locality l t = t\<lparr>sim_locality := l\<rparr>"

definition on_cmd :: "('s, 'e, 'a) eff \<Rightarrow> ('s SimulatorTransport, 'e, 'a) eff" where
  "on_cmd f t = (case f (sim_cmd t) of (x, s) \<Rightarrow> (x, t\<lparr>sim_cmd := s\<rparr>))"

definition platform_signal :: "'s io \<Rightarrow> 32 word \<Rightarrow> ('s SimulatorTransport, Error, unit) eff" where
  "platform_signal D code t = (case sim_platform t of
       None \<Rightarrow> (Err (Usage ''no platform socket; connect with connect_mssim (swtpm uses --flags startup-clear instead)''), t)
     | Some p \<Rightarrow>
         (case bindE (write_u32 D code) (\<lambda>_. bindE (stream_read_u32 D) (\<lambda>rc.
             if rc \<noteq> 0 then raise (Transport (''simulator platform signal '' @ show_dec (unat code) @
               '' failed: rc='' @ show_dec (unat rc)))
             else ret ())) p of
           (x, p') \<Rightarrow> (x, t\<lparr>sim_platform := Some p'\<rparr>)))"

definition power_on :: "'s io \<Rightarrow> ('s SimulatorTransport, Error, unit) eff" where
  "power_on D = bindE (platform_signal D TPM_SIGNAL_POWER_ON) (\<lambda>_.
     bindE (platform_signal D TPM_SIGNAL_NV_ON) (\<lambda>_. ret ()))"

definition session_end :: "'s io \<Rightarrow> ('s SimulatorTransport, Error, unit) eff" where
  "session_end D = on_cmd (write_u32 D TPM_SESSION_END)"

definition sim_transmit :: "'s io \<Rightarrow> bytes \<Rightarrow> ('s SimulatorTransport, Error, bytes) eff" where
  "sim_transmit D command t = on_cmd
     (bindE (write_u32 D TPM_SEND_COMMAND) (\<lambda>_.
      bindE (map_err_eff (transport_error []) (write_all D [sim_locality t])) (\<lambda>_.
      bindE (write_u32 D (of_nat (length command))) (\<lambda>_.
      bindE (map_err_eff (transport_error ''write command: '') (write_all D command)) (\<lambda>_.
      bindE (map_err_eff (transport_error []) (io_flush D)) (\<lambda>_.
      bindE (stream_read_u32 D) (\<lambda>len.
      if unat len > sim_MAX_RESPONSE then
        raise (Transport (''simulator response too large: '' @ show_dec (unat len) @ '' bytes''))
      else bindE (map_err_eff (transport_error ''read response: '') (read_exact D (unat len))) (\<lambda>resp.
      bindE (stream_read_u32 D) (\<lambda>rc.
      if rc \<noteq> 0 then raise (Transport (''simulator send failed: rc='' @ show_dec (unat rc)))
      else ret resp))))))))) t"

text \<open>\<open>impl Transport for &mut T\<close>: the call goes to the borrowed transport.\<close>

definition borrowed_transmit :: "(bytes \<Rightarrow> ('t, Error, bytes) eff) \<Rightarrow> bytes \<Rightarrow> ('t, Error, bytes) eff" where
  "borrowed_transmit send command = send command"

section \<open>Streams that return\<close>

lemma map_err_eff_returns [simp]: "returns (fst (map_err_eff g f s)) \<longleftrightarrow> returns (fst (f s))"
  by (cases "fst (f s)") (simp_all add: map_err_eff_def case_prod_beta)

text \<open>
  A call of a patient stream returns within its buffer, and it is not interrupted for ever:
  each interruption uses up some of its \<open>patience\<close>.
\<close>

locale patient_io =
  fixes D :: "'s io" and patience :: "'s \<Rightarrow> nat"
  assumes write_calm: "io_write D b s = (x, s') \<Longrightarrow> returns x \<and> patience s' \<le> patience s \<and>
      (\<forall>m. x = Err (Interrupted m) \<longrightarrow> patience s' < patience s) \<and> (\<forall>n. x = Ok n \<longrightarrow> n \<le> length b)"
    and read_calm: "io_read D n s = (y, s') \<Longrightarrow> returns y \<and> patience s' \<le> patience s \<and>
      (\<forall>m. y = Err (Interrupted m) \<longrightarrow> patience s' < patience s) \<and> (\<forall>r. y = Ok r \<longrightarrow> length r \<le> n)"
    and flush_returns: "returns (fst (io_flush D s))"
begin

lemma write_loop_ends: "\<exists>x s'. write_all_loop D b s = Some (x, s') \<and> returns x"
proof (induction "patience s + length b" arbitrary: b s rule: less_induct)
  case less
  obtain x s' where w: "io_write D b s = (x, s')" by (cases "io_write D b s")
  note calm = write_calm [OF w]
  show ?case
  proof (cases "b = []")
    case True
    then show ?thesis by (simp add: write_all_loop.simps)
  next
    case False
    note loop = write_all_loop.simps [of D b s]
    show ?thesis
    proof (cases x)
      case (Ok n)
      have "\<exists>x s''. write_all_loop D (drop n b) s' = Some (x, s'') \<and> returns x" if "0 < n"
        using calm that False by (intro less) (cases b; auto)
      then show ?thesis using False calm by (simp add: loop w Ok)
    next
      case (Err e)
      show ?thesis
      proof (cases e)
        case (Interrupted m)
        then have "\<exists>x s''. write_all_loop D b s' = Some (x, s'') \<and> returns x"
          using calm Err by (intro less) simp
        then show ?thesis using False by (simp add: loop w Err Interrupted)
      qed (simp add: loop w Err False)
    qed (use calm in simp_all)
  qed
qed

lemma write_all_returns: "returns (fst (write_all D b s))"
  using write_loop_ends [of b s] by (auto simp: write_all_def)

lemma read_loop_ends: "\<exists>x s'. read_exact_loop D n acc s = Some (x, s') \<and> returns x"
proof (induction "patience s + n" arbitrary: n acc s rule: less_induct)
  case less
  obtain x s' where r: "io_read D n s = (x, s')" by (cases "io_read D n s")
  note calm = read_calm [OF r]
  show ?case
  proof (cases "n = 0")
    case True
    then show ?thesis by (simp add: read_exact_loop.simps)
  next
    case False
    note loop = read_exact_loop.simps [of D n acc s]
    show ?thesis
    proof (cases x)
      case (Ok b)
      have "\<exists>x s''. read_exact_loop D (n - length b) (acc @ b) s' = Some (x, s'') \<and> returns x" if "b \<noteq> []"
        using calm that False by (intro less) (cases b; auto)
      then show ?thesis using False calm Ok by (simp add: loop r)
    next
      case (Err e)
      show ?thesis
      proof (cases e)
        case (Interrupted m)
        then have "\<exists>x s''. read_exact_loop D n acc s' = Some (x, s'') \<and> returns x"
          using calm Err by (intro less) simp
        then show ?thesis using False by (simp add: loop r Err Interrupted)
      qed (simp add: loop r Err False)
    qed (use calm in simp_all)
  qed
qed

lemma read_exact_returns: "returns (fst (read_exact D n s))"
  using read_loop_ends [of n "[]" s] by (auto simp: read_exact_def)

lemma read_returns: "returns (fst (io_read D n s))"
  using read_calm [of n s] by (metis prod.collapse)

lemma u32_returns: "returns (fst (write_u32 D v s))" "returns (fst (stream_read_u32 D s))"
  unfolding write_u32_def stream_read_u32_def
  by (simp_all add: write_all_returns read_exact_returns returns_bindE ret_simp)

lemma on_file_returns: "returns (fst (f (dev_file t))) \<Longrightarrow> returns (fst (on_file f t))"
  by (simp add: on_file_def case_prod_beta)

lemma device_returns: "returns (fst (device_transmit D command t))"
  unfolding device_transmit_def
  by (intro returns_bindE on_file_returns)
    (auto simp: write_all_returns flush_returns read_returns ret_simp raise_simp)

lemma sim_returns: "returns (fst (sim_transmit D command t))"
proof -
  have cmd: "returns (fst (on_cmd f t))" if "returns (fst (f (sim_cmd t)))" for f :: "('s, Error, bytes) eff"
    using that by (simp add: on_cmd_def case_prod_beta)
  show ?thesis
    unfolding sim_transmit_def
    by (intro cmd returns_bindE u32_returns)
      (auto simp: write_all_returns flush_returns read_exact_returns ret_simp raise_simp
        intro!: returns_bindE u32_returns)
qed

lemma power_on_returns: "returns (fst (power_on D t))"
proof -
  have "returns (fst (platform_signal D code t))" for code t
  proof (cases "sim_platform t")
    case (Some p)
    have "returns (fst (bindE (write_u32 D code) (\<lambda>_. bindE (stream_read_u32 D) (\<lambda>rc.
        if rc \<noteq> 0 then raise (Transport (''simulator platform signal '' @ show_dec (unat code) @
          '' failed: rc='' @ show_dec (unat rc))) else ret ())) p))"
      by (intro returns_bindE u32_returns) (simp add: ret_simp raise_simp)
    then show ?thesis by (simp add: platform_signal_def Some case_prod_beta)
  qed (simp add: platform_signal_def)
  then show ?thesis unfolding power_on_def by (intro returns_bindE) (simp_all add: ret_simp)
qed

end

sublocale patient_io \<subseteq> device: transport_link "device_transmit D" "\<lambda>_. True"
  by unfold_locales (simp_all add: device_returns)

sublocale patient_io \<subseteq> sim: transport_link "sim_transmit D" "\<lambda>_. True"
  by unfold_locales (simp_all add: sim_returns)

section \<open>Streams that deliver\<close>

text \<open>
  The computation sends and consumes exactly these bytes, whatever follows on the stream.
  \<open>inp\<close> is what the stream will deliver, \<open>out\<close> what it has taken, \<open>still\<close> what is behind it.
\<close>

definition exchanges ::
  "('s \<Rightarrow> bytes) \<Rightarrow> ('s \<Rightarrow> bytes) \<Rightarrow> ('s \<Rightarrow> 'k) \<Rightarrow> ('s, 'e, 'a) eff \<Rightarrow> bytes \<Rightarrow> bytes \<Rightarrow> 'a \<Rightarrow> bool" where
  "exchanges inp out still f snt rcv a \<longleftrightarrow>
     (\<forall>s rest. inp s = rcv @ rest \<longrightarrow>
       (\<exists>s'. f s = (Ok a, s') \<and> out s' = out s @ snt \<and> inp s' = rest \<and> still s' = still s))"

lemma exchangesD:
  "exchanges inp out still f snt rcv a \<Longrightarrow> inp s = rcv @ rest \<Longrightarrow>
    \<exists>s'. f s = (Ok a, s') \<and> out s' = out s @ snt \<and> inp s' = rest \<and> still s' = still s"
  by (simp add: exchanges_def)

lemma exchanges_ret: "exchanges inp out still (ret a) [] [] a"
  by (simp add: exchanges_def ret_simp)

lemma exchanges_bindE:
  assumes "exchanges inp out still f o1 i1 a" "exchanges inp out still (g a) o2 i2 b"
  shows "exchanges inp out still (bindE f g) (o1 @ o2) (i1 @ i2) b"
  unfolding exchanges_def
proof (intro allI impI)
  fix s rest assume "inp s = (i1 @ i2) @ rest"
  then obtain s' where 1: "f s = (Ok a, s')" "out s' = out s @ o1" "inp s' = i2 @ rest" "still s' = still s"
    using exchangesD [OF assms(1), of s "i2 @ rest"] by auto
  obtain s'' where "g a s' = (Ok b, s'')" "out s'' = out s' @ o2" "inp s'' = rest" "still s'' = still s'"
    using exchangesD [OF assms(2) 1(3)] by blast
  then show "\<exists>s'. bindE f g s = (Ok b, s') \<and> out s' = out s @ o1 @ o2 \<and> inp s' = rest \<and> still s' = still s"
    using 1 by (auto simp: bindE_def)
qed

lemma exchanges_map_err:
  "exchanges inp out still f snt rcv a \<Longrightarrow> exchanges inp out still (map_err_eff g f) snt rcv a"
  by (fastforce simp: exchanges_def map_err_eff_def)

text \<open>The two halves of a transmission, around the flush.\<close>

definition sim_send :: "'s io \<Rightarrow> byte \<Rightarrow> bytes \<Rightarrow> ('s, Error, unit) eff" where
  "sim_send D locality command =
     bindE (write_u32 D TPM_SEND_COMMAND) (\<lambda>_.
     bindE (map_err_eff (transport_error []) (write_all D [locality])) (\<lambda>_.
     bindE (write_u32 D (of_nat (length command))) (\<lambda>_.
     map_err_eff (transport_error ''write command: '') (write_all D command))))"

definition sim_receive :: "'s io \<Rightarrow> ('s, Error, bytes) eff" where
  "sim_receive D = bindE (stream_read_u32 D) (\<lambda>len.
     if unat len > sim_MAX_RESPONSE then
       raise (Transport (''simulator response too large: '' @ show_dec (unat len) @ '' bytes''))
     else bindE (map_err_eff (transport_error ''read response: '') (read_exact D (unat len))) (\<lambda>resp.
     bindE (stream_read_u32 D) (\<lambda>rc.
     if rc \<noteq> 0 then raise (Transport (''simulator send failed: rc='' @ show_dec (unat rc)))
     else ret resp)))"

lemma sim_transmit_halves:
  "sim_transmit D command t = on_cmd (bindE (sim_send D (sim_locality t) command) (\<lambda>_.
     bindE (map_err_eff (transport_error []) (io_flush D)) (\<lambda>_. sim_receive D))) t"
  by (simp add: sim_transmit_def sim_send_def sim_receive_def bindE_assoc)

text \<open>The reply protocol on the bytes as a whole, length, response, code: the result and the bytes left.\<close>

definition deframed :: "bytes \<Rightarrow> (Error, bytes) outcome \<times> bytes" where
  "deframed bs =
     (let n = unat (from_be_bytes (take 4 bs) :: 32 word); rc = from_be_bytes (take 4 (drop (4 + n) bs)) :: 32 word in
      if length bs < 4 then (Err (Transport ''failed to fill whole buffer''), [])
      else if n > 2 ^ 20 then (Err (Transport (''simulator response too large: '' @ show_dec n @ '' bytes'')), drop 4 bs)
      else if length bs < 4 + n then (Err (Transport ''read response: failed to fill whole buffer''), [])
      else if length bs < 8 + n then (Err (Transport ''failed to fill whole buffer''), [])
      else (if rc \<noteq> 0 then Err (Transport (''simulator send failed: rc='' @ show_dec (unat rc)))
        else Ok (take n (drop 4 bs)), drop (8 + n) bs))"

text \<open>One platform signal and powering on, in the same way: the result, the bytes left and the bytes sent.\<close>

definition signalled :: "32 word \<Rightarrow> bytes \<Rightarrow> (Error, unit) outcome \<times> bytes" where
  "signalled code bs =
     (let rc = from_be_bytes (take 4 bs) :: 32 word in
      (if length bs < 4 then Err (Transport ''failed to fill whole buffer'')
       else if rc \<noteq> 0 then Err (Transport (''simulator platform signal '' @ show_dec (unat code) @
         '' failed: rc='' @ show_dec (unat rc)))
       else Ok (), drop 4 bs))"

lemma signalled_result: "fst (signalled code bs) = Ok () \<or> (\<exists>e. fst (signalled code bs) = Err e)"
  by (simp add: signalled_def Let_def)

definition powered :: "bytes \<Rightarrow> (Error, unit) outcome \<times> bytes \<times> bytes" where
  "powered bs =
     (let (x, bs') = signalled TPM_SIGNAL_POWER_ON bs in
      if x = Ok () then
        let (y, bs'') = signalled TPM_SIGNAL_NV_ON bs' in
        (y, bs'', to_be_bytes TPM_SIGNAL_POWER_ON @ to_be_bytes TPM_SIGNAL_NV_ON)
      else (x, bs', to_be_bytes TPM_SIGNAL_POWER_ON))"

text \<open>
  A healthy channel makes progress with every call that is not interrupted: it takes a non-empty
  prefix of what is written and delivers the next bytes of what it holds.
\<close>

locale byte_channel = patient_io +
  fixes inp out :: "'a \<Rightarrow> bytes" and still :: "'a \<Rightarrow> 'k"
  assumes write_ok: "io_write D b s = (Ok n, s') \<Longrightarrow> b \<noteq> [] \<Longrightarrow>
      0 < n \<and> out s' = out s @ take n b \<and> inp s' = inp s \<and> still s' = still s"
    and write_err: "io_write D b s = (Err e, s') \<Longrightarrow>
      (\<exists>m. e = Interrupted m) \<and> out s' = out s \<and> inp s' = inp s \<and> still s' = still s"
    and read_ok: "io_read D k s = (Ok r, s') \<Longrightarrow> 0 < k \<Longrightarrow>
      inp s = r @ inp s' \<and> out s' = out s \<and> still s' = still s \<and> (inp s \<noteq> [] \<longrightarrow> r \<noteq> [])"
    and read_err: "io_read D k s = (Err e, s') \<Longrightarrow>
      (\<exists>m. e = Interrupted m) \<and> out s' = out s \<and> inp s' = inp s \<and> still s' = still s"
begin

lemma write_loop_ok:
  "\<exists>s'. write_all_loop D b s = Some (Ok (), s') \<and> out s' = out s @ b \<and> inp s' = inp s \<and> still s' = still s"
proof (induction "patience s + length b" arbitrary: b s rule: less_induct)
  case less
  obtain x s' where w: "io_write D b s = (x, s')" by (cases "io_write D b s")
  note calm = write_calm [OF w]
  show ?case
  proof (cases "b = []")
    case True
    then show ?thesis by (simp add: write_all_loop.simps)
  next
    case False
    note loop = write_all_loop.simps [of D b s]
    show ?thesis
    proof (cases x)
      case (Ok n)
      note n = write_ok [OF w [unfolded Ok] False]
      have "\<exists>s''. write_all_loop D (drop n b) s' = Some (Ok (), s'') \<and>
          out s'' = out s' @ drop n b \<and> inp s'' = inp s' \<and> still s'' = still s'"
        using calm n False by (intro less) (cases b; auto)
      then show ?thesis using False calm n by (auto simp: loop w Ok)
    next
      case (Err e)
      note intr = write_err [OF w [unfolded Err]]
      then obtain m where m: "e = Interrupted m" by blast
      have "\<exists>s''. write_all_loop D b s' = Some (Ok (), s'') \<and>
          out s'' = out s' @ b \<and> inp s'' = inp s' \<and> still s'' = still s'"
        using calm Err m by (intro less) simp
      then show ?thesis using False intr by (simp add: loop w Err m)
    qed (use calm in simp_all)
  qed
qed

lemma read_loop_ok:
  "k \<le> length (inp s) \<Longrightarrow> \<exists>s'. read_exact_loop D k acc s = Some (Ok (acc @ take k (inp s)), s') \<and>
    inp s' = drop k (inp s) \<and> out s' = out s \<and> still s' = still s"
proof (induction "patience s + k" arbitrary: k acc s rule: less_induct)
  case less
  obtain x s' where r: "io_read D k s = (x, s')" by (cases "io_read D k s")
  note calm = read_calm [OF r]
  show ?case
  proof (cases "k = 0")
    case True
    then show ?thesis by (simp add: read_exact_loop.simps)
  next
    case False
    note loop = read_exact_loop.simps [of D k acc s]
    show ?thesis
    proof (cases x)
      case (Ok b)
      have "inp s \<noteq> []" using less.prems False by auto
      then have b: "inp s = b @ inp s'" "out s' = out s \<and> still s' = still s" "b \<noteq> []" "length b \<le> k"
        using read_ok [OF r [unfolded Ok]] False calm Ok by blast+
      have "length (inp s) = length b + length (inp s')" by (subst b(1)) simp
      then have len: "k - length b \<le> length (inp s')" using less.prems by simp
      have "\<exists>s''. read_exact_loop D (k - length b) (acc @ b) s' =
          Some (Ok ((acc @ b) @ take (k - length b) (inp s')), s'') \<and>
          inp s'' = drop (k - length b) (inp s') \<and> out s'' = out s' \<and> still s'' = still s'"
        using calm b(3,4) by (intro less(1) len) (cases b; simp; linarith)
      moreover have "take k (inp s) = b @ take (k - length b) (inp s')"
        "drop k (inp s) = drop (k - length b) (inp s')"
        using b(4) by (subst b(1), simp)+
      ultimately show ?thesis using False b(2,3,4) by (auto simp: loop r Ok)
    next
      case (Err e)
      note intr = read_err [OF r [unfolded Err]]
      then obtain m where m: "e = Interrupted m" by blast
      have "\<exists>s''. read_exact_loop D k acc s' = Some (Ok (acc @ take k (inp s')), s'') \<and>
          inp s'' = drop k (inp s') \<and> out s'' = out s' \<and> still s'' = still s'"
        using calm Err m intr less.prems by (intro less) simp_all
      then show ?thesis using False intr by (simp add: loop r Err m)
    qed (use calm in simp_all)
  qed
qed

text \<open>A channel that ends early fills the buffer never.\<close>

lemma read_loop_short:
  "length (inp s) < k \<Longrightarrow> \<exists>s'. read_exact_loop D k acc s = Some (Err (Failed ''failed to fill whole buffer''), s') \<and>
    inp s' = [] \<and> out s' = out s \<and> still s' = still s"
proof (induction "patience s + k" arbitrary: k acc s rule: less_induct)
  case less
  obtain x s' where r: "io_read D k s = (x, s')" by (cases "io_read D k s")
  note calm = read_calm [OF r] and loop = read_exact_loop.simps [of D k acc s]
  have k: "k \<noteq> 0" using less.prems by simp
  show ?case
  proof (cases x)
    case (Ok b)
    have b: "inp s = b @ inp s'" "out s' = out s \<and> still s' = still s" "length b \<le> k"
      using read_ok [OF r [unfolded Ok]] k calm Ok by blast+
    show ?thesis
    proof (cases "b = []")
      case True
      have "inp s = []" using read_ok [OF r [unfolded Ok]] k True by blast
      then have "inp s' = []" using b(1) by (metis append_is_Nil_conv)
      then show ?thesis using True b(2) k by (simp add: loop r Ok)
    next
      case False
      have "length (inp s) = length b + length (inp s')" by (subst b(1)) simp
      then have short: "length (inp s') < k - length b" using less.prems by linarith
      have m: "patience s' + (k - length b) < patience s + k" using calm Ok False b(3) by (cases b) auto
      have "\<exists>s''. read_exact_loop D (k - length b) (acc @ b) s' =
          Some (Err (Failed ''failed to fill whole buffer''), s'') \<and> inp s'' = [] \<and> out s'' = out s' \<and> still s'' = still s'"
        by (rule less(1) [OF m short])
      then show ?thesis using False b(2,3) k by (auto simp: loop r Ok)
    qed
  next
    case (Err e)
    note intr = read_err [OF r [unfolded Err]]
    then obtain m where m: "e = Interrupted m" by blast
    have "\<exists>s''. read_exact_loop D k acc s' = Some (Err (Failed ''failed to fill whole buffer''), s'') \<and>
        inp s'' = [] \<and> out s'' = out s' \<and> still s'' = still s'"
      using calm Err m intr less.prems by (intro less) simp_all
    then show ?thesis using k intr by (simp add: loop r Err m)
  qed (use calm in simp_all)
qed

lemma read_exact_whole:
  obtains s' where "read_exact D k s =
      (if k \<le> length (inp s) then Ok (take k (inp s)) else Err (Failed ''failed to fill whole buffer''), s')"
    "inp s' = drop k (inp s)" "out s' = out s" "still s' = still s"
  using read_loop_ok [of k s "[]"] read_loop_short [of s k "[]"]
  by (cases "k \<le> length (inp s)") (auto simp: read_exact_def)

text \<open>
  What a transmission makes of the bytes that come back, taken as a whole: a length, the response,
  and the code of the simulator.
\<close>

lemma read_u32_whole:
  obtains s' where "stream_read_u32 D s =
      (if 4 \<le> length (inp s) then Ok (from_be_bytes (take 4 (inp s)))
       else Err (Transport ''failed to fill whole buffer''), s')"
    "inp s' = drop 4 (inp s)" "out s' = out s" "still s' = still s"
  by (rule read_exact_whole [of 4 s])
    (auto simp: stream_read_u32_def bindE_def map_err_eff_def transport_error_def ret_simp)

lemma receive_whole:
  obtains s' where "sim_receive D s = (fst (deframed (inp s)), s')" "inp s' = snd (deframed (inp s))"
    "out s' = out s" "still s' = still s"
proof -
  obtain s1 where 1: "stream_read_u32 D s =
      (if 4 \<le> length (inp s) then Ok (from_be_bytes (take 4 (inp s)))
       else Err (Transport ''failed to fill whole buffer''), s1)"
    "inp s1 = drop 4 (inp s)" "out s1 = out s" "still s1 = still s" by (rule read_u32_whole)
  let ?n = "unat (from_be_bytes (take 4 (inp s)) :: 32 word)"
  obtain s2 where 2: "read_exact D ?n s1 =
      (if ?n \<le> length (inp s1) then Ok (take ?n (inp s1)) else Err (Failed ''failed to fill whole buffer''), s2)"
    "inp s2 = drop ?n (inp s1)" "out s2 = out s1" "still s2 = still s1" by (rule read_exact_whole)
  obtain s3 where 3: "stream_read_u32 D s2 =
      (if 4 \<le> length (inp s2) then Ok (from_be_bytes (take 4 (inp s2)))
       else Err (Transport ''failed to fill whole buffer''), s3)"
    "inp s3 = drop 4 (inp s2)" "out s3 = out s2" "still s3 = still s2" by (rule read_u32_whole)
  note parts = sim_receive_def bindE_def deframed_def Let_def map_err_eff_def raise_simp ret_simp transport_error_def
    sim_MAX_RESPONSE_def
  consider (head) "length (inp s) < 4" | (large) "4 \<le> length (inp s)" "\<not> ?n \<le> sim_MAX_RESPONSE"
    | (body) "4 \<le> length (inp s)" "?n \<le> sim_MAX_RESPONSE" "length (inp s) < 4 + ?n"
    | (all) "4 \<le> length (inp s)" "?n \<le> sim_MAX_RESPONSE" "4 + ?n \<le> length (inp s)"
    by linarith
  then show thesis
  proof cases
    case head
    then have "sim_receive D s = (fst (deframed (inp s)), s1)" "inp s1 = snd (deframed (inp s))" using 1(1,2) by (simp_all add: parts)
    then show thesis using that 1(3,4) by simp
  next
    case large
    then have "sim_receive D s = (fst (deframed (inp s)), s1)" "inp s1 = snd (deframed (inp s))" using 1(1,2) by (simp_all add: parts)
    then show thesis using that 1(3,4) by simp
  next
    case body
    then have "\<not> ?n \<le> length (inp s1)" using 1(2) by auto
    with 2(1) have "read_exact D ?n s1 = (Err (Failed ''failed to fill whole buffer''), s2)" by simp
    then have "sim_receive D s = (fst (deframed (inp s)), s2)" "inp s2 = snd (deframed (inp s))" using body 1(1,2) 2(2) by (simp_all add: parts)
    then show thesis using that 1(3,4) 2(3,4) by simp
  next
    case all
    then have n: "?n \<le> length (inp s1)" using 1(2) by auto
    with 2(1) have "read_exact D ?n s1 = (Ok (take ?n (inp s1)), s2)" by simp
    moreover have "4 \<le> length (inp s2) \<longleftrightarrow> 8 + ?n \<le> length (inp s)" using n all(1) 1(2) 2(2) by auto
    ultimately have "sim_receive D s = (fst (deframed (inp s)), s3)" "inp s3 = snd (deframed (inp s))"
      using all 1(1,2) 2(2) 3(1,2) by (simp_all add: parts add.commute)
    then show thesis using that 1(3,4) 2(3,4) 3(3,4) by simp
  qed
qed

lemma exchanges_write: "exchanges inp out still (write_all D b) b [] ()"
  unfolding exchanges_def write_all_def using write_loop_ok [of b] by (metis append_Nil option.case(2))

lemma exchanges_read: "exchanges inp out still (read_exact D (length b)) [] b b"
  unfolding exchanges_def
proof (intro allI impI)
  fix s rest assume s: "inp s = b @ rest"
  then show "\<exists>s'. read_exact D (length b) s = (Ok b, s') \<and> out s' = out s @ [] \<and> inp s' = rest \<and> still s' = still s"
    using read_loop_ok [of "length b" s "[]"] by (auto simp: read_exact_def)
qed

lemma exchanges_u32:
  "exchanges inp out still (write_u32 D v) (to_be_bytes v) [] ()"
  "exchanges inp out still (stream_read_u32 D) [] (to_be_bytes v) v"
proof -
  show "exchanges inp out still (write_u32 D v) (to_be_bytes v) [] ()"
    unfolding write_u32_def by (intro exchanges_map_err exchanges_write)
  have "exchanges inp out still (read_exact D 4) [] (to_be_bytes v) (to_be_bytes v)"
    using exchanges_read [of "to_be_bytes v"] by simp
  then have "exchanges inp out still (stream_read_u32 D) ([] @ []) (to_be_bytes v @ [])
      (from_be_bytes (to_be_bytes v))"
    unfolding stream_read_u32_def
    by (rule exchanges_bindE [OF exchanges_map_err]) (rule exchanges_ret)
  then show "exchanges inp out still (stream_read_u32 D) [] (to_be_bytes v) v" by simp
qed

lemma exchanges_send:
  "exchanges inp out still (sim_send D l command)
    (to_be_bytes TPM_SEND_COMMAND @ [l] @ to_be_bytes (of_nat (length command) :: 32 word) @ command) [] ()"
proof -
  have "exchanges inp out still (sim_send D l command)
    (to_be_bytes TPM_SEND_COMMAND @ [l] @ to_be_bytes (of_nat (length command) :: 32 word) @ command)
    ([] @ [] @ [] @ []) ()"
    unfolding sim_send_def by (rule exchanges_bindE exchanges_u32 exchanges_map_err exchanges_write)+
  then show ?thesis by simp
qed

lemma exchanges_receive:
  assumes resp: "length resp \<le> sim_MAX_RESPONSE"
  shows "exchanges inp out still (sim_receive D) []
    (to_be_bytes (of_nat (length resp) :: 32 word) @ resp @ to_be_bytes (0 :: 32 word)) resp"
proof -
  have len: "unat (of_nat (length resp) :: 32 word) = length resp"
    using resp by (intro unat_of_nat_u32) (simp add: sim_MAX_RESPONSE_def)
  have small: "\<not> length resp > sim_MAX_RESPONSE" using resp by simp
  let ?tail = "\<lambda>len :: 32 word. if unat len > sim_MAX_RESPONSE then
        raise (Transport (''simulator response too large: '' @ show_dec (unat len) @ '' bytes''))
      else bindE (map_err_eff (transport_error ''read response: '') (read_exact D (unat len))) (\<lambda>resp.
      bindE (stream_read_u32 D) (\<lambda>rc.
      if rc \<noteq> 0 then raise (Transport (''simulator send failed: rc='' @ show_dec (unat rc)))
      else ret resp))"
  have "exchanges inp out still (bindE (stream_read_u32 D) (\<lambda>rc.
      if rc \<noteq> 0 then raise (Transport (''simulator send failed: rc='' @ show_dec (unat rc)))
      else ret resp)) ([] @ []) (to_be_bytes (0 :: 32 word) @ []) resp"
    by (rule exchanges_bindE [OF exchanges_u32(2)]) (simp add: exchanges_ret)
  then have "exchanges inp out still (?tail (of_nat (length resp))) ([] @ [] @ []) (resp @ to_be_bytes (0 :: 32 word) @ []) resp"
    unfolding len if_not_P [OF small] by (rule exchanges_bindE [OF exchanges_map_err [OF exchanges_read]])
  note tail = exchanges_bindE [where f = "stream_read_u32 D" and g = ?tail, OF exchanges_u32(2) this]
  then show ?thesis by (simp add: sim_receive_def)
qed

text \<open>
  Powering on, on the bytes as a whole: each signal is answered by a code, and a refused or
  unanswered power signal keeps the NV signal from being sent.
\<close>

lemma signal_whole:
  assumes t: "sim_platform t = Some p"
  obtains q where "platform_signal D code t = (fst (signalled code (inp p)), t\<lparr>sim_platform := Some q\<rparr>)"
    "inp q = snd (signalled code (inp p))" "out q = out p @ to_be_bytes code" "still q = still p"
proof -
  obtain s1 where 1: "write_u32 D code p = (Ok (), s1)" "out s1 = out p @ to_be_bytes code" "inp s1 = inp p" "still s1 = still p"
    using exchangesD [OF exchanges_u32(1) [of code], of p "inp p"] by auto
  obtain s2 where 2: "stream_read_u32 D s1 =
      (if 4 \<le> length (inp s1) then Ok (from_be_bytes (take 4 (inp s1)))
       else Err (Transport ''failed to fill whole buffer''), s2)"
    "inp s2 = drop 4 (inp s1)" "out s2 = out s1" "still s2 = still s1" by (rule read_u32_whole)
  have "platform_signal D code t = (fst (signalled code (inp p)), t\<lparr>sim_platform := Some s2\<rparr>)"
    "inp s2 = snd (signalled code (inp p))"
    by (simp_all add: platform_signal_def t bindE_def 1 2 signalled_def Let_def raise_simp ret_simp)
  then show thesis using that [of s2] 1 2 by simp
qed

lemma power_on_whole:
  assumes t: "sim_platform t = Some p"
  obtains q where "power_on D t = (fst (powered (inp p)), t\<lparr>sim_platform := Some q\<rparr>)"
    "inp q = fst (snd (powered (inp p)))" "out q = out p @ snd (snd (powered (inp p)))" "still q = still p"
proof -
  obtain q1 where 1: "platform_signal D TPM_SIGNAL_POWER_ON t =
      (fst (signalled TPM_SIGNAL_POWER_ON (inp p)), t\<lparr>sim_platform := Some q1\<rparr>)"
    "inp q1 = snd (signalled TPM_SIGNAL_POWER_ON (inp p))" "out q1 = out p @ to_be_bytes TPM_SIGNAL_POWER_ON"
    "still q1 = still p"
    by (rule signal_whole [OF t])
  have t1: "sim_platform (t\<lparr>sim_platform := Some q1\<rparr>) = Some q1" by simp
  obtain q2 where 2: "platform_signal D TPM_SIGNAL_NV_ON (t\<lparr>sim_platform := Some q1\<rparr>) =
      (fst (signalled TPM_SIGNAL_NV_ON (inp q1)), t\<lparr>sim_platform := Some q1, sim_platform := Some q2\<rparr>)"
    "inp q2 = snd (signalled TPM_SIGNAL_NV_ON (inp q1))" "out q2 = out q1 @ to_be_bytes TPM_SIGNAL_NV_ON"
    "still q2 = still q1"
    by (rule signal_whole [OF t1])
  note parts = power_on_def powered_def bindE_def ret_simp Let_def case_prod_unfold
  consider (refused) e where "fst (signalled TPM_SIGNAL_POWER_ON (inp p)) = Err e"
    | (on) "fst (signalled TPM_SIGNAL_POWER_ON (inp p)) = Ok ()"
    using signalled_result by blast
  then show thesis
  proof cases
    case refused
    then show thesis using that [of q1] 1 by (simp add: parts)
  next
    case on
    consider e where "fst (signalled TPM_SIGNAL_NV_ON (inp q1)) = Err e" | "fst (signalled TPM_SIGNAL_NV_ON (inp q1)) = Ok ()"
      using signalled_result by blast
    then show thesis using that [of q2] 1 2 on by cases (simp_all add: parts)
  qed
qed

end

text \<open>A stream: flushing does nothing to the bytes under way.\<close>

locale byte_stream = byte_channel +
  assumes flush_ok: "io_flush D s = (y, s') \<Longrightarrow> y = Ok () \<and> out s' = out s \<and> inp s' = inp s \<and> still s' = still s"
begin

lemma exchanges_flush: "exchanges inp out still (io_flush D) [] [] ()"
  unfolding exchanges_def using flush_ok by (metis append_Nil append_Nil2 prod.collapse)

text \<open>One exchange with the simulator, however the stream fragments it.\<close>

lemma sim_transmit_ok:
  assumes resp: "length resp \<le> sim_MAX_RESPONSE"
    and s: "inp (sim_cmd t) =
      to_be_bytes (of_nat (length resp) :: 32 word) @ resp @ to_be_bytes (0 :: 32 word) @ rest"
  obtains c where "sim_transmit D command t = (Ok resp, t\<lparr>sim_cmd := c\<rparr>)" "inp c = rest"
    "out c = out (sim_cmd t) @ to_be_bytes TPM_SEND_COMMAND @ [sim_locality t] @
      to_be_bytes (of_nat (length command) :: 32 word) @ command"
proof -
  have "exchanges inp out still (bindE (sim_send D (sim_locality t) command) (\<lambda>_.
      bindE (map_err_eff (transport_error []) (io_flush D)) (\<lambda>_. sim_receive D)))
    ((to_be_bytes TPM_SEND_COMMAND @ [sim_locality t] @ to_be_bytes (of_nat (length command) :: 32 word) @ command) @
      [] @ []) ([] @ [] @ to_be_bytes (of_nat (length resp) :: 32 word) @ resp @ to_be_bytes (0 :: 32 word)) resp"
    by (rule exchanges_send exchanges_receive [OF resp] exchanges_map_err exchanges_flush exchanges_bindE)+
  from exchangesD [OF this, of "sim_cmd t" rest] show thesis
    using s that by (auto simp: sim_transmit_halves on_cmd_def)
qed

text \<open>Whatever comes back, the transmission is the reading of its bytes as a whole.\<close>

lemma sim_transmit_whole:
  obtains c where "sim_transmit D command t = (fst (deframed (inp (sim_cmd t))), t\<lparr>sim_cmd := c\<rparr>)"
    "inp c = snd (deframed (inp (sim_cmd t)))"
    "out c = out (sim_cmd t) @ to_be_bytes TPM_SEND_COMMAND @ [sim_locality t] @
      to_be_bytes (of_nat (length command) :: 32 word) @ command"
    "still c = still (sim_cmd t)"
proof -
  let ?frame = "to_be_bytes TPM_SEND_COMMAND @ [sim_locality t] @ to_be_bytes (of_nat (length command) :: 32 word) @ command"
  obtain s1 where 1: "sim_send D (sim_locality t) command (sim_cmd t) = (Ok (), s1)"
    "out s1 = out (sim_cmd t) @ ?frame" "inp s1 = inp (sim_cmd t)" "still s1 = still (sim_cmd t)"
    using exchangesD [OF exchanges_send [of "sim_locality t" command], of "sim_cmd t" "inp (sim_cmd t)"] by auto
  obtain y s2 where f: "io_flush D s1 = (y, s2)" by fastforce
  note 2 = flush_ok [OF f]
  obtain s3 where "sim_receive D s2 = (fst (deframed (inp s2)), s3)" "inp s3 = snd (deframed (inp s2))" "out s3 = out s2" "still s3 = still s2"
    by (rule receive_whole)
  then show thesis
    using that [of s3] 1 2 f by (simp add: sim_transmit_halves on_cmd_def bindE_def map_err_eff_def)
qed

end

section \<open>A socket that fragments\<close>

text \<open>
  A connected \<open>TcpStream\<close>: the bytes still to arrive, the bytes sent, and the script of its next
  calls. A call with a positive entry moves at most that many bytes, a zero entry is an
  interruption, and a call beyond the script moves all it can.
\<close>

record tcp_stream =
  tcp_in :: bytes
  tcp_out :: bytes
  tcp_script :: "nat list"

definition tcp_write :: "bytes \<Rightarrow> ('z tcp_stream_scheme, io_error, nat) eff" where
  "tcp_write b s = (case tcp_script s of
       [] \<Rightarrow> (Ok (length b), s\<lparr>tcp_out := tcp_out s @ b\<rparr>)
     | k # ks \<Rightarrow>
         if k = 0 then (Err (Interrupted ''interrupted''), s\<lparr>tcp_script := ks\<rparr>)
         else (Ok (min k (length b)), s\<lparr>tcp_out := tcp_out s @ take k b, tcp_script := ks\<rparr>))"

definition tcp_read :: "nat \<Rightarrow> ('z tcp_stream_scheme, io_error, bytes) eff" where
  "tcp_read n s = (case tcp_script s of
       [] \<Rightarrow> (Ok (take n (tcp_in s)), s\<lparr>tcp_in := drop n (tcp_in s)\<rparr>)
     | k # ks \<Rightarrow>
         if k = 0 then (Err (Interrupted ''interrupted''), s\<lparr>tcp_script := ks\<rparr>)
         else (Ok (take (min k n) (tcp_in s)),
               s\<lparr>tcp_in := drop (min k n) (tcp_in s), tcp_script := ks\<rparr>))"

definition tcp :: "'z tcp_stream_scheme io" where
  "tcp = \<lparr>io_write = tcp_write, io_flush = ret (), io_read = tcp_read\<rparr>"

interpretation tcp_link: byte_stream tcp "\<lambda>s. length (tcp_script s)" tcp_in tcp_out tcp_stream.more
  by unfold_locales
    (auto simp: tcp_def tcp_write_def tcp_read_def ret_simp min_def split: list.splits if_splits)

section \<open>The kernel's TPM device\<close>

text \<open>
  The driver as \<open>device.rs\<close> describes it: a \<open>write\<close> submits one whole command, the following
  \<open>read\<close> returns its response in one call. The TPM behind it is an argument.
\<close>

record 'q kernel_tpm =
  kt_tpm :: 'q
  kt_pending :: bytes

definition kernel :: "(bytes \<Rightarrow> 'q \<Rightarrow> bytes \<times> 'q) \<Rightarrow> 'q kernel_tpm io" where
  "kernel answer =
     \<lparr>io_write = (\<lambda>b s. case answer b (kt_tpm s) of (resp, q) \<Rightarrow>
        (Ok (length b), s\<lparr>kt_tpm := q, kt_pending := resp\<rparr>)),
      io_flush = ret (),
      io_read = (\<lambda>n s. (Ok (take n (kt_pending s)), s\<lparr>kt_pending := drop n (kt_pending s)\<rparr>))\<rparr>"

interpretation kernel_link: patient_io "kernel answer" "\<lambda>_. 0"
  by unfold_locales (auto simp: kernel_def ret_simp split: prod.splits)

text \<open>A transmission is one write of the command and one read of at most 4096 bytes.\<close>

lemma kernel_write_all:
  assumes "command \<noteq> []" "answer command (kt_tpm s) = (resp, q)"
  shows "write_all (kernel answer) command s = (Ok (), s\<lparr>kt_tpm := q, kt_pending := resp\<rparr>)"
proof -
  have "write_all_loop (kernel answer) command s = Some (Ok (), s\<lparr>kt_tpm := q, kt_pending := resp\<rparr>)"
    using assms by (subst write_all_loop.simps) (simp add: kernel_def write_all_loop.simps)
  then show ?thesis by (simp add: write_all_def)
qed

lemma device_transmit_kernel:
  assumes "command \<noteq> []" "answer command (kt_tpm (dev_file t)) = (resp, q)"
  shows "device_transmit (kernel answer) command t =
    (if resp = [] then Err (Transport ''empty TPM response'') else Ok (take 4096 resp),
     t\<lparr>dev_file := (dev_file t)\<lparr>kt_tpm := q, kt_pending := drop 4096 resp\<rparr>\<rparr>)"
proof -
  have w: "on_file (map_err_eff g (write_all (kernel answer) command)) t =
      (Ok (), t\<lparr>dev_file := (dev_file t)\<lparr>kt_tpm := q, kt_pending := resp\<rparr>\<rparr>)" for g
    using kernel_write_all [of command answer "dev_file t" resp q] assms
    by (simp add: on_file_def map_err_eff_def)
  show ?thesis
    unfolding device_transmit_def
    by (subst bindE_def, subst w)
      (simp add: bindE_def on_file_def map_err_eff_def kernel_def ret_simp raise_simp
        device_MAX_RESPONSE_def)
qed

end
