(* ===== verification/Samples.thy ===== *)
theory Samples
  imports Transports
begin

text \<open>
  Concrete values for the witnesses: an instance of the crypto crate that satisfies
  \<open>purecrypto_ok\<close>, a transport that plays back prepared responses, and the machine around them.
  The digests of the instance are the padded message, those of its HMAC the padded key and
  message: enough to exercise every branch of the model.
\<close>

definition sample_crypto :: "(bytes, bytes \<times> bytes, byte) purecrypto" where
  "sample_crypto = \<lparr>
     digest_new = (\<lambda>d. []),
     digest_update = (\<lambda>d h x. h @ x),
     digest_finalize = (\<lambda>d h. take (hash_len d) (h @ replicate (hash_len d) 0)),
     hmac_new = (\<lambda>d k. (k, [])),
     hmac_update = (\<lambda>d km x. (fst km, snd km @ x)),
     hmac_finalize = (\<lambda>d km. take (hash_len d) (fst km @ snd km @ replicate (hash_len d) 0)),
     cfb_encrypt = (\<lambda>f k iv x. map (\<lambda>b. b XOR 0x5A) x),
     cfb_decrypt = (\<lambda>f k iv x. map (\<lambda>b. b XOR 0x5A) x),
     os_fill = (\<lambda>g n. (replicate n g, g + 1)),
     choice_from = (\<lambda>b. b = 1)\<rparr>"

lemma fold_append: "fold (\<lambda>x h. h @ x) xs h = h @ concat xs"
  by (induction xs arbitrary: h) simp_all

lemma fold_keyed: "fold (\<lambda>x km. (fst km, snd km @ x)) xs km = (fst km, snd km @ concat xs)"
  by (induction xs arbitrary: km) simp_all

lemma sample_ok: "purecrypto_ok sample_crypto"
  by (auto simp: purecrypto_ok_def sample_crypto_def fold_append fold_keyed min_def)

text \<open>Plays back the responses it is started with, then reports a closed channel.\<close>

fun playback :: "bytes \<Rightarrow> (bytes list, Error, bytes) eff" where
  "playback command [] = (Err (Transport ''closed''), [])"
| "playback command (r # rs) = (Ok r, rs)"

interpretation playback_link: transport_link playback "\<lambda>_. True"
proof unfold_locales
  show "returns (fst (playback f t))" for f :: bytes and t by (cases t) simp_all
qed simp

definition sample_ports :: "(bytes, bytes \<times> bytes, byte, bytes list) ports" where
  "sample_ports = \<lparr>crypto = sample_crypto, transmit = playback, feature_std = True\<rparr>"

lemma sample_ports_simps [simp]:
  "crypto sample_ports = sample_crypto" "transmit sample_ports = playback" "feature_std sample_ports"
  by (simp_all add: sample_ports_def)

definition sample_machine :: "bytes list \<Rightarrow> (bytes list, byte) machine" where
  "sample_machine rs = \<lparr>transport = rs, os_rng = 7, slept = []\<rparr>"

lemma sample_machine_simps [simp]:
  "transport (sample_machine rs) = rs" "os_rng (sample_machine rs) = 7"
  "(sample_machine rs)\<lparr>transport := rs'\<rparr> = sample_machine rs'"
  by (simp_all add: sample_machine_def)

text \<open>A session over SHA-256 with a key and both nonces.\<close>

definition sample_session :: Session where
  "sample_session = \<lparr>sess_handle = Handle 0x02000000, sess_hash_alg = Alg_SHA256,
     sess_attributes = sa_continue_session, session_key = [1, 2, 3], nonce_tpm = replicate 32 5,
     nonce_caller = replicate 32 6, bound_name = []\<rparr>"

lemma sample_session_simps [simp]:
  "sess_hash_alg sample_session = Alg_SHA256" "hash_fn_of Alg_SHA256 = Some Sha256"
  "nonce_caller sample_session = replicate 32 6"
  by (simp_all add: sample_session_def hash_fn_of_def tpm_consts)

text \<open>A warning response, and a well-formed reply.\<close>

definition retry_response :: bytes where
  "retry_response = to_be_bytes st_NO_SESSIONS @ to_be_bytes (10 :: 32 word) @ to_be_bytes (0x922 :: 32 word)"

lemma small_reply_wf: "length p \<le> 1000 \<Longrightarrow> length hs \<le> 10 \<Longrightarrow> reply_wf hs p None"
  by (simp add: reply_wf_def reply_def reply_body_def)

text \<open>A signed reply to the sample session, with the HMAC it expects.\<close>

definition signed_entry :: "Session \<Rightarrow> bytes \<Rightarrow> 32 word \<Rightarrow> bytes list \<Rightarrow> bytes \<Rightarrow> AuthResponse" where
  "signed_entry s av code names p =
     (let ar = \<lparr>ar_nonce_tpm = replicate 32 9, ar_attributes = sa_continue_session, ar_hmac = []\<rparr>
      in ar\<lparr>ar_hmac := expected_mac sample_crypto Sha256 s av code names p ar\<rparr>)"

lemma signed_entry_simps [simp]:
  "ar_nonce_tpm (signed_entry s av code names p) = replicate 32 9"
  "ar_hmac (signed_entry s av code names p) =
     expected_mac sample_crypto Sha256 s av code names p (signed_entry s av code names p)"
  by (simp_all add: signed_entry_def Let_def expected_mac_def)

lemma length_expected_mac:
  "purecrypto_ok P \<Longrightarrow> length (expected_mac P d s av code names p ar) = hash_len d"
  by (simp add: expected_mac_def response_mac_def)

lemma signed_reply_wf:
  "length p \<le> 1000 \<Longrightarrow> length hs \<le> 10 \<Longrightarrow> reply_wf hs p (Some (signed_entry s av code names p))"
  by (simp add: reply_wf_def reply_def reply_body_def AuthResponse_wf_def wire_auth_response_def
      length_tpm2b fits_tpm2b_def length_expected_mac [OF sample_ok])

text \<open>A run under the sample session whose reply is signed.\<close>

definition sample_sent :: Session where
  "sample_sent = sample_session\<lparr>nonce_caller := replicate 32 7\<rparr>"

lemma sample_signed_run:
  assumes "request_fits hs params" "length p \<le> 1000" "length rhs \<le> 10"
  shows "run sample_ports code hs names params (length rhs) (AuthSession sample_session av,
      sample_machine [reply rhs p (Some (signed_entry sample_sent av code names p))]) =
    (Ok \<lparr>rr_handles = rhs, rr_params = p\<rparr>,
     (AuthSession (sample_sent\<lparr>nonce_tpm := replicate 32 9\<rparr>) av, (sample_machine [])\<lparr>os_rng := 8\<rparr>))"
proof -
  let ?ac = "session_entry sample_crypto Sha256 sample_session av code names params (replicate 32 7)"
  have a: "authorize sample_ports code names params (AuthSession sample_session av, sample_machine rs) =
      (Ok (Some ?ac), (AuthSession sample_sent av, (sample_machine rs)\<lparr>os_rng := 8\<rparr>))" for rs
    by (simp add: sample_crypto_def sample_sent_def)
  have "sess_hash_alg sample_sent = Alg_SHA256" by (simp add: sample_sent_def)
  then have c: "checked sample_crypto code names
      (rhs, p, Some (signed_entry sample_sent av code names p)) (AuthSession sample_sent av) =
    (Ok \<lparr>rr_handles = rhs, rr_params = p\<rparr>, AuthSession (sample_sent\<lparr>nonce_tpm := replicate 32 9\<rparr>) av)"
    by (simp add: checked_eq [OF sample_ok] check_response_auth_eq [OF sample_ok])
  have "purecrypto_ok (crypto sample_ports)" by (simp add: sample_ok)
  note r = run_reply [OF this assms(1) signed_reply_wf [OF assms(2,3), of sample_sent av code names] a,
      where t = "[]"]
  show ?thesis by (subst r) (simp_all add: sample_machine_def c)
qed

text \<open>A command with a password, answered by a reply without an authorization entry.\<close>

lemma answered_playback_cons:
  assumes "fits_tpm2b pw" "length p \<le> 1000" "length rhs \<le> 10"
  shows "answered sample_ports code hs names params (AuthPassword pw, sample_machine (reply rhs p None # rs)) rhs p
    (AuthPassword pw, sample_machine rs)"
proof -
  have "checked sample_crypto code names (rhs, p, None) (AuthPassword pw) =
      (Ok \<lparr>rr_handles = rhs, rr_params = p\<rparr>, AuthPassword pw)"
    by (simp add: checked_eq [OF sample_ok])
  then show ?thesis
    using small_reply_wf [OF assms(2,3)] assms(1)
    by (auto simp: answered_def intro!: exI [of _ "None :: AuthResponse option"])
qed

lemmas answered_playback = answered_playback_cons [where rs = "[]"]

text \<open>The reply itself, as the parser meets it.\<close>

definition sample_signed_reply :: bytes where
  "sample_signed_reply = reply [] [0, 1, 9] (Some (signed_entry sample_sent [4] cc_UNSEAL [[1]] [0, 1, 9]))"

lemma sample_signed_reply_accepted:
  "parse_response sample_crypto cc_UNSEAL sample_signed_reply [[1]] 0 (AuthSession sample_sent [4]) =
    (Ok \<lparr>rr_handles = [], rr_params = [0, 1, 9]\<rparr>, AuthSession (sample_sent\<lparr>nonce_tpm := replicate 32 9\<rparr>) [4])"
proof -
  have "reply_wf [] [0, 1, 9] (Some (signed_entry sample_sent [4] cc_UNSEAL [[1]] [0, 1, 9]))"
    by (rule signed_reply_wf) simp_all
  from parse_reply [OF sample_ok this] show ?thesis
    by (simp add: sample_signed_reply_def checked_eq [OF sample_ok] check_response_auth_eq [OF sample_ok])
      (simp add: sample_sent_def)
qed

lemma sample_signed_reply_tag: "take 2 sample_signed_reply = to_be_bytes st_SESSIONS"
  by (simp add: sample_signed_reply_def reply_def reply_header_def reply_tag_def)

end
