(* ===== verification/Replies.thy ===== *)
theory Replies
  imports Commands
begin

text \<open>
  What each command of \<open>src/src/commands/\<close> returns when the TPM answers: the reply of the command,
  laid out as the TPM library specification has it, comes back as the command's result.
\<close>

section \<open>Commands with an authorization\<close>

lemma unseal_answered:
  assumes P: "purecrypto_ok (crypto E)"
    and a: "answered E cc_UNSEAL [item] [item_name] [] st [] (tpm2b secret @ rest) st'"
    and "fits_tpm2b secret"
  shows "unseal E item item_name st = (Ok secret, st')"
proof -
  have fits: "request_fits [item] []" by (simp add: request_fits_def)
  have "unmarshal_params read_tpm2b (tpm2b secret @ rest) st' = (Ok secret, st')"
    by (intro unmarshal_params_reads reads_tpm2b assms)
  then show ?thesis using answered_run [OF P fits a] by (simp add: unseal_def bindE_def)
qed

lemma create_primary_answered:
  assumes P: "purecrypto_ok (crypto E)"
    and a: "answered E cc_CREATE_PRIMARY [hierarchy] [permanent_name hierarchy] (create_params s pub) st [h]
      (tpm2b public @ tpm2b cdata @ tpm2b chash @ to_be_bytes (tag :: 16 word) @ to_be_bytes (hier :: 32 word) @
        tpm2b ticket @ tpm2b name @ rest) st'"
    and f: "fits_tpm2b public" "fits_tpm2b cdata" "fits_tpm2b chash" "fits_tpm2b ticket" "fits_tpm2b name"
  shows "create_primary E hierarchy s pub st =
    (Ok \<lparr>cp_handle = h, cp_name = Buffer name, cp_public = Buffer public\<rparr>, st')"
proof -
  let ?params = "tpm2b public @ tpm2b cdata @ tpm2b chash @ to_be_bytes tag @ to_be_bytes hier @
    tpm2b ticket @ tpm2b name @ rest"
  have fits: "request_fits [hierarchy] (create_params s pub)"
    using length_create_params [of s pub] by (intro fits_small) simp_all
  note ticket = reads_skip_tk_creation [OF f(4), of tag hier]
  have "reads (bindE read_tpm2b (\<lambda>out_public. bindE read_tpm2b (\<lambda>_. bindE read_tpm2b (\<lambda>_.
      bindE skip_tk_creation (\<lambda>_. bindE read_tpm2b (\<lambda>obj_name.
      ret \<lparr>cp_handle = h, cp_name = Buffer obj_name, cp_public = Buffer out_public\<rparr>))))))
    (tpm2b public @ tpm2b cdata @ tpm2b chash @ (to_be_bytes tag @ to_be_bytes hier @ tpm2b ticket) @
      tpm2b name @ []) \<lparr>cp_handle = h, cp_name = Buffer name, cp_public = Buffer public\<rparr>"
    by (rule f ticket reads_rules)+
  from unmarshal_params_reads [OF this, of rest]
  have "unmarshal_params (bindE read_tpm2b (\<lambda>out_public. bindE read_tpm2b (\<lambda>_. bindE read_tpm2b (\<lambda>_.
      bindE skip_tk_creation (\<lambda>_. bindE read_tpm2b (\<lambda>obj_name.
      ret \<lparr>cp_handle = h, cp_name = Buffer obj_name, cp_public = Buffer out_public\<rparr>)))))) ?params st' =
    (Ok \<lparr>cp_handle = h, cp_name = Buffer name, cp_public = Buffer public\<rparr>, st')"
    by simp
  then show ?thesis
    using answered_run [OF P fits a]
    by (simp add: create_primary_def Let_def bindE_def [of "run _ _ _ _ _ _"] bindE_lift_Ok)
qed

lemma create_answered:
  assumes P: "purecrypto_ok (crypto E)"
    and a: "answered E cc_CREATE [parent] [parent_name] (create_params s pub) st [] (tpm2b prv @ tpm2b pb @ rest) st'"
    and f: "fits_tpm2b prv" "fits_tpm2b pb"
  shows "create E parent parent_name s pub st = (Ok \<lparr>cr_private = Buffer prv, cr_public = Buffer pb\<rparr>, st')"
proof -
  have fits: "request_fits [parent] (create_params s pub)"
    using length_create_params [of s pub] by (intro fits_small) simp_all
  have "reads (bindE read_tpm2b (\<lambda>private. bindE read_tpm2b (\<lambda>public.
      ret \<lparr>cr_private = Buffer private, cr_public = Buffer public\<rparr>))) (tpm2b prv @ tpm2b pb @ [])
      \<lparr>cr_private = Buffer prv, cr_public = Buffer pb\<rparr>"
    by (rule f reads_rules)+
  from unmarshal_params_reads [OF this, of rest] show ?thesis
    using answered_run [OF P fits a] by (simp add: create_def Let_def bindE_def [of "run _ _ _ _ _ _"])
qed

lemma load_answered:
  assumes P: "purecrypto_ok (crypto E)"
    and a: "answered E cc_LOAD [parent] [parent_name] (tpm2b prv @ tpm2b pb) st [h] (tpm2b name @ rest) st'"
    and f: "fits_tpm2b prv" "fits_tpm2b pb" "fits_tpm2b name"
  shows "load E parent parent_name (Buffer prv) (Buffer pb) st = (Ok \<lparr>lr_handle = h, lr_name = Buffer name\<rparr>, st')"
proof -
  have params: "marshal_Buffer (Buffer pb) (marshal_Buffer (Buffer prv) []) = tpm2b prv @ tpm2b pb"
    using f by (simp add: marshal_Buffer_eq wire_Buffer_def Buffer_wf_def)
  have fits: "request_fits [parent] (tpm2b prv @ tpm2b pb)"
    using f by (intro fits_small) (simp_all add: length_tpm2b fits_tpm2b_def)
  have "reads (bindE read_tpm2b (\<lambda>name. ret \<lparr>lr_handle = h, lr_name = Buffer name\<rparr>)) (tpm2b name @ [])
      \<lparr>lr_handle = h, lr_name = Buffer name\<rparr>"
    by (rule f reads_rules)+
  from unmarshal_params_reads [OF this, of rest] show ?thesis
    using answered_run [OF P fits a]
    by (simp add: load_def Let_def params bindE_def [of "run _ _ _ _ _ _"] bindE_lift_Ok)
qed

section \<open>Commands without an authorization\<close>

lemma run_plain_answered:
  assumes "purecrypto_ok (crypto E)" "request_fits hs params"
    "answered E code hs names params (AuthNone, m) rhs p (auth', m')"
  shows "run_plain E code hs names params (length rhs) m = (Ok \<lparr>rr_handles = rhs, rr_params = p\<rparr>, m')"
  using answered_run [OF assms] by (simp add: run_plain_def)

lemma answered_plain:
  assumes P: "purecrypto_ok (crypto E)" and wf: "reply_wf rhs p ar"
    and t: "transmit E (request code hs None params) (transport m) = (Ok (reply rhs p ar), t)"
  shows "answered E code hs names params (AuthNone, m) rhs p (AuthNone, m\<lparr>transport := t\<rparr>)"
proof -
  have "checked (crypto E) code names (rhs, p, ar) AuthNone = (Ok \<lparr>rr_handles = rhs, rr_params = p\<rparr>, AuthNone)"
    by (simp add: checked_eq [OF P] check_response_auth_eq [OF P] split: option.split)
  then show ?thesis using wf t by (auto simp: answered_def)
qed

lemma unit_answered:
  assumes P: "purecrypto_ok (crypto E)"
  shows "answered E cc_STARTUP [] [] (to_be_bytes ty) (AuthNone, m) [] p (auth', m') \<Longrightarrow>
      startup E ty m = (Ok (), m')"
    and "answered E cc_FLUSH_CONTEXT [] [] (to_be_bytes (handle_raw h)) (AuthNone, m) [] p (auth', m') \<Longrightarrow>
      flush_context E h m = (Ok (), m')"
proof -
  have fits: "request_fits [] (to_be_bytes ty)" "request_fits [] (to_be_bytes (handle_raw h))"
    by (simp_all add: request_fits_def)
  show "answered E cc_STARTUP [] [] (to_be_bytes ty) (AuthNone, m) [] p (auth', m') \<Longrightarrow>
      startup E ty m = (Ok (), m')"
    using run_plain_answered [OF P fits(1)]
    by (fastforce simp: startup_def Let_def marshal_prim_def bindE_def ret_simp)
  show "answered E cc_FLUSH_CONTEXT [] [] (to_be_bytes (handle_raw h)) (AuthNone, m) [] p (auth', m') \<Longrightarrow>
      flush_context E h m = (Ok (), m')"
    using run_plain_answered [OF P fits(2)]
    by (fastforce simp: flush_context_def Let_def marshal_Handle_eq bindE_def ret_simp)
qed

lemma get_random_answered:
  assumes P: "purecrypto_ok (crypto E)" and f: "fits_tpm2b rnd"
    and a: "answered E cc_GET_RANDOM [] [] (to_be_bytes n) (AuthNone, m) [] (tpm2b rnd @ rest) (auth', m')"
  shows "get_random E n m = (Ok rnd, m')"
proof -
  have fits: "request_fits [] (to_be_bytes n)" by (simp add: request_fits_def)
  have "unmarshal_params read_tpm2b (tpm2b rnd @ rest) m' = (Ok rnd, m')"
    by (intro unmarshal_params_reads reads_tpm2b f)
  then show ?thesis
    using run_plain_answered [OF P fits a]
    by (simp add: get_random_def Let_def marshal_prim_def bindE_def [of "run_plain _ _ _ _ _ _"])
qed

lemma get_capability_answered:
  fixes mo :: byte and cap c prp count :: "32 word"
  assumes P: "purecrypto_ok (crypto E)"
    and a: "answered E cc_GET_CAPABILITY [] [] (to_be_bytes c @ to_be_bytes prp @ to_be_bytes count) (AuthNone, m)
      [] (mo # to_be_bytes cap @ data) (auth', m')"
  shows "get_capability E c prp count m =
    (Ok \<lparr>cd_more = (mo \<noteq> 0), cd_capability = cap, cd_data = data\<rparr>, m')"
proof -
  have fits: "request_fits [] (to_be_bytes c @ to_be_bytes prp @ to_be_bytes count)"
    by (simp add: request_fits_def)
  let ?r = "Reader_new (mo # to_be_bytes cap @ data)"
  have "reads (bindE read_u8 (\<lambda>mo. bindE read_u32 (\<lambda>cap. ret (mo, cap)))) ([mo] @ to_be_bytes cap @ []) (mo, cap)"
    by (rule reads_rules)+
  then have front: "reads (bindE read_u8 (\<lambda>mo. bindE read_u32 (\<lambda>cap. ret (mo, cap)))) ([mo] @ to_be_bytes cap) (mo, cap)"
    by simp
  have u: "unread ?r = ([mo] @ to_be_bytes cap) @ data" by simp
  have split: "bindE read_u8 (\<lambda>mo. bindE read_u32 (\<lambda>cap. bindE (bindE remaining take_bytes) (\<lambda>data.
      ret \<lparr>cd_more = mo \<noteq> 0, cd_capability = cap, cd_data = data\<rparr>))) =
    bindE (bindE read_u8 (\<lambda>mo. bindE read_u32 (\<lambda>cap. ret (mo, cap)))) (\<lambda>(mo, cap).
      bindE (bindE remaining take_bytes) (\<lambda>data. ret \<lparr>cd_more = mo \<noteq> 0, cd_capability = cap, cd_data = data\<rparr>))"
    by (simp add: bindE_assoc)
  have "unmarshal_params (bindE read_u8 (\<lambda>mo. bindE read_u32 (\<lambda>cap. bindE (bindE remaining take_bytes) (\<lambda>data.
      ret \<lparr>cd_more = mo \<noteq> 0, cd_capability = cap, cd_data = data\<rparr>)))) (mo # to_be_bytes cap @ data) m' =
      (Ok \<lparr>cd_more = (mo \<noteq> 0), cd_capability = cap, cd_data = data\<rparr>, m')"
    unfolding unmarshal_params_def split reads_after [OF front reader_wf_new u] prod.case
      bind_rest [OF after_prefix(1) [OF reader_wf_new u]] after_prefix(2) [OF reader_wf_new u]
    by (simp add: ret_simp lift_outcome_simp)
  then show ?thesis
    using run_plain_answered [OF P fits a]
    by (simp add: get_capability_def Let_def marshal_prim_def bindE_def [of "run_plain _ _ _ _ _ _"])
qed

text \<open>The parameters \<open>start_auth_session\<close> sends.\<close>

definition session_params :: "Alg \<Rightarrow> bytes \<Rightarrow> bytes" where
  "session_params alg nonce =
     tpm2b nonce @ tpm2b [] @ [se_HMAC] @ to_be_bytes (alg_raw Alg_NULL) @ to_be_bytes (alg_raw alg)"

lemma start_auth_session_answered:
  assumes P: "purecrypto_ok (crypto E)" and d: "hash_fn_of alg = Some d"
    and f: "fits_tpm2b nonce" "fits_tpm2b nt"
    and a: "answered E cc_START_AUTH_SESSION [Handle rh_NULL, Handle rh_NULL] [] (session_params alg nonce)
      (AuthNone, m) [h] (tpm2b nt @ rest) (auth', m')"
  shows "start_auth_session E alg nonce m =
    (Ok \<lparr>sess_handle = h, sess_hash_alg = alg, sess_attributes = sa_continue_session, session_key = [],
       nonce_tpm = nt, nonce_caller = nonce, bound_name = []\<rparr>, m')"
proof -
  have e: "fits_tpm2b []" by (simp add: fits_tpm2b_def)
  have params: "marshal_Alg alg (marshal_SymDefObject sym_null ((tpm2b nonce @ tpm2b []) @ [se_HMAC])) =
      session_params alg nonce"
    by (simp add: marshal_Alg_eq marshal_SymDefObject_eq wire_SymDefObject_def sym_null_def session_params_def)
  have "request_fits [Handle rh_NULL, Handle rh_NULL] (session_params alg nonce)"
    using f(1) by (intro fits_small) (simp_all add: session_params_def length_tpm2b fits_tpm2b_def)
  from run_plain_answered [OF P this a]
  have run: "run_plain E cc_START_AUTH_SESSION [Handle rh_NULL, Handle rh_NULL] [] (session_params alg nonce) 1 m =
      (Ok \<lparr>rr_handles = [h], rr_params = tpm2b nt @ rest\<rparr>, m')"
    by simp
  have nt: "unmarshal_params read_tpm2b (tpm2b nt @ rest) m' = (Ok nt, m')"
    by (rule unmarshal_params_reads [OF reads_tpm2b [OF f(2)]])
  show ?thesis
    unfolding start_auth_session_def Let_def marshal_tpm2b_eq if_P [OF f(1)] if_P [OF e] prod.case
      bindE_lift_Ok append_Nil params
    using run by (simp add: bindE_def nt lift_outcome_simp Session_new_eq [OF P] d)
qed

text \<open>The parameters of a reply to \<open>TPM2_PCR_Read\<close>.\<close>

definition pcr_reply_params :: "32 word \<Rightarrow> PcrSelectionList \<Rightarrow> Buffer list \<Rightarrow> bytes" where
  "pcr_reply_params counter sel ds = to_be_bytes counter @ marshal_PcrSelectionList sel [] @
     to_be_bytes (of_nat (length ds) :: 32 word) @ concat (map (\<lambda>b. marshal_Buffer b []) ds)"

lemma pcr_read_one_answered:
  assumes P: "purecrypto_ok (crypto E)" and sel: "PcrSelectionList_wf sel" and n: "length ds \<le> 0xFFFF"
    and wf: "list_all Buffer_wf ds"
    and a: "answered E cc_PCR_READ [] [] (marshal_PcrSelectionList (PcrSelectionList [PcrSelection_single bank i]) [])
      (AuthNone, m) [] (pcr_reply_params counter sel ds) (auth', m')"
  shows "pcr_read_one E bank i m = (Ok (case ds of [] \<Rightarrow> None | d # _ \<Rightarrow> Some d), m')"
proof -
  note run = run_plain_answered [OF P single_fits a]
  have sel: "reads unmarshal_PcrSelectionList (marshal_PcrSelectionList sel []) sel"
    using codec_PcrSelectionList.reads_marshal [OF sel] by (simp add: to_bytes_def)
  have "reads (bindE read_u32 (\<lambda>counter. bindE unmarshal_from (\<lambda>sel. bindE read_digest_list (\<lambda>values.
        ret \<lparr>update_counter = counter, pr_selection = sel, pr_values = values\<rparr>))))
      (to_be_bytes counter @ marshal_PcrSelectionList sel [] @
        (to_be_bytes (of_nat (length ds) :: 32 word) @ concat (map wire_Buffer ds)) @ [])
      \<lparr>update_counter = counter, pr_selection = sel, pr_values = ds\<rparr>"
    unfolding unmarshal_from_def
    by (rule sel reads_digest_list [OF n wf] reads_rules)+
  from unmarshal_params_reads [OF this, of "[]"]
  have parse: "unmarshal_params (bindE read_u32 (\<lambda>counter. bindE unmarshal_from (\<lambda>sel. bindE read_digest_list (\<lambda>values.
        ret \<lparr>update_counter = counter, pr_selection = sel, pr_values = values\<rparr>)))) (pcr_reply_params counter sel ds) m' =
      (Ok \<lparr>update_counter = counter, pr_selection = sel, pr_values = ds\<rparr>, m')"
    by (simp add: pcr_reply_params_def marshal_Buffer_eq)
  have "pcr_read E (PcrSelectionList [PcrSelection_single bank i]) m =
      (Ok \<lparr>update_counter = counter, pr_selection = sel, pr_values = ds\<rparr>, m')"
    using run by (simp add: pcr_read_def Let_def bindE_def [of "run_plain _ _ _ _ _ _"] parse)
  then show ?thesis by (simp add: pcr_read_one_def bindE_def ret_simp)
qed

section \<open>Errors\<close>

text \<open>A code that is neither success nor a transient warning comes back at once.\<close>

lemma run_error_reply:
  assumes P: "purecrypto_ok (crypto E)" and fits: "request_fits hs params"
    and rc: "rc \<noteq> 0" "\<not> is_transient (TpmRc rc)"
    and a: "authorize E code names params (auth, m) = (Ok ac, (auth1, m1))"
    and t: "transmit E (request code hs ac params) (transport m1) =
      (Ok (to_be_bytes (tag :: 16 word) @ to_be_bytes (sz :: 32 word) @ to_be_bytes rc @ rest), t)"
  shows "run E code hs names params k (auth, m) = (Err (Tpm (TpmRc rc)), (auth1, m1\<lparr>transport := t\<rparr>))"
  by (simp add: run_eq [OF P fits] bindE_def a, subst transmit_loop_step)
    (simp add: t rc(2) parse_error_reply [OF rc(1)])

end
