(* ===== verification/Reference_TPM.thy ===== *)
theory Reference_TPM
  imports Replies
begin

text \<open>
  The other side of the wire: a TPM as the library specification (parts 1 to 3) describes it, for
  the commands the crate sends to seal data, read PCRs and draw random bytes. No TPM is part of
  the repository; every \<open>Transport\<close> leads to some function from commands to responses, and
  \<open>tpm_serve\<close> is an executable such function against which the crate is run as a whole. It
  decodes requests with the reference decoders, knows the names and authorization values of its
  objects, and computes the HMACs of its sessions by itself.
\<close>

section \<open>State\<close>

text \<open>
  A loaded object: its Name, authorization value and sealed data. A session over a hash: the last
  \<open>nonceTPM\<close>; sessions are unbound and unsalted, so they have no key. Objects and sessions live
  in slots; a free slot is \<open>None\<close>.
\<close>

record tpm_object =
  to_name :: bytes
  to_auth :: bytes
  to_data :: bytes

record tpm_session =
  ts_hash :: hash_fn
  ts_nonce :: bytes

record 'g tpm =
  tpm_objects :: "tpm_object option list"
  tpm_sessions :: "tpm_session option list"
  tpm_pcrs :: "bytes list"
  tpm_rng :: 'g

fun first_free :: "'a option list \<Rightarrow> nat option" where
  "first_free [] = None"
| "first_free (None # xs) = Some 0"
| "first_free (Some a # xs) = map_option Suc (first_free xs)"

definition in_slot :: "32 word \<Rightarrow> 'a option list \<Rightarrow> Handle \<Rightarrow> 'a option" where
  "in_slot origin xs h = (let i = unat (handle_raw h - origin) in if i < length xs then xs ! i else None)"

definition first_transient :: "32 word" where "first_transient = 0x80000000"
definition first_session :: "32 word" where "first_session = 0x02000000"

definition slot_handle :: "32 word \<Rightarrow> nat \<Rightarrow> Handle" where
  "slot_handle origin i = Handle (origin + of_nat i)"

text \<open>
  The Name and the authorization value behind a handle: the hierarchies and the PCRs are named by
  the handle itself and have empty authorization values.
\<close>

definition fixed_name :: "Handle \<Rightarrow> bool" where
  "fixed_name h \<longleftrightarrow> handle_raw h \<in> {rh_OWNER, rh_ENDORSEMENT, rh_PLATFORM, rh_NULL} \<or> unat (handle_raw h) < 24"

definition entity :: "'g tpm \<Rightarrow> Handle \<Rightarrow> (bytes \<times> bytes) option" where
  "entity q h =
     (if fixed_name h
      then Some (to_be_bytes (handle_raw h), [])
      else map_option (\<lambda>x. (to_name x, to_auth x)) (in_slot first_transient (tpm_objects q) h))"

section \<open>Authorization\<close>

text \<open>Part 1, 19: the command HMAC of a session over the cpHash and the nonces.\<close>

definition auth_accepted ::
  "('h, 'm, 'g) purecrypto \<Rightarrow> 'g tpm \<Rightarrow> 32 word \<Rightarrow> bytes \<Rightarrow> bytes \<Rightarrow> bytes \<Rightarrow> AuthCommand \<Rightarrow> bool" where
  "auth_accepted P q code name av params ac =
     (if ac_session_handle ac = Handle rh_PW then ac_hmac ac = av
      else case in_slot first_session (tpm_sessions q) (ac_session_handle ac) of
          None \<Rightarrow> False
        | Some ts \<Rightarrow> ac_hmac ac = hmac_of P (ts_hash ts) av
            (digest_of P (ts_hash ts) (to_be_bytes code @ name @ params) @ ac_nonce_caller ac @ ts_nonce ts @
             [sa_bits (ac_attributes ac)]))"

text \<open>
  The response entry. Under a session the TPM draws a new nonce; without \<open>continueSession\<close> the
  session ends.
\<close>

definition sign_response ::
  "('h, 'm, 'g) purecrypto \<Rightarrow> 32 word \<Rightarrow> bytes \<Rightarrow> bytes \<Rightarrow> AuthCommand \<Rightarrow> 'g tpm \<Rightarrow> AuthResponse \<times> 'g tpm" where
  "sign_response P code av p ac q =
     (if ac_session_handle ac = Handle rh_PW
      then (\<lparr>ar_nonce_tpm = [], ar_attributes = ac_attributes ac, ar_hmac = []\<rparr>, q)
      else case in_slot first_session (tpm_sessions q) (ac_session_handle ac) of
          None \<Rightarrow> (\<lparr>ar_nonce_tpm = [], ar_attributes = ac_attributes ac, ar_hmac = []\<rparr>, q)
        | Some ts \<Rightarrow>
            (case os_fill P (tpm_rng q) (hash_len (ts_hash ts)) of (nonce, g) \<Rightarrow>
              (\<lparr>ar_nonce_tpm = nonce, ar_attributes = ac_attributes ac,
                ar_hmac = hmac_of P (ts_hash ts) av
                  (digest_of P (ts_hash ts) (to_be_bytes (0 :: 32 word) @ to_be_bytes code @ p) @ nonce @
                   ac_nonce_caller ac @ [sa_bits (ac_attributes ac)])\<rparr>,
               q\<lparr>tpm_sessions := (tpm_sessions q)
                   [unat (handle_raw (ac_session_handle ac) - first_session) :=
                     (if sa_contains (ac_attributes ac) SA_CONTINUE_SESSION
                      then Some (ts\<lparr>ts_nonce := nonce\<rparr>) else None)],
                 tpm_rng := g\<rparr>)))"

section \<open>Commands\<close>

text \<open>Part 2, 6.6: the response codes used.\<close>

definition trc_INITIALIZE :: "32 word" where "trc_INITIALIZE = 0x100"
definition trc_AUTH_MISSING :: "32 word" where "trc_AUTH_MISSING = 0x125"
definition trc_COMMAND_SIZE :: "32 word" where "trc_COMMAND_SIZE = 0x142"
definition trc_COMMAND_CODE :: "32 word" where "trc_COMMAND_CODE = 0x143"
definition trc_AUTH_FAIL :: "32 word" where "trc_AUTH_FAIL = 0x98E"
definition trc_HANDLE :: "32 word" where "trc_HANDLE = 0x18B"
definition trc_HASH :: "32 word" where "trc_HASH = 0x2C3"
definition trc_SIZE :: "32 word" where "trc_SIZE = 0x1D5"
definition trc_INTEGRITY :: "32 word" where "trc_INTEGRITY = 0x1DF"
definition trc_OBJECT_MEMORY :: "32 word" where "trc_OBJECT_MEMORY = 0x902"
definition trc_SESSION_MEMORY :: "32 word" where "trc_SESSION_MEMORY = 0x903"

text \<open>A command body gives an error code, or response handles, parameters and the new state.\<close>

type_synonym 'g step = "'g tpm \<Rightarrow> 32 word + (Handle list \<times> bytes) \<times> 'g tpm"

text \<open>Part 1, 16: the Name of an object is the identifier of its \<open>nameAlg\<close> and the digest of the public area.\<close>

definition object_name_of :: "('h, 'm, 'g) purecrypto \<Rightarrow> Public \<Rightarrow> bytes option" where
  "object_name_of P pub = (case hash_fn_of (name_alg pub) of
       None \<Rightarrow> None
     | Some d \<Rightarrow> Some (to_be_bytes (alg_raw (name_alg pub)) @ digest_of P d (wire_Public pub)))"

text \<open>The data of a sealed object has at most 128 bytes, the value at most the digest's size.\<close>

definition sensitive_fits :: "Public \<Rightarrow> SensitiveCreate \<Rightarrow> bool" where
  "sensitive_fits pub s \<longleftrightarrow> length (buffer_bytes (sens_data s)) \<le> 128 \<and>
     (case hash_fn_of (name_alg pub) of None \<Rightarrow> False | Some d \<Rightarrow> length (buffer_bytes (user_auth s)) \<le> hash_len d)"

definition load_object :: "bytes \<Rightarrow> SensitiveCreate \<Rightarrow> 'g tpm \<Rightarrow> 32 word + Handle \<times> 'g tpm" where
  "load_object name s q = (case first_free (tpm_objects q) of
       None \<Rightarrow> Inl trc_OBJECT_MEMORY
     | Some i \<Rightarrow> Inr (slot_handle first_transient i,
         q\<lparr>tpm_objects := (tpm_objects q)[i := Some \<lparr>to_name = name, to_auth = buffer_bytes (user_auth s),
             to_data = buffer_bytes (sens_data s)\<rparr>]\<rparr>))"

text \<open>Creation data, its hash, and the ticket; the client skips them.\<close>

definition creation_info :: "('h, 'm, 'g) purecrypto \<Rightarrow> hash_fn \<Rightarrow> bytes" where
  "creation_info P d = tpm2b (to_be_bytes (0 :: 32 word)) @ tpm2b (digest_of P d (to_be_bytes (0 :: 32 word))) @
     to_be_bytes st_CREATION @ to_be_bytes rh_OWNER @ tpm2b []"

definition do_create_primary :: "('h, 'm, 'g) purecrypto \<Rightarrow> bytes \<Rightarrow> 'g step" where
  "do_create_primary P params q = (case parse_all parse_create_params params of
       None \<Rightarrow> Inl trc_SIZE
     | Some (s, pub, info, pcrs) \<Rightarrow> (case (hash_fn_of (name_alg pub), object_name_of P pub) of
           (Some d, Some name) \<Rightarrow>
             if \<not> sensitive_fits pub s then Inl trc_SIZE
             else (case load_object name s q of
                 Inl rc \<Rightarrow> Inl rc
               | Inr (h, q') \<Rightarrow> Inr (([h], tpm2b (wire_Public pub) @ creation_info P d @ tpm2b name), q'))
         | _ \<Rightarrow> Inl trc_HASH))"

text \<open>
  A private blob names the parent it was made under; encryption and integrity of the blob are
  beyond this model.
\<close>

definition private_blob :: "bytes \<Rightarrow> SensitiveCreate \<Rightarrow> bytes" where
  "private_blob parent_name s = tpm2b parent_name @ wire_SensitiveCreate s"

definition parse_private :: "(bytes \<times> SensitiveCreate) parser" where
  "parse_private = bindE read_tpm2b (\<lambda>n. bindE parse_SensitiveCreate (\<lambda>s. ret (n, s)))"

definition do_create :: "('h, 'm, 'g) purecrypto \<Rightarrow> bytes \<Rightarrow> bytes \<Rightarrow> 'g step" where
  "do_create P parent_name params q = (case parse_all parse_create_params params of
       None \<Rightarrow> Inl trc_SIZE
     | Some (s, pub, info, pcrs) \<Rightarrow> (case hash_fn_of (name_alg pub) of
           None \<Rightarrow> Inl trc_HASH
         | Some d \<Rightarrow>
             if \<not> sensitive_fits pub s then Inl trc_SIZE
             else Inr (([], tpm2b (private_blob parent_name s) @ tpm2b (wire_Public pub) @ creation_info P d), q)))"

definition parse_load_params :: "(bytes \<times> bytes) parser" where
  "parse_load_params = bindE read_tpm2b (\<lambda>prv. bindE read_tpm2b (\<lambda>pb. ret (prv, pb)))"

definition do_load :: "('h, 'm, 'g) purecrypto \<Rightarrow> bytes \<Rightarrow> bytes \<Rightarrow> 'g step" where
  "do_load P parent_name params q = (case parse_all parse_load_params params of
       None \<Rightarrow> Inl trc_SIZE
     | Some (prv, pb) \<Rightarrow> (case (parse_all parse_private prv, parse_all parse_Public pb) of
           (Some (n, s), Some pub) \<Rightarrow>
             if n \<noteq> parent_name then Inl trc_INTEGRITY
             else (case object_name_of P pub of
                 None \<Rightarrow> Inl trc_HASH
               | Some name \<Rightarrow> (case load_object name s q of
                     Inl rc \<Rightarrow> Inl rc
                   | Inr (h, q') \<Rightarrow> Inr (([h], tpm2b name), q')))
         | _ \<Rightarrow> Inl trc_SIZE))"

definition do_unseal :: "Handle \<Rightarrow> 'g step" where
  "do_unseal h q = (case in_slot first_transient (tpm_objects q) h of
       None \<Rightarrow> Inl trc_HANDLE
     | Some x \<Rightarrow> Inr (([], tpm2b (to_data x)), q))"

text \<open>
  A session starts unbound and unsalted; its first nonce has the size of the caller's.
\<close>

definition parse_session_params :: "(bytes \<times> Alg) parser" where
  "parse_session_params = bindE read_tpm2b (\<lambda>nonce. bindE read_tpm2b (\<lambda>salt. bindE read_u8 (\<lambda>ty.
     bindE parse_SymDefObject (\<lambda>sym. bindE unmarshal_Alg (\<lambda>alg. ret (nonce, alg))))))"

definition do_start_auth_session :: "('h, 'm, 'g) purecrypto \<Rightarrow> bytes \<Rightarrow> 'g step" where
  "do_start_auth_session P params q = (case parse_all parse_session_params params of
       None \<Rightarrow> Inl trc_SIZE
     | Some (nonce, alg) \<Rightarrow> (case (hash_fn_of alg, first_free (tpm_sessions q)) of
           (None, _) \<Rightarrow> Inl trc_HASH
         | (Some d, None) \<Rightarrow> Inl trc_SESSION_MEMORY
         | (Some d, Some i) \<Rightarrow> (case os_fill P (tpm_rng q) (length nonce) of (nt, g) \<Rightarrow>
             Inr (([slot_handle first_session i], tpm2b nt),
               q\<lparr>tpm_sessions := (tpm_sessions q)[i := Some \<lparr>ts_hash = d, ts_nonce = nt\<rparr>], tpm_rng := g\<rparr>))))"

definition free_slot :: "32 word \<Rightarrow> 'a option list \<Rightarrow> Handle \<Rightarrow> 'a option list" where
  "free_slot origin xs h = xs[unat (handle_raw h - origin) := None]"

definition do_flush_context :: "bytes \<Rightarrow> 'g step" where
  "do_flush_context params q = (case parse_all unmarshal_Handle params of
       None \<Rightarrow> Inl trc_SIZE
     | Some h \<Rightarrow>
         if in_slot first_transient (tpm_objects q) h \<noteq> None
         then Inr (([], []), q\<lparr>tpm_objects := free_slot first_transient (tpm_objects q) h\<rparr>)
         else if in_slot first_session (tpm_sessions q) h \<noteq> None
         then Inr (([], []), q\<lparr>tpm_sessions := free_slot first_session (tpm_sessions q) h\<rparr>)
         else Inl trc_HANDLE)"

text \<open>At most 32 random bytes are returned at once.\<close>

definition do_get_random :: "('h, 'm, 'g) purecrypto \<Rightarrow> bytes \<Rightarrow> 'g step" where
  "do_get_random P params q = (case parse_all read_u16 params of
       None \<Rightarrow> Inl trc_SIZE
     | Some n \<Rightarrow> (case os_fill P (tpm_rng q) (min (unat n) 32) of (b, g) \<Rightarrow>
         Inr (([], tpm2b b), q\<lparr>tpm_rng := g\<rparr>)))"

text \<open>One property is returned, the one asked for: the manufacturer code.\<close>

definition do_get_capability :: "bytes \<Rightarrow> 'g step" where
  "do_get_capability params q =
     (case parse_all (bindE read_u32 (\<lambda>c. bindE read_u32 (\<lambda>p. bindE read_u32 (\<lambda>n. ret (c, p, n))))) params of
       None \<Rightarrow> Inl trc_SIZE
     | Some (c, p, n) \<Rightarrow> Inr (([], [0] @ to_be_bytes c @ to_be_bytes (1 :: 32 word) @ to_be_bytes p @
         to_be_bytes (0x49424D00 :: 32 word)), q))"

text \<open>The selected PCRs of the SHA-256 bank, at most eight of them.\<close>

definition selected_pcrs :: "bytes \<Rightarrow> nat list" where
  "selected_pcrs sel = filter (\<lambda>i. bit (sel ! (i div 8)) (i mod 8)) [0..<8 * length sel]"

definition do_pcr_read :: "bytes \<Rightarrow> 'g step" where
  "do_pcr_read params q = (case parse_all unmarshal_PcrSelectionList params of
       None \<Rightarrow> Inl trc_SIZE
     | Some l \<Rightarrow> Inr (([], pcr_reply_params 1 l (take 8
         [Buffer (tpm_pcrs q ! i). s \<leftarrow> selections l, pcr_hash s = Alg_SHA256,
            i \<leftarrow> selected_pcrs (pcr_select s), i < length (tpm_pcrs q)])), q))"

text \<open>
  Extending a PCR: its new value in a bank is the digest of the old one with the digest given; of
  the banks only SHA-256 exists.
\<close>

definition extended :: "('h, 'm, 'g) purecrypto \<Rightarrow> (Alg \<times> bytes) list \<Rightarrow> bytes \<Rightarrow> bytes" where
  "extended P ds v = fold (\<lambda>(alg, d) v. if alg = Alg_SHA256 then digest_of P Sha256 (v @ d) else v) ds v"

definition do_pcr_extend :: "('h, 'm, 'g) purecrypto \<Rightarrow> Handle \<Rightarrow> bytes \<Rightarrow> 'g step" where
  "do_pcr_extend P h params q = (case parse_all parse_digest_values params of
       None \<Rightarrow> Inl trc_SIZE
     | Some ds \<Rightarrow> (let i = unat (handle_raw h) in
         if i < length (tpm_pcrs q)
         then Inr (([], []), q\<lparr>tpm_pcrs := (tpm_pcrs q)[i := extended P ds (tpm_pcrs q ! i)]\<rparr>)
         else Inl trc_HANDLE))"

text \<open>Commands whose effect is beyond this model are accepted.\<close>

definition do_nothing :: "'g step" where
  "do_nothing q = Inr (([], []), q)"

section \<open>Serving a command\<close>

definition handle_count :: "32 word \<Rightarrow> nat" where
  "handle_count code =
     (if code \<in> {cc_CREATE_PRIMARY, cc_CREATE, cc_LOAD, cc_UNSEAL, cc_PCR_EXTEND} then 1
      else if code = cc_START_AUTH_SESSION then 2 else 0)"

definition needs_auth :: "32 word \<Rightarrow> bool" where
  "needs_auth code \<longleftrightarrow> code \<in> {cc_CREATE_PRIMARY, cc_CREATE, cc_LOAD, cc_UNSEAL, cc_PCR_EXTEND}"

definition tpm_body ::
  "('h, 'm, 'g) purecrypto \<Rightarrow> 32 word \<Rightarrow> Handle list \<Rightarrow> bytes \<Rightarrow> bytes \<Rightarrow> 'g step" where
  "tpm_body P code hs name params =
     (if code = cc_CREATE_PRIMARY then do_create_primary P params
      else if code = cc_CREATE then do_create P name params
      else if code = cc_LOAD then do_load P name params
      else if code = cc_UNSEAL then do_unseal (hs ! 0)
      else if code = cc_START_AUTH_SESSION then do_start_auth_session P params
      else if code = cc_FLUSH_CONTEXT then do_flush_context params
      else if code = cc_GET_RANDOM then do_get_random P params
      else if code = cc_GET_CAPABILITY then do_get_capability params
      else if code = cc_PCR_READ then do_pcr_read params
      else if code = cc_PCR_EXTEND then do_pcr_extend P (hs ! 0) params
      else if code = cc_SELF_TEST \<or> code = cc_SHUTDOWN \<or> code = cc_STIR_RANDOM then do_nothing
      else if code = cc_STARTUP then (\<lambda>q. Inl trc_INITIALIZE)
      else (\<lambda>q. Inl trc_COMMAND_CODE))"

definition error_reply :: "32 word \<Rightarrow> bytes" where
  "error_reply rc = to_be_bytes st_NO_SESSIONS @ to_be_bytes (10 :: 32 word) @ to_be_bytes rc @ []"

definition tpm_execute :: "('h, 'm, 'g) purecrypto \<Rightarrow> Request \<Rightarrow> 'g tpm \<Rightarrow> bytes \<times> 'g tpm" where
  "tpm_execute P rq q =
     (let code = rq_code rq; hs = rq_handles rq; params = rq_params rq in
      if needs_auth code then
        (case (rq_auth rq, entity q (hs ! 0)) of
           (None, _) \<Rightarrow> (error_reply trc_AUTH_MISSING, q)
         | (Some ac, None) \<Rightarrow> (error_reply trc_HANDLE, q)
         | (Some ac, Some (name, av)) \<Rightarrow>
             if \<not> auth_accepted P q code name av params ac then (error_reply trc_AUTH_FAIL, q)
             else (case tpm_body P code hs name params q of
                 Inl rc \<Rightarrow> (error_reply rc, q)
               | Inr ((rhs, p), q') \<Rightarrow> (case sign_response P code av p ac q' of
                     (ar, q'') \<Rightarrow> (reply rhs p (Some ar), q''))))
      else (case tpm_body P code hs [] params q of
           Inl rc \<Rightarrow> (error_reply rc, q)
         | Inr ((rhs, p), q') \<Rightarrow> (reply rhs p None, q')))"

definition tpm_serve :: "('h, 'm, 'g) purecrypto \<Rightarrow> bytes \<Rightarrow> 'g tpm \<Rightarrow> bytes \<times> 'g tpm" where
  "tpm_serve P cmd q =
     (case fst (bindE read_u16 (\<lambda>tag. bindE read_u32 (\<lambda>sz. read_u32)) (Reader_new cmd)) of
        Ok code \<Rightarrow> (case fst (parse_request (handle_count code) (Reader_new cmd)) of
            Ok rq \<Rightarrow>
              if unat (rq_size rq) = length cmd then tpm_execute P rq q
              else (error_reply trc_COMMAND_SIZE, q)
          | _ \<Rightarrow> (error_reply trc_COMMAND_SIZE, q))
      | _ \<Rightarrow> (error_reply trc_COMMAND_SIZE, q))"

section \<open>Requests are understood\<close>

lemma bindE_ret_id: "bindE m ret = m"
  by (rule ext) (simp add: bindE_def ret_simp split: prod.split outcome.split)

lemma serve_request:
  assumes len: "length (request code hs ac params) < 2 ^ 32" and wf: "\<forall>a. ac = Some a \<longrightarrow> AuthCommand_wf a"
    and hs: "length hs = handle_count code"
  shows "tpm_serve P (request code hs ac params) q = tpm_execute P
    \<lparr>rq_tag = (if ac = None then st_NO_SESSIONS else st_SESSIONS),
     rq_size = of_nat (length (request code hs ac params)), rq_code = code, rq_handles = hs,
     rq_auth = ac, rq_params = params\<rparr> q"
proof -
  let ?tag = "if ac = None then st_NO_SESSIONS else st_SESSIONS"
  let ?sz = "of_nat (10 + length (request_body hs ac params)) :: 32 word"
  have "reads (bindE read_u16 (\<lambda>tag. bindE read_u32 (\<lambda>sz. bindE read_u32 (\<lambda>c. ret c))))
      (to_be_bytes ?tag @ to_be_bytes ?sz @ to_be_bytes code @ []) code"
    by (rule reads_rules)+
  then have "reads (bindE read_u16 (\<lambda>tag. bindE read_u32 (\<lambda>sz. read_u32)))
      (to_be_bytes ?tag @ to_be_bytes ?sz @ to_be_bytes code) code"
    by (simp add: bindE_ret_id)
  from reads_new [OF this, of "request_body hs ac params"]
  have "fst (bindE read_u16 (\<lambda>tag. bindE read_u32 (\<lambda>sz. read_u32)) (Reader_new (request code hs ac params))) = Ok code"
    by (simp add: request_def)
  then show ?thesis
    using parse_request_reads [OF len wf] by (simp add: tpm_serve_def hs unat_of_nat_u32 [OF len])
qed

section \<open>Slots\<close>

lemma first_free_SomeD: "first_free xs = Some i \<Longrightarrow> i < length xs \<and> xs ! i = None"
  by (induction xs arbitrary: i rule: first_free.induct) auto

lemma slot_index: "i < 2 ^ 32 \<Longrightarrow> unat (handle_raw (slot_handle origin i) - origin) = i"
  by (simp add: slot_handle_def unat_of_nat_u32)

lemma in_slot_update:
  "i < length xs \<Longrightarrow> length xs < 2 ^ 32 \<Longrightarrow> in_slot origin (xs[i := Some a]) (slot_handle origin i) = Some a"
  by (simp add: in_slot_def slot_index)

lemma in_slot_SomeD:
  "in_slot origin xs h = Some a \<Longrightarrow> unat (handle_raw h - origin) < length xs \<and> xs ! unat (handle_raw h - origin) = Some a"
  by (auto simp: in_slot_def Let_def split: if_splits)

text \<open>Handles of loaded objects are in the transient range, those of sessions in the session range.\<close>

lemma slot_raw:
  assumes "i < 2 ^ 24"
  shows "unat (handle_raw (slot_handle first_transient i)) = 0x80000000 + i"
    "unat (handle_raw (slot_handle first_session i)) = 0x02000000 + i"
proof -
  have i: "unat (of_nat i :: 32 word) = i" using assms by (intro unat_of_nat_u32) simp
  show "unat (handle_raw (slot_handle first_transient i)) = 0x80000000 + i"
    "unat (handle_raw (slot_handle first_session i)) = 0x02000000 + i"
    using assms by (simp_all add: slot_handle_def first_transient_def first_session_def unat_add_lem [THEN iffD1] i)
qed

lemma slot_not_reserved:
  assumes "i < 2 ^ 24"
  shows "\<not> fixed_name (slot_handle first_transient i)"
    "slot_handle first_session i \<noteq> Handle rh_PW"
proof -
  have r: "unat rh_OWNER = 0x40000001" "unat rh_ENDORSEMENT = 0x4000000B" "unat rh_PLATFORM = 0x4000000C"
    "unat rh_NULL = 0x40000007" "unat rh_PW = 0x40000009"
    by (simp_all add: tpm_consts)
  show "\<not> fixed_name (slot_handle first_transient i)"
    using slot_raw(1) [OF assms] r by (auto simp: fixed_name_def dest!: arg_cong [where f = unat])
  show "slot_handle first_session i \<noteq> Handle rh_PW"
  proof
    assume "slot_handle first_session i = Handle rh_PW"
    then have "unat (handle_raw (slot_handle first_session i)) = 0x40000009" by (simp add: r)
    then show False using slot_raw(2) [OF assms] assms by simp
  qed
qed

section \<open>The invariant of the TPM's state\<close>

definition tpm_object_wf :: "tpm_object \<Rightarrow> bool" where
  "tpm_object_wf x \<longleftrightarrow> length (to_name x) \<le> 66 \<and> length (to_auth x) \<le> 64 \<and> length (to_data x) \<le> 128"

definition tpm_wf :: "'g tpm \<Rightarrow> bool" where
  "tpm_wf q \<longleftrightarrow> length (tpm_objects q) \<le> 2 ^ 24 \<and> length (tpm_sessions q) \<le> 2 ^ 24 \<and>
     (\<forall>x. Some x \<in> set (tpm_objects q) \<longrightarrow> tpm_object_wf x) \<and>
     length (tpm_pcrs q) = 24 \<and> (\<forall>x \<in> set (tpm_pcrs q). length x = 32)"

lemma in_slot_set: "in_slot origin xs h = Some a \<Longrightarrow> Some a \<in> set xs"
  using in_slot_SomeD [of origin xs h a] by (metis nth_mem)

lemma entity_bounds:
  assumes "tpm_wf q" "entity q h = Some (name, av)"
  shows "length name \<le> 66 \<and> length av \<le> 64"
  using assms in_slot_set [of first_transient "tpm_objects q" h]
  by (auto simp: entity_def tpm_wf_def tpm_object_wf_def split: if_splits)

lemma entity_object:
  assumes "tpm_wf q" "i < length (tpm_objects q)" "tpm_objects q ! i = Some x"
  shows "entity q (slot_handle first_transient i) = Some (to_name x, to_auth x)"
proof -
  have i: "i < 2 ^ 24" using assms by (simp add: tpm_wf_def)
  show ?thesis
    using slot_not_reserved(1) [OF i] slot_index [of i first_transient] assms(2,3) i
    by (simp add: entity_def in_slot_def)
qed

lemma object_name_bound:
  "purecrypto_ok P \<Longrightarrow> object_name_of P pub = Some name \<Longrightarrow> length name \<le> 66"
  using hash_len_bounds(2) by (fastforce simp: object_name_of_def split: option.splits)

text \<open>Loading an object takes a free slot, and the object is found there.\<close>

lemma load_objectD:
  assumes wf: "tpm_wf q" and l: "load_object name s q = Inr (h, q')"
    and b: "length name \<le> 66" "length (buffer_bytes (user_auth s)) \<le> 64" "length (buffer_bytes (sens_data s)) \<le> 128"
  obtains i where "i < length (tpm_objects q)" "tpm_objects q ! i = None" "h = slot_handle first_transient i"
    "q' = q\<lparr>tpm_objects := (tpm_objects q)[i := Some \<lparr>to_name = name, to_auth = buffer_bytes (user_auth s),
       to_data = buffer_bytes (sens_data s)\<rparr>]\<rparr>"
    "tpm_wf q'" "entity q' h = Some (name, buffer_bytes (user_auth s))"
proof -
  obtain i where i: "first_free (tpm_objects q) = Some i" "h = slot_handle first_transient i"
    and q': "q' = q\<lparr>tpm_objects := (tpm_objects q)[i := Some \<lparr>to_name = name, to_auth = buffer_bytes (user_auth s),
       to_data = buffer_bytes (sens_data s)\<rparr>]\<rparr>"
    using l by (auto simp: load_object_def split: option.splits)
  note n = first_free_SomeD [OF i(1)]
  have wf': "tpm_wf q'"
    using wf b unfolding q' tpm_wf_def by (auto simp: tpm_object_wf_def dest!: set_update_subset_insert [THEN subsetD])
  have "entity q' h = Some (name, buffer_bytes (user_auth s))"
    using entity_object [OF wf', of i] n by (simp add: i(2) q')
  then show thesis by (rule that [OF n [THEN conjunct1] n [THEN conjunct2] i(2) q' wf'])
qed

section \<open>Serving\<close>

lemma serve_authorized:
  assumes c: "needs_auth code" "handle_count code = 1" and e: "entity q h = Some (name, av)"
    and a: "auth_accepted P q code name av params ac"
    and b: "tpm_body P code [h] name params q = Inr ((rhs, p), q1)"
    and s: "sign_response P code av p ac q1 = (ar, q2)"
    and wf: "AuthCommand_wf ac" and len: "length (request code [h] (Some ac) params) < 2 ^ 32"
  shows "tpm_serve P (request code [h] (Some ac) params) q = (reply rhs p (Some ar), q2)"
  using serve_request [OF len, of P q] wf
  by (simp add: c(2) tpm_execute_def Let_def c(1) e a b s)

lemma serve_rejected:
  assumes c: "needs_auth code" "handle_count code = 1" and e: "entity q h = Some (name, av)"
    and a: "\<not> auth_accepted P q code name av params ac"
    and wf: "AuthCommand_wf ac" and len: "length (request code [h] (Some ac) params) < 2 ^ 32"
  shows "tpm_serve P (request code [h] (Some ac) params) q = (error_reply trc_AUTH_FAIL, q)"
  using serve_request [OF len, of P q] wf
  by (simp add: c(2) tpm_execute_def Let_def c(1) e a)

lemma serve_unknown:
  assumes c: "needs_auth code" "handle_count code = 1" and e: "entity q h = None"
    and wf: "AuthCommand_wf ac" and len: "length (request code [h] (Some ac) params) < 2 ^ 32"
  shows "tpm_serve P (request code [h] (Some ac) params) q = (error_reply trc_HANDLE, q)"
  using serve_request [OF len, of P q] wf
  by (simp add: c(2) tpm_execute_def Let_def c(1) e)

lemma serve_failed:
  assumes c: "needs_auth code" "handle_count code = 1" and e: "entity q h = Some (name, av)"
    and a: "auth_accepted P q code name av params ac"
    and b: "tpm_body P code [h] name params q = Inl rc"
    and wf: "AuthCommand_wf ac" and len: "length (request code [h] (Some ac) params) < 2 ^ 32"
  shows "tpm_serve P (request code [h] (Some ac) params) q = (error_reply rc, q)"
  using serve_request [OF len, of P q] wf
  by (simp add: c(2) tpm_execute_def Let_def c(1) e a b)

lemma serve_plain:
  assumes c: "\<not> needs_auth code" "handle_count code = length hs"
    and b: "tpm_body P code hs [] params q = Inr ((rhs, p), q1)"
    and len: "length (request code hs None params) < 2 ^ 32"
  shows "tpm_serve P (request code hs None params) q = (reply rhs p None, q1)"
  using serve_request [OF len, of P q]
  by (simp add: c tpm_execute_def Let_def b)

lemma serve_error:
  assumes c: "\<not> needs_auth code" "handle_count code = length hs"
    and b: "tpm_body P code hs [] params q = Inl rc"
    and len: "length (request code hs None params) < 2 ^ 32"
  shows "tpm_serve P (request code hs None params) q = (error_reply rc, q)"
  using serve_request [OF len, of P q]
  by (simp add: c tpm_execute_def Let_def b)

section \<open>What the commands do\<close>

text \<open>The object behind a handle, and how many slots are free.\<close>

definition holds :: "'g tpm \<Rightarrow> Handle \<Rightarrow> bytes \<Rightarrow> SensitiveCreate \<Rightarrow> bool" where
  "holds q h name s \<longleftrightarrow> in_slot first_transient (tpm_objects q) h = Some
     \<lparr>to_name = name, to_auth = buffer_bytes (user_auth s), to_data = buffer_bytes (sens_data s)\<rparr> \<and>
     \<not> fixed_name h"

definition spare :: "'a option list \<Rightarrow> nat" where
  "spare xs = length (filter (\<lambda>x. x = None) xs)"

text \<open>What every command of a sealing round keeps of the TPM's state.\<close>

definition kept :: "'g tpm \<Rightarrow> 'g tpm \<Rightarrow> bool" where
  "kept q q' \<longleftrightarrow> tpm_wf q' \<and> (\<forall>h n s. holds q h n s \<longrightarrow> holds q' h n s) \<and> tpm_pcrs q' = tpm_pcrs q \<and>
     length (tpm_sessions q') = length (tpm_sessions q)"

lemma keptD:
  assumes "kept q q'"
  shows "tpm_wf q'" "holds q h n s \<Longrightarrow> holds q' h n s"
  using assms by (simp_all add: kept_def)

lemma same_objects_kept:
  assumes "tpm_wf q1" "tpm_objects q' = tpm_objects q1" "tpm_pcrs q' = tpm_pcrs q1"
    "length (tpm_sessions q') = length (tpm_sessions q1)"
  shows "kept q1 q'"
  using assms by (simp add: kept_def tpm_wf_def holds_def)

lemma kept_trans: "kept a b \<Longrightarrow> kept b c \<Longrightarrow> kept a c"
  by (simp add: kept_def)

text \<open>A template and a sensitive area the TPM accepts, of moderate size.\<close>

definition sealable :: "Public \<Rightarrow> SensitiveCreate \<Rightarrow> bool" where
  "sealable pub s \<longleftrightarrow> Public_wf pub \<and> length (wire_Public pub) \<le> 1000 \<and> sensitive_fits pub s"

lemma sealableD:
  assumes "sealable pub s"
  obtains d where "hash_fn_of (name_alg pub) = Some d" "Public_wf pub" "length (wire_Public pub) \<le> 1000"
    "sensitive_fits pub s" "SensitiveCreate_wf s" "length (buffer_bytes (user_auth s)) \<le> 64"
    "length (buffer_bytes (sens_data s)) \<le> 128" "length (wire_SensitiveCreate s) \<le> 196"
proof -
  obtain d where d: "hash_fn_of (name_alg pub) = Some d" "length (buffer_bytes (user_auth s)) \<le> hash_len d"
    "length (buffer_bytes (sens_data s)) \<le> 128" "Public_wf pub" "length (wire_Public pub) \<le> 1000"
    using assms by (auto simp: sealable_def sensitive_fits_def split: option.splits)
  have u: "length (buffer_bytes (user_auth s)) \<le> 64" using d(2) hash_len_bounds(2) [of d] by simp
  have "length (wire_Buffer b) \<le> 2 + length (buffer_bytes b)" for b
    by (simp add: wire_Buffer_def length_tpm2b)
  from this [of "user_auth s"] this [of "sens_data s"] show thesis
    using that d u assms
    by (simp add: sealable_def SensitiveCreate_wf_def Buffer_wf_def fits_tpm2b_def wire_SensitiveCreate_def)
qed

lemma create_params_parsed:
  assumes "sealable pub s"
  shows "parse_all parse_create_params (create_params s pub) = Some (s, pub, Buffer_empty, PcrSelectionList [])"
  using assms by (elim sealableD) (auto intro!: parse_all_reads reads_create_params simp: fits_tpm2b_def)

lemma first_free_spare: "0 < spare xs \<Longrightarrow> \<exists>i. first_free xs = Some i"
  by (induction xs rule: first_free.induct) (auto simp: spare_def)

lemma spare_update: "i < length xs \<Longrightarrow> xs ! i = None \<Longrightarrow> Suc (spare (xs[i := Some a])) = spare xs"
proof (induction xs arbitrary: i)
  case (Cons x xs)
  then show ?case by (cases i) (auto simp: spare_def)
qed simp

lemma entity_holds: "holds q h name s \<Longrightarrow> entity q h = Some (name, buffer_bytes (user_auth s))"
  by (simp add: holds_def entity_def)

text \<open>Loading an object, as far as the caller sees.\<close>

lemma load_object_loads:
  assumes wf: "tpm_wf q" and room: "0 < spare (tpm_objects q)"
    and b: "length name \<le> 66" "length (buffer_bytes (user_auth s)) \<le> 64" "length (buffer_bytes (sens_data s)) \<le> 128"
  obtains h q' where "load_object name s q = Inr (h, q')" "kept q q'" "holds q' h name s"
    "in_slot first_transient (tpm_objects q) h = None" "tpm_sessions q' = tpm_sessions q"
    "Suc (spare (tpm_objects q')) = spare (tpm_objects q)"
proof -
  obtain i0 where "first_free (tpm_objects q) = Some i0" using first_free_spare [OF room] by blast
  then obtain h q' where l: "load_object name s q = Inr (h, q')" by (simp add: load_object_def)
  obtain i where i: "i < length (tpm_objects q)" "tpm_objects q ! i = None" and h: "h = slot_handle first_transient i"
    and q': "q' = q\<lparr>tpm_objects := (tpm_objects q)[i := Some \<lparr>to_name = name, to_auth = buffer_bytes (user_auth s),
       to_data = buffer_bytes (sens_data s)\<rparr>]\<rparr>"
    and wf': "tpm_wf q'" and e: "entity q' h = Some (name, buffer_bytes (user_auth s))"
    by (rule load_objectD [OF wf l b])
  have small: "i < 2 ^ 24" using i wf by (simp add: tpm_wf_def)
  then have idx: "unat (handle_raw h - first_transient) = i" unfolding h by (intro slot_index) simp
  have others: "holds q' h' n' s'" if hh: "holds q h' n' s'" for h' n' s'
  proof -
    have "unat (handle_raw h' - first_transient) \<noteq> i" using i hh by (auto simp: holds_def in_slot_def Let_def)
    then show ?thesis using hh by (simp add: holds_def in_slot_def q' Let_def split: if_split_asm)
  qed
  show thesis
  proof (rule that [OF l])
    show "kept q q'" using others wf' by (simp add: kept_def) (simp add: q')
    show "holds q' h name s"
      using i idx slot_not_reserved(1) [OF small] by (simp add: holds_def in_slot_def q' h)
    show "in_slot first_transient (tpm_objects q) h = None" using i idx by (simp add: in_slot_def)
    show "Suc (spare (tpm_objects q')) = spare (tpm_objects q)" using spare_update [OF i] by (simp add: q')
  qed (simp add: q')
qed

lemma command_kinds:
  "needs_auth cc_CREATE_PRIMARY" "needs_auth cc_CREATE" "needs_auth cc_LOAD" "needs_auth cc_UNSEAL"
  "handle_count cc_CREATE_PRIMARY = 1" "handle_count cc_CREATE = 1" "handle_count cc_LOAD = 1"
  "handle_count cc_UNSEAL = 1"
  "\<not> needs_auth cc_START_AUTH_SESSION" "\<not> needs_auth cc_FLUSH_CONTEXT" "\<not> needs_auth cc_GET_RANDOM"
  "\<not> needs_auth cc_GET_CAPABILITY" "\<not> needs_auth cc_PCR_READ" "\<not> needs_auth cc_STARTUP"
  "handle_count cc_START_AUTH_SESSION = 2" "handle_count cc_FLUSH_CONTEXT = 0" "handle_count cc_GET_RANDOM = 0"
  "handle_count cc_GET_CAPABILITY = 0" "handle_count cc_PCR_READ = 0" "handle_count cc_STARTUP = 0"
  "needs_auth cc_PCR_EXTEND" "handle_count cc_PCR_EXTEND = 1" "\<not> needs_auth cc_SELF_TEST"
  "\<not> needs_auth cc_SHUTDOWN" "\<not> needs_auth cc_STIR_RANDOM" "handle_count cc_SELF_TEST = 0"
  "handle_count cc_SHUTDOWN = 0" "handle_count cc_STIR_RANDOM = 0"
  by (simp_all add: needs_auth_def handle_count_def tpm_consts)

lemma command_bodies:
  "tpm_body P cc_CREATE_PRIMARY hs name params = do_create_primary P params"
  "tpm_body P cc_CREATE hs name params = do_create P name params"
  "tpm_body P cc_LOAD hs name params = do_load P name params"
  "tpm_body P cc_UNSEAL hs name params = do_unseal (hs ! 0)"
  "tpm_body P cc_START_AUTH_SESSION hs name params = do_start_auth_session P params"
  "tpm_body P cc_FLUSH_CONTEXT hs name params = do_flush_context params"
  "tpm_body P cc_GET_RANDOM hs name params = do_get_random P params"
  "tpm_body P cc_GET_CAPABILITY hs name params = do_get_capability params"
  "tpm_body P cc_PCR_READ hs name params = do_pcr_read params"
  "tpm_body P cc_STARTUP hs name params = (\<lambda>q. Inl trc_INITIALIZE)"
  "tpm_body P cc_PCR_EXTEND hs name params = do_pcr_extend P (hs ! 0) params"
  "tpm_body P cc_SELF_TEST hs name params = do_nothing" "tpm_body P cc_SHUTDOWN hs name params = do_nothing"
  "tpm_body P cc_STIR_RANDOM hs name params = do_nothing"
  by (simp_all add: tpm_body_def tpm_consts)

lemma length_creation_info: "purecrypto_ok P \<Longrightarrow> length (creation_info P d) \<le> 100"
  using hash_len_bounds(2) [of d] by (simp add: creation_info_def length_tpm2b)

lemma do_create_primary_ok:
  assumes "sealable pub s" "object_name_of P pub = Some name" "load_object name s q = Inr (h, q')"
    "hash_fn_of (name_alg pub) = Some d"
  shows "do_create_primary P (create_params s pub) q =
    Inr (([h], tpm2b (wire_Public pub) @ creation_info P d @ tpm2b name), q')"
  using assms by (simp add: do_create_primary_def create_params_parsed) (simp add: sealable_def)

lemma do_create_ok:
  assumes "sealable pub s" "hash_fn_of (name_alg pub) = Some d"
  shows "do_create P parent_name (create_params s pub) q =
    Inr (([], tpm2b (private_blob parent_name s) @ tpm2b (wire_Public pub) @ creation_info P d), q)"
  using assms by (simp add: do_create_def create_params_parsed) (simp add: sealable_def)

lemma length_private: "sealable pub s \<Longrightarrow> length parent_name \<le> 66 \<Longrightarrow> length (private_blob parent_name s) \<le> 264"
  by (elim sealableD) (simp add: private_blob_def length_tpm2b)

lemma do_load_eq:
  assumes s: "sealable pub s" and n: "length parent_name \<le> 66" and "object_name_of P pub = Some name"
  shows "do_load P parent_name (tpm2b (private_blob parent_name s) @ tpm2b (wire_Public pub)) q =
    (case load_object name s q of Inl rc \<Rightarrow> Inl rc | Inr (h, q') \<Rightarrow> Inr (([h], tpm2b name), q'))"
proof -
  from s obtain d where pub: "Public_wf pub" "length (wire_Public pub) \<le> 1000" "SensitiveCreate_wf s"
    by (rule sealableD)
  have f: "fits_tpm2b (private_blob parent_name s)" "fits_tpm2b (wire_Public pub)" "fits_tpm2b parent_name"
    using length_private [OF s n] pub(2) n by (simp_all add: fits_tpm2b_def)
  have "reads parse_load_params (tpm2b (private_blob parent_name s) @ tpm2b (wire_Public pub) @ [])
      (private_blob parent_name s, wire_Public pub)"
    unfolding parse_load_params_def by (rule f reads_rules)+
  from parse_all_reads [OF this]
  have 1: "parse_all parse_load_params (tpm2b (private_blob parent_name s) @ tpm2b (wire_Public pub)) =
      Some (private_blob parent_name s, wire_Public pub)" by simp
  have "reads parse_private (tpm2b parent_name @ wire_SensitiveCreate s @ []) (parent_name, s)"
    unfolding parse_private_def by (rule f reads_SensitiveCreate pub reads_rules)+
  from parse_all_reads [OF this]
  have 2: "parse_all parse_private (private_blob parent_name s) = Some (parent_name, s)"
    by (simp add: private_blob_def)
  have 3: "parse_all parse_Public (wire_Public pub) = Some pub" by (rule parse_all_reads [OF reads_Public [OF pub(1)]])
  show ?thesis by (simp add: do_load_def 1 2 3 assms)
qed

lemma do_load_ok:
  assumes "sealable pub s" "length parent_name \<le> 66" "object_name_of P pub = Some name" "load_object name s q = Inr (h, q')"
  shows "do_load P parent_name (tpm2b (private_blob parent_name s) @ tpm2b (wire_Public pub)) q =
    Inr (([h], tpm2b name), q')"
  using assms by (simp add: do_load_eq)

lemma do_unseal_ok: "holds q h name s \<Longrightarrow> do_unseal h q = Inr (([], tpm2b (buffer_bytes (sens_data s))), q)"
  by (simp add: do_unseal_def holds_def)

lemma do_start_auth_session_ok:
  assumes f: "fits_tpm2b nonce" and d: "hash_fn_of alg = Some d" and i: "first_free (tpm_sessions q) = Some i"
    and g: "os_fill P (tpm_rng q) (length nonce) = (nt, g)"
  shows "do_start_auth_session P (session_params alg nonce) q = Inr (([slot_handle first_session i], tpm2b nt),
    q\<lparr>tpm_sessions := (tpm_sessions q)[i := Some \<lparr>ts_hash = d, ts_nonce = nt\<rparr>], tpm_rng := g\<rparr>)"
proof -
  have e: "fits_tpm2b []" by (simp add: fits_tpm2b_def)
  have sym: "reads parse_SymDefObject (to_be_bytes (alg_raw Alg_NULL)) sym_null"
    using reads_SymDefObject [of sym_null] by (simp add: SymDefObject_wf_def wire_SymDefObject_def sym_null_def)
  have "reads parse_session_params (tpm2b nonce @ tpm2b [] @ [se_HMAC] @ to_be_bytes (alg_raw Alg_NULL) @
      to_be_bytes (alg_raw alg) @ []) (nonce, alg)"
    unfolding parse_session_params_def by (rule f e sym reads_newtypes reads_rules)+
  from parse_all_reads [OF this]
  have "parse_all parse_session_params (session_params alg nonce) = Some (nonce, alg)"
    by (simp add: session_params_def)
  then show ?thesis by (simp add: do_start_auth_session_def d i g)
qed

lemma do_flush_context_ok:
  "in_slot first_transient (tpm_objects q) h \<noteq> None \<Longrightarrow> do_flush_context (to_be_bytes (handle_raw h)) q =
     Inr (([], []), q\<lparr>tpm_objects := free_slot first_transient (tpm_objects q) h\<rparr>)"
  "in_slot first_transient (tpm_objects q) h = None \<Longrightarrow> in_slot first_session (tpm_sessions q) h \<noteq> None \<Longrightarrow>
     do_flush_context (to_be_bytes (handle_raw h)) q =
     Inr (([], []), q\<lparr>tpm_sessions := free_slot first_session (tpm_sessions q) h\<rparr>)"
  using parse_all_reads [OF reads_newtypes(2) [of h]] by (simp_all add: do_flush_context_def)

lemma do_get_random_ok:
  fixes n :: "16 word"
  shows "os_fill P (tpm_rng q) (min (unat n) 32) = (b, g) \<Longrightarrow>
    do_get_random P (to_be_bytes n) q = Inr (([], tpm2b b), q\<lparr>tpm_rng := g\<rparr>)"
  using parse_all_reads [OF reads_read_prim(3) [of n]] by (simp add: do_get_random_def)

lemma do_get_capability_ok:
  fixes c p n :: "32 word"
  shows "do_get_capability (to_be_bytes c @ to_be_bytes p @ to_be_bytes n) q =
    Inr (([], [0] @ to_be_bytes c @ to_be_bytes (1 :: 32 word) @ to_be_bytes p @ to_be_bytes (0x49424D00 :: 32 word)), q)"
proof -
  have "reads (bindE read_u32 (\<lambda>c. bindE read_u32 (\<lambda>p. bindE read_u32 (\<lambda>n. ret (c, p, n)))))
      (to_be_bytes c @ to_be_bytes p @ to_be_bytes n @ []) (c, p, n)"
    by (rule reads_rules)+
  from parse_all_reads [OF this] show ?thesis by (simp add: do_get_capability_def)
qed

lemma selected_single: "selected_pcrs (pcr_select (PcrSelection_single h i)) = [unat i]"
proof -
  let ?n = "8 * length (pcr_select (PcrSelection_single h i))"
  have "selected_pcrs (pcr_select (PcrSelection_single h i)) = filter (\<lambda>j. j = unat i) [0..<?n]"
    unfolding selected_pcrs_def by (intro filter_cong refl single_bit) simp
  also have "\<dots> = [unat i]"
  proof -
    have "unat i div 8 < length (pcr_select (PcrSelection_single h i))" by (simp add: length_single unat_div)
    then have "unat i < ?n" by (simp add: div_less_iff_less_mult mult.commute)
    then have "[0..<?n] = [0..<unat i] @ unat i # [Suc (unat i)..<?n]" using upt_add_eq_append [of 0 "unat i" "?n - unat i"] by (simp add: upt_conv_Cons)
    then show ?thesis by (simp add: filter_empty_conv)
  qed
  finally show ?thesis .
qed

lemma do_pcr_read_ok:
  assumes "PcrSelectionList_wf l"
  shows "do_pcr_read (marshal_PcrSelectionList l []) q = Inr (([], pcr_reply_params 1 l (take 8
    [Buffer (tpm_pcrs q ! i). s \<leftarrow> selections l, pcr_hash s = Alg_SHA256,
       i \<leftarrow> selected_pcrs (pcr_select s), i < length (tpm_pcrs q)])), q)"
proof -
  have "reads unmarshal_PcrSelectionList (marshal_PcrSelectionList l []) l"
    using codec_PcrSelectionList.reads_marshal [OF assms] by (simp add: to_bytes_def)
  from parse_all_reads [OF this] show ?thesis by (simp add: do_pcr_read_def)
qed

lemma do_pcr_extend_ok:
  assumes "digests_wf ds" "unat (handle_raw h) < length (tpm_pcrs q)"
  shows "do_pcr_extend P h (digest_values ds) q = Inr (([], []), q\<lparr>tpm_pcrs :=
    (tpm_pcrs q)[unat (handle_raw h) := extended P ds (tpm_pcrs q ! unat (handle_raw h))]\<rparr>)"
  using assms parse_all_reads [OF reads_digest_values [OF assms(1)]] by (simp add: do_pcr_extend_def Let_def)

lemma length_extended:
  assumes "purecrypto_ok P" "length v = 32"
  shows "length (extended P ds v) = 32"
  using assms(2) unfolding extended_def
proof (induction ds arbitrary: v)
  case (Cons x ds)
  have "length (case x of (alg, d) \<Rightarrow> if alg = Alg_SHA256 then digest_of P Sha256 (v @ d) else v) = 32"
    using Cons.prems assms(1) by (simp split: prod.split)
  from Cons.IH [OF this] show ?case by (simp add: case_prod_unfold)
qed simp

lemma entity_pcr: "unat (handle_raw h) < 24 \<Longrightarrow> entity q h = Some (permanent_name h, [])"
  by (simp add: entity_def fixed_name_def permanent_name_def)

end
