(* ===== verification/Sealing.thy ===== *)
theory Sealing
  imports Reference_TPM Transports
begin

text \<open>
  The crate and a TPM, end to end. The locale \<open>tpm_link\<close> is the contract of a transport that leads
  to a TPM: what it returns is the TPM's answer. Inside it, every command of a sealing round is
  shown to be accepted by the reference TPM and to bring its answer back, whichever authorization
  is used; a session and the TPM's side of it stay in step.
\<close>

section \<open>Both sides of an authorization\<close>

text \<open>Two lists of slots with the same ones free.\<close>

definition same_slots :: "'a option list \<Rightarrow> 'a option list \<Rightarrow> bool" where
  "same_slots xs ys \<longleftrightarrow> map (\<lambda>x. x = None) xs = map (\<lambda>x. x = None) ys"

text \<open>
  The session of the crate and that of the TPM agree: on the hash, on the last nonce of the TPM,
  and on having no key.
\<close>

definition in_step :: "Session \<Rightarrow> 'g tpm \<Rightarrow> bool" where
  "in_step s q \<longleftrightarrow> (\<exists>d. hash_fn_of (sess_hash_alg s) = Some d \<and>
       in_slot first_session (tpm_sessions q) (sess_handle s) = Some \<lparr>ts_hash = d, ts_nonce = nonce_tpm s\<rparr>) \<and>
     session_key s = [] \<and> bound_name s = [] \<and> sess_handle s \<noteq> Handle rh_PW \<and>
     sa_contains (sess_attributes s) SA_CONTINUE_SESSION"

text \<open>The caller's authorization is the right one for an object with this value.\<close>

fun may_use :: "('h, 'm, 'g, 't) ports \<Rightarrow> Auth \<Rightarrow> bytes \<Rightarrow> 'k tpm \<Rightarrow> bool" where
  "may_use E AuthNone av q \<longleftrightarrow> False"
| "may_use E (AuthPassword pw) av q \<longleftrightarrow> pw = av"
| "may_use E (AuthSession s a) av q \<longleftrightarrow> a = av \<and> feature_std E \<and> in_step s q"

text \<open>A password and a session's handle are the caller's; the nonces of a session change.\<close>

fun same_auth :: "Auth \<Rightarrow> Auth \<Rightarrow> bool" where
  "same_auth (AuthSession s a) (AuthSession s' a') \<longleftrightarrow> a' = a \<and> sess_handle s' = sess_handle s"
| "same_auth auth auth' \<longleftrightarrow> auth' = auth"

lemma same_slots_refl [simp]: "same_slots xs xs"
  by (simp add: same_slots_def)

lemma same_slots_trans: "same_slots xs ys \<Longrightarrow> same_slots ys zs \<Longrightarrow> same_slots xs zs"
  by (simp add: same_slots_def)

lemma same_slotsD:
  assumes "same_slots xs ys"
  shows "length xs = length ys" "spare xs = spare ys"
proof -
  have count: "spare zs = length (filter id (map (\<lambda>x. x = None) zs))" for zs :: "'x option list"
    by (simp add: spare_def filter_map comp_def)
  show "spare xs = spare ys" unfolding count using assms by (simp only: same_slots_def)
  show "length xs = length ys" using assms by (metis same_slots_def length_map)
qed

lemma same_slots_update:
  "i < length xs \<Longrightarrow> xs ! i \<noteq> None \<Longrightarrow> same_slots (xs[i := Some a]) xs"
  by (auto simp: same_slots_def map_update intro: list_update_same_conv [THEN iffD2])

lemma password_accepted:
  "auth_accepted P q code name av params (password_entry pw) \<longleftrightarrow> pw = av"
  by (simp add: auth_accepted_def password_entry_def)

lemma password_signed:
  "sign_response P code av p (password_entry pw) q =
    (\<lparr>ar_nonce_tpm = [], ar_attributes = sa_continue_session, ar_hmac = []\<rparr>, q)"
  by (simp add: sign_response_def password_entry_def)

lemma session_accepted:
  assumes "in_step s q" "hash_fn_of (sess_hash_alg s) = Some d"
  shows "auth_accepted P q code name av params (session_entry P d s av code [name] params nonce)"
  using assms by (auto simp: auth_accepted_def in_step_def session_entry_def command_mac_def hmac_key_def Let_def)

text \<open>The response the TPM signs is the one the session expects, and both take the new nonce.\<close>

lemma session_signed:
  assumes P: "purecrypto_ok P" and step: "in_step s q" and d: "hash_fn_of (sess_hash_alg s) = Some d"
    and ac: "ac = session_entry P d s av code [name] params nonce"
    and q1: "tpm_sessions q1 = tpm_sessions q"
    and sign: "sign_response P code av p ac q1 = (ar, q2)"
  shows "ar_hmac ar = expected_mac P d (s\<lparr>nonce_caller := nonce\<rparr>) av code [name] p ar \<and>
    length (ar_nonce_tpm ar) = hash_len d \<and> tpm_objects q2 = tpm_objects q1 \<and> tpm_pcrs q2 = tpm_pcrs q1 \<and>
    same_slots (tpm_sessions q2) (tpm_sessions q) \<and>
    in_step (s\<lparr>nonce_caller := nonce, nonce_tpm := ar_nonce_tpm ar\<rparr>) q2"
proof -
  let ?i = "unat (handle_raw (sess_handle s) - first_session)"
  have slot: "in_slot first_session (tpm_sessions q1) (sess_handle s) = Some \<lparr>ts_hash = d, ts_nonce = nonce_tpm s\<rparr>"
    and s: "session_key s = []" "bound_name s = []" "sess_handle s \<noteq> Handle rh_PW"
      "sa_contains (sess_attributes s) SA_CONTINUE_SESSION"
    using step d q1 by (auto simp: in_step_def)
  obtain nt g where f: "os_fill P (tpm_rng q1) (hash_len d) = (nt, g)" by fastforce
  have nt: "length nt = hash_len d" by (rule length_nonce [OF P f])
  have i: "?i < length (tpm_sessions q1)" using in_slot_SomeD [OF slot] by simp
  have h: "ac_session_handle ac = sess_handle s" "ac_attributes ac = sess_attributes s"
    "ac_nonce_caller ac = nonce" by (simp_all add: ac session_entry_def)
  have ar: "ar = \<lparr>ar_nonce_tpm = nt, ar_attributes = sess_attributes s,
      ar_hmac = hmac_of P d av (digest_of P d (to_be_bytes (0 :: 32 word) @ to_be_bytes code @ p) @ nt @
        nonce @ [sa_bits (sess_attributes s)])\<rparr>"
    and q2: "q2 = q1\<lparr>tpm_sessions := (tpm_sessions q1)[?i := Some \<lparr>ts_hash = d, ts_nonce = nt\<rparr>], tpm_rng := g\<rparr>"
    using sign s(3,4) by (simp_all add: sign_response_def h slot f)
  have "in_slot first_session (tpm_sessions q2) (sess_handle s) = Some \<lparr>ts_hash = d, ts_nonce = nt\<rparr>"
    using i by (simp add: q2 in_slot_def)
  moreover have "same_slots ((tpm_sessions q1)[?i := Some \<lparr>ts_hash = d, ts_nonce = nt\<rparr>]) (tpm_sessions q1)"
    using in_slot_SomeD [OF slot] by (intro same_slots_update) simp_all
  ultimately show ?thesis
    using d nt s q1 by (simp add: q2 ar expected_mac_def response_mac_def hmac_key_def in_step_def)
qed

lemma length_reply:
  "length (reply hs p ar) = 10 + 4 * length hs + length p + (case ar of None \<Rightarrow> 0
     | Some a \<Rightarrow> 9 + length (ar_nonce_tpm a) + length (ar_hmac a))"
  by (simp add: reply_def reply_body_def wire_auth_response_def length_tpm2b split: option.split)

text \<open>
  One lemma for all authorizations: the entry the crate sends is accepted, and the entry that comes
  back passes its check and leaves both sides ready for the next command.
\<close>

lemma authorization_served:
  assumes P: "purecrypto_ok (crypto E)" and u: "may_use E auth av q" and av: "length av \<le> 64"
  obtains ac auth1 m1 where
    "authorize E code [name] params (auth, m) = (Ok (Some ac), (auth1, m1))" "transport m1 = transport m"
    "auth_accepted (crypto E) q code name av params ac"
    "\<And>p q1 ar q2 rhs. tpm_sessions q1 = tpm_sessions q \<Longrightarrow> sign_response (crypto E) code av p ac q1 = (ar, q2) \<Longrightarrow>
      \<exists>auth'. checked (crypto E) code [name] (rhs, p, Some ar) auth1 = (Ok \<lparr>rr_handles = rhs, rr_params = p\<rparr>, auth') \<and>
        may_use E auth' av q2 \<and> same_auth auth auth' \<and> tpm_objects q2 = tpm_objects q1 \<and>
        tpm_pcrs q2 = tpm_pcrs q1 \<and> same_slots (tpm_sessions q2) (tpm_sessions q) \<and>
        length (ar_nonce_tpm ar) \<le> 64 \<and> length (ar_hmac ar) \<le> 64"
proof (cases auth)
  case AuthNone
  then show thesis using u by simp
next
  case (AuthPassword pw)
  then have pw: "pw = av" "fits_tpm2b av" using u av by (simp_all add: fits_tpm2b_def)
  show thesis
    by (rule that [of "password_entry av" "AuthPassword av" m])
      (use pw in \<open>auto simp: AuthPassword password_accepted password_signed checked_eq P check_response_auth_eq\<close>)
next
  case (AuthSession s a)
  then have a: "a = av" "feature_std E" and step: "in_step s q" using u by simp_all
  then obtain d where d: "hash_fn_of (sess_hash_alg s) = Some d" by (auto simp: in_step_def)
  obtain nonce g where f: "os_fill (crypto E) (os_rng m) (hash_len d) = (nonce, g)" by fastforce
  let ?ac = "session_entry (crypto E) d s av code [name] params nonce"
  let ?s1 = "s\<lparr>nonce_caller := nonce\<rparr>"
  show thesis
  proof (rule that [of ?ac "AuthSession ?s1 av" "m\<lparr>os_rng := g\<rparr>"])
    show "authorize E code [name] params (auth, m) = (Ok (Some ?ac), (AuthSession ?s1 av, m\<lparr>os_rng := g\<rparr>))"
      by (simp add: AuthSession a d f)
    show "auth_accepted (crypto E) q code name av params ?ac" by (rule session_accepted [OF step d])
  next
    fix p q1 ar q2 rhs assume "tpm_sessions q1 = tpm_sessions q" "sign_response (crypto E) code av p ?ac q1 = (ar, q2)"
    note r = session_signed [OF P step d refl this]
    have mac: "length (ar_hmac ar) \<le> 64" "length (ar_nonce_tpm ar) \<le> 64"
      using r hash_len_bounds(2) [of d] by (simp_all add: expected_mac_def response_mac_def P)
    show "\<exists>auth'. checked (crypto E) code [name] (rhs, p, Some ar) (AuthSession ?s1 av) =
          (Ok \<lparr>rr_handles = rhs, rr_params = p\<rparr>, auth') \<and>
        may_use E auth' av q2 \<and> same_auth auth auth' \<and> tpm_objects q2 = tpm_objects q1 \<and>
        tpm_pcrs q2 = tpm_pcrs q1 \<and> same_slots (tpm_sessions q2) (tpm_sessions q) \<and>
        length (ar_nonce_tpm ar) \<le> 64 \<and> length (ar_hmac ar) \<le> 64"
      using r d a mac
      by (intro exI [of _ "AuthSession (s\<lparr>nonce_caller := nonce, nonce_tpm := ar_nonce_tpm ar\<rparr>) av"])
        (simp add: AuthSession checked_eq P check_response_auth_eq)
  qed simp
qed

section \<open>A transport that leads to a TPM\<close>

locale tpm_link =
  fixes send :: "bytes \<Rightarrow> ('t, Error, bytes) eff" and serve :: "bytes \<Rightarrow> 'q \<Rightarrow> bytes \<times> 'q"
    and tpm_of :: "'t \<Rightarrow> 'q" and ready :: "'t \<Rightarrow> bool"
  assumes delivers: "ready t \<Longrightarrow> f \<noteq> [] \<Longrightarrow> length f < 2 ^ 32 \<Longrightarrow> serve f (tpm_of t) = (r, q) \<Longrightarrow>
      r \<noteq> [] \<Longrightarrow> length r \<le> 4096 \<Longrightarrow> \<exists>t'. send f t = (Ok r, t') \<and> tpm_of t' = q \<and> ready t'"
begin

lemma serve_answered:
  assumes E: "transmit E = send" and r: "ready (transport m)"
    and a: "authorize E code names params (auth, m) = (Ok ac, (auth1, m1))" "transport m1 = transport m"
    and len: "length (request code hs ac params) < 2 ^ 32"
    and s: "serve (request code hs ac params) (tpm_of (transport m)) = (reply rhs p ar, q)"
    and wf: "length (reply rhs p ar) \<le> 4096" "\<forall>a. ar = Some a \<longrightarrow> AuthResponse_wf a"
    and c: "checked (crypto E) code names (rhs, p, ar) auth1 = (Ok \<lparr>rr_handles = rhs, rr_params = p\<rparr>, auth')"
  obtains t where "answered E code hs names params (auth, m) rhs p (auth', m1\<lparr>transport := t\<rparr>)"
    "tpm_of t = q" "ready t"
proof -
  have "request code hs ac params \<noteq> []" "reply rhs p ar \<noteq> []"
    using length_request [of code hs ac params] length_reply [of rhs p ar] by auto
  then obtain t where t: "send (request code hs ac params) (transport m) = (Ok (reply rhs p ar), t)"
      "tpm_of t = q" "ready t"
    using delivers [OF r _ len s _ wf(1)] by blast
  have "reply_wf rhs p ar" using wf by (auto simp: reply_wf_def)
  then show thesis
    using that [of t] a c t E by (auto simp: answered_def)
qed

end

text \<open>The TPM behind the transport is the reference TPM, over the same primitives.\<close>

locale reference_link = tpm_link send "tpm_serve P" tpm_of ready
  for send :: "bytes \<Rightarrow> ('t, Error, bytes) eff" and P :: "('h, 'm, 'g) purecrypto"
    and tpm_of :: "'t \<Rightarrow> 'g tpm" and ready :: "'t \<Rightarrow> bool"
begin

lemma authorized_command:
  assumes E: "transmit E = send" and C: "crypto E = P" and primitives: "purecrypto_ok P"
    and r: "ready (transport m)" and wf: "tpm_wf (tpm_of (transport m))"
    and c: "needs_auth code" "handle_count code = 1"
    and e: "entity (tpm_of (transport m)) h = Some (name, av)"
    and u: "may_use E auth av (tpm_of (transport m))"
    and b: "tpm_body (crypto E) code [h] name params (tpm_of (transport m)) = Inr ((rhs, p), q1)"
    and q1: "tpm_sessions q1 = tpm_sessions (tpm_of (transport m))"
    and fits: "request_fits [h] params" and size: "length p \<le> 3800" "length rhs \<le> 1"
  obtains auth' m' where "answered E code [h] [name] params (auth, m) rhs p (auth', m')"
    "ready (transport m')" "may_use E auth' av (tpm_of (transport m'))" "same_auth auth auth'"
    "tpm_objects (tpm_of (transport m')) = tpm_objects q1" "tpm_pcrs (tpm_of (transport m')) = tpm_pcrs q1"
    "same_slots (tpm_sessions (tpm_of (transport m'))) (tpm_sessions (tpm_of (transport m)))"
proof -
  note P = primitives [folded C]
  let ?q = "tpm_of (transport m)"
  have av: "length av \<le> 64" using entity_bounds [OF wf e] by simp
  obtain ac auth1 m1 where a: "authorize E code [name] params (auth, m) = (Ok (Some ac), (auth1, m1))"
      "transport m1 = transport m" and acc: "auth_accepted (crypto E) ?q code name av params ac"
    and resp: "\<And>p q1 ar q2 rhs. tpm_sessions q1 = tpm_sessions ?q \<Longrightarrow>
      sign_response (crypto E) code av p ac q1 = (ar, q2) \<Longrightarrow>
      \<exists>auth'. checked (crypto E) code [name] (rhs, p, Some ar) auth1 = (Ok \<lparr>rr_handles = rhs, rr_params = p\<rparr>, auth') \<and>
        may_use E auth' av q2 \<and> same_auth auth auth' \<and> tpm_objects q2 = tpm_objects q1 \<and>
        tpm_pcrs q2 = tpm_pcrs q1 \<and> same_slots (tpm_sessions q2) (tpm_sessions ?q) \<and>
        length (ar_nonce_tpm ar) \<le> 64 \<and> length (ar_hmac ar) \<le> 64"
    by (rule authorization_served [OF P u av]) blast
  obtain ar q2 where s: "sign_response (crypto E) code av p ac q1 = (ar, q2)" by fastforce
  obtain auth' where ch: "checked (crypto E) code [name] (rhs, p, Some ar) auth1 =
      (Ok \<lparr>rr_handles = rhs, rr_params = p\<rparr>, auth')" and
    rest: "may_use E auth' av q2" "same_auth auth auth'" "tpm_objects q2 = tpm_objects q1" "tpm_pcrs q2 = tpm_pcrs q1"
      "same_slots (tpm_sessions q2) (tpm_sessions ?q)" "length (ar_nonce_tpm ar) \<le> 64" "length (ar_hmac ar) \<le> 64"
    using resp [OF q1 s] by blast
  note acwf = authorize_wf [OF P a(1)]
  have len: "length (request code [h] (Some ac) params) < 2 ^ 32"
    using acwf by (intro request_room [OF fits]) simp
  have "tpm_serve P (request code [h] (Some ac) params) ?q = (reply rhs p (Some ar), q2)"
    unfolding C [symmetric] using acwf by (intro serve_authorized [OF c e acc b s _ len]) simp
  from serve_answered [OF E r a len this _ _ ch] obtain t where
    "answered E code [h] [name] params (auth, m) rhs p (auth', m1\<lparr>transport := t\<rparr>)" "tpm_of t = q2" "ready t"
    using rest(6,7) size by (auto simp: length_reply AuthResponse_wf_def fits_tpm2b_def)
  then show thesis using that [of auth' "m1\<lparr>transport := t\<rparr>"] rest by simp
qed

lemma plain_command:
  assumes E: "transmit E = send" and C: "crypto E = P" and primitives: "purecrypto_ok P"
    and r: "ready (transport m)"
    and c: "\<not> needs_auth code" "handle_count code = length hs"
    and b: "tpm_body (crypto E) code hs [] params (tpm_of (transport m)) = Inr ((rhs, p), q1)"
    and fits: "request_fits hs params" and size: "length p \<le> 3800" "length rhs \<le> 1"
  obtains m' where "answered E code hs names params (AuthNone, m) rhs p (AuthNone, m')"
    "ready (transport m')" "tpm_of (transport m') = q1" "os_rng m' = os_rng m"
proof -
  note P = primitives [folded C]
  have len: "length (request code hs None params) < 2 ^ 32" by (rule request_room [OF fits]) simp
  have s: "tpm_serve P (request code hs None params) (tpm_of (transport m)) = (reply rhs p None, q1)"
    unfolding C [symmetric] by (rule serve_plain [OF c b len])
  have ch: "checked (crypto E) code names (rhs, p, None) AuthNone = (Ok \<lparr>rr_handles = rhs, rr_params = p\<rparr>, AuthNone)"
    by (simp add: checked_eq [OF P])
  have a: "authorize E code names params (AuthNone, m) = (Ok None, (AuthNone, m))" by simp
  obtain t where "answered E code hs names params (AuthNone, m) rhs p (AuthNone, m\<lparr>transport := t\<rparr>)"
    "tpm_of t = q1" "ready t"
    by (rule serve_answered [OF E r a refl len s _ _ ch]) (use size in \<open>auto simp: length_reply\<close>)
  then show thesis using that [of "m\<lparr>transport := t\<rparr>"] by simp
qed

section \<open>The commands of a sealing round\<close>

lemma create_primary_served:
  assumes E: "transmit E = send" and C: "crypto E = P" and primitives: "purecrypto_ok P"
    and r: "ready (transport m)" and wf: "tpm_wf (tpm_of (transport m))"
    and h: "hier \<in> {rh_OWNER, rh_ENDORSEMENT, rh_PLATFORM}" and u: "may_use E auth [] (tpm_of (transport m))"
    and s: "sealable pub s" and n: "object_name_of P pub = Some name"
    and room: "0 < spare (tpm_objects (tpm_of (transport m)))"
  obtains hd auth' m' where "create_primary E (Handle hier) s pub (auth, m) =
      (Ok \<lparr>cp_handle = hd, cp_name = Buffer name, cp_public = Buffer (wire_Public pub)\<rparr>, (auth', m'))"
    "ready (transport m')" "kept (tpm_of (transport m)) (tpm_of (transport m'))"
    "holds (tpm_of (transport m')) hd name s"
    "in_slot first_transient (tpm_objects (tpm_of (transport m))) hd = None"
    "Suc (spare (tpm_objects (tpm_of (transport m')))) = spare (tpm_objects (tpm_of (transport m)))"
    "may_use E auth' [] (tpm_of (transport m'))" "same_auth auth auth'"
    "same_slots (tpm_sessions (tpm_of (transport m'))) (tpm_sessions (tpm_of (transport m)))"
proof -
  note P = primitives [folded C]
  let ?q = "tpm_of (transport m)"
  from s obtain d where d: "hash_fn_of (name_alg pub) = Some d" and b: "length (wire_Public pub) \<le> 1000"
    "length (buffer_bytes (user_auth s)) \<le> 64" "length (buffer_bytes (sens_data s)) \<le> 128"
    by (rule sealableD)
  have nb: "length name \<le> 66" using object_name_bound [OF primitives n] .
  obtain hd q1 where l: "load_object name s ?q = Inr (hd, q1)" and k: "kept ?q q1" and q1: "holds q1 hd name s"
    "in_slot first_transient (tpm_objects ?q) hd = None" "tpm_sessions q1 = tpm_sessions ?q"
    "Suc (spare (tpm_objects q1)) = spare (tpm_objects ?q)"
    by (rule load_object_loads [OF wf room nb b(2,3)])
  let ?p = "tpm2b (wire_Public pub) @ creation_info P d @ tpm2b name"
  have e: "entity ?q (Handle hier) = Some (permanent_name (Handle hier), [])"
    using h by (auto simp: entity_def fixed_name_def permanent_name_def)
  have body: "tpm_body (crypto E) cc_CREATE_PRIMARY [Handle hier] (permanent_name (Handle hier))
      (create_params s pub) ?q = Inr (([hd], ?p), q1)"
    by (simp add: command_bodies C do_create_primary_ok [OF s n l d])
  have fits: "request_fits [Handle hier] (create_params s pub)"
    using length_create_params [of s pub] by (intro fits_small) simp_all
  have size: "length ?p \<le> 3800" using length_creation_info [OF primitives, of d] nb b(1) by (simp add: length_tpm2b)
  obtain auth' m' where a: "answered E cc_CREATE_PRIMARY [Handle hier] [permanent_name (Handle hier)]
      (create_params s pub) (auth, m) [hd] ?p (auth', m')" and
    rest: "ready (transport m')" "may_use E auth' [] (tpm_of (transport m'))" "same_auth auth auth'"
      "tpm_objects (tpm_of (transport m')) = tpm_objects q1" "tpm_pcrs (tpm_of (transport m')) = tpm_pcrs q1"
      "same_slots (tpm_sessions (tpm_of (transport m'))) (tpm_sessions ?q)"
    by (rule authorized_command [OF E C primitives r wf command_kinds(1,5) e u body q1(3) fits size]) simp
  have k': "kept q1 (tpm_of (transport m'))" using rest q1 keptD(1) [OF k] by (intro same_objects_kept) (simp_all add: same_slotsD)
  moreover have "create_primary E (Handle hier) s pub (auth, m) =
      (Ok \<lparr>cp_handle = hd, cp_name = Buffer name, cp_public = Buffer (wire_Public pub)\<rparr>, (auth', m'))"
    by (rule create_primary_answered [OF P, where cdata = "to_be_bytes (0 :: 32 word)" and
        chash = "digest_of P d (to_be_bytes (0 :: 32 word))" and tag = st_CREATION and hier = rh_OWNER and
        ticket = "[]" and rest = "[]"])
      (use a nb b(1) hash_len_bounds(2) [of d] in \<open>auto simp: creation_info_def fits_tpm2b_def primitives\<close>)
  ultimately show thesis
    using that [of hd auth' m'] rest q1 kept_trans [OF k k'] keptD(2) [OF k'] by simp
qed

lemma create_served:
  assumes E: "transmit E = send" and C: "crypto E = P" and primitives: "purecrypto_ok P"
    and r: "ready (transport m)" and wf: "tpm_wf (tpm_of (transport m))"
    and p: "holds (tpm_of (transport m)) parent parent_name ps"
    and u: "may_use E auth (buffer_bytes (user_auth ps)) (tpm_of (transport m))"
    and s: "sealable pub s"
  obtains auth' m' where "create E parent parent_name s pub (auth, m) =
      (Ok \<lparr>cr_private = Buffer (private_blob parent_name s), cr_public = Buffer (wire_Public pub)\<rparr>, (auth', m'))"
    "ready (transport m')" "kept (tpm_of (transport m)) (tpm_of (transport m'))"
    "tpm_objects (tpm_of (transport m')) = tpm_objects (tpm_of (transport m))"
    "may_use E auth' (buffer_bytes (user_auth ps)) (tpm_of (transport m'))" "same_auth auth auth'"
    "same_slots (tpm_sessions (tpm_of (transport m'))) (tpm_sessions (tpm_of (transport m)))"
proof -
  note P = primitives [folded C]
  let ?q = "tpm_of (transport m)"
  from s obtain d where d: "hash_fn_of (name_alg pub) = Some d" and b: "length (wire_Public pub) \<le> 1000"
    by (rule sealableD)
  note e = entity_holds [OF p]
  have pn: "length parent_name \<le> 66" using entity_bounds [OF wf e] by simp
  note prv = length_private [OF s pn]
  let ?p = "tpm2b (private_blob parent_name s) @ tpm2b (wire_Public pub) @ creation_info P d"
  have body: "tpm_body (crypto E) cc_CREATE [parent] parent_name (create_params s pub) ?q = Inr (([], ?p), ?q)"
    by (simp add: command_bodies C do_create_ok [OF s d])
  have fits: "request_fits [parent] (create_params s pub)"
    using length_create_params [of s pub] by (intro fits_small) simp_all
  have size: "length ?p \<le> 3800" using length_creation_info [OF primitives, of d] prv b by (simp add: length_tpm2b)
  obtain auth' m' where a: "answered E cc_CREATE [parent] [parent_name] (create_params s pub) (auth, m) [] ?p (auth', m')" and
    rest: "ready (transport m')" "may_use E auth' (buffer_bytes (user_auth ps)) (tpm_of (transport m'))" "same_auth auth auth'"
      "tpm_objects (tpm_of (transport m')) = tpm_objects ?q" "tpm_pcrs (tpm_of (transport m')) = tpm_pcrs ?q"
      "same_slots (tpm_sessions (tpm_of (transport m'))) (tpm_sessions ?q)"
    by (rule authorized_command [OF E C primitives r wf command_kinds(2,6) e u body refl fits size]) simp
  have "create E parent parent_name s pub (auth, m) =
      (Ok \<lparr>cr_private = Buffer (private_blob parent_name s), cr_public = Buffer (wire_Public pub)\<rparr>, (auth', m'))"
    by (rule create_answered [OF P a]) (use prv b in \<open>simp_all add: fits_tpm2b_def\<close>)
  moreover have "kept ?q (tpm_of (transport m'))" using rest wf by (intro same_objects_kept) (simp_all add: same_slotsD)
  ultimately show thesis using that rest by blast
qed

lemma load_served:
  assumes E: "transmit E = send" and C: "crypto E = P" and primitives: "purecrypto_ok P"
    and r: "ready (transport m)" and wf: "tpm_wf (tpm_of (transport m))"
    and p: "holds (tpm_of (transport m)) parent parent_name ps"
    and u: "may_use E auth (buffer_bytes (user_auth ps)) (tpm_of (transport m))"
    and s: "sealable pub s" and n: "object_name_of P pub = Some name"
    and room: "0 < spare (tpm_objects (tpm_of (transport m)))"
  obtains hd auth' m' where "load E parent parent_name (Buffer (private_blob parent_name s)) (Buffer (wire_Public pub))
      (auth, m) = (Ok \<lparr>lr_handle = hd, lr_name = Buffer name\<rparr>, (auth', m'))"
    "ready (transport m')" "kept (tpm_of (transport m)) (tpm_of (transport m'))"
    "holds (tpm_of (transport m')) hd name s"
    "in_slot first_transient (tpm_objects (tpm_of (transport m))) hd = None"
    "may_use E auth' (buffer_bytes (user_auth ps)) (tpm_of (transport m'))" "same_auth auth auth'"
    "same_slots (tpm_sessions (tpm_of (transport m'))) (tpm_sessions (tpm_of (transport m)))"
    "\<exists>q1. load_object name s (tpm_of (transport m)) = Inr (hd, q1) \<and> tpm_objects (tpm_of (transport m')) = tpm_objects q1"
proof -
  note P = primitives [folded C]
  let ?q = "tpm_of (transport m)"
  from s obtain d where b: "length (wire_Public pub) \<le> 1000"
    "length (buffer_bytes (user_auth s)) \<le> 64" "length (buffer_bytes (sens_data s)) \<le> 128"
    by (rule sealableD)
  note e = entity_holds [OF p]
  have pn: "length parent_name \<le> 66" using entity_bounds [OF wf e] by simp
  note prv = length_private [OF s pn]
  have nb: "length name \<le> 66" using object_name_bound [OF primitives n] .
  obtain hd q1 where l: "load_object name s ?q = Inr (hd, q1)" and k: "kept ?q q1" and q1: "holds q1 hd name s"
    "in_slot first_transient (tpm_objects ?q) hd = None" "tpm_sessions q1 = tpm_sessions ?q"
    "Suc (spare (tpm_objects q1)) = spare (tpm_objects ?q)"
    by (rule load_object_loads [OF wf room nb b(2,3)])
  let ?params = "tpm2b (private_blob parent_name s) @ tpm2b (wire_Public pub)"
  have body: "tpm_body (crypto E) cc_LOAD [parent] parent_name ?params ?q = Inr (([hd], tpm2b name), q1)"
    by (simp add: command_bodies C do_load_ok [OF s pn n l])
  have fits: "request_fits [parent] ?params"
    using prv b(1) by (intro fits_small) (simp_all add: length_tpm2b)
  have size: "length (tpm2b name) \<le> 3800" using nb by (simp add: length_tpm2b)
  obtain auth' m' where a: "answered E cc_LOAD [parent] [parent_name] ?params (auth, m) [hd] (tpm2b name) (auth', m')" and
    rest: "ready (transport m')" "may_use E auth' (buffer_bytes (user_auth ps)) (tpm_of (transport m'))" "same_auth auth auth'"
      "tpm_objects (tpm_of (transport m')) = tpm_objects q1" "tpm_pcrs (tpm_of (transport m')) = tpm_pcrs q1"
      "same_slots (tpm_sessions (tpm_of (transport m'))) (tpm_sessions ?q)"
    by (rule authorized_command [OF E C primitives r wf command_kinds(3,7) e u body q1(3) fits size]) simp
  have f: "fits_tpm2b (private_blob parent_name s)" "fits_tpm2b (wire_Public pub)" "fits_tpm2b name"
    using prv b(1) nb by (simp_all add: fits_tpm2b_def)
  have "load E parent parent_name (Buffer (private_blob parent_name s)) (Buffer (wire_Public pub)) (auth, m) =
      (Ok \<lparr>lr_handle = hd, lr_name = Buffer name\<rparr>, (auth', m'))"
    using load_answered [OF P, where rest = "[]"] a f by simp
  moreover have k': "kept q1 (tpm_of (transport m'))" using rest q1 keptD(1) [OF k] by (intro same_objects_kept) (simp_all add: same_slotsD)
  ultimately show thesis
    using that [of hd auth' m'] rest q1 kept_trans [OF k k'] keptD(2) [OF k'] l by simp
qed

lemma unseal_served:
  assumes E: "transmit E = send" and C: "crypto E = P" and primitives: "purecrypto_ok P"
    and r: "ready (transport m)" and wf: "tpm_wf (tpm_of (transport m))"
    and p: "holds (tpm_of (transport m)) item name s"
    and u: "may_use E auth (buffer_bytes (user_auth s)) (tpm_of (transport m))"
  obtains auth' m' where "unseal E item name (auth, m) = (Ok (buffer_bytes (sens_data s)), (auth', m'))"
    "ready (transport m')" "kept (tpm_of (transport m)) (tpm_of (transport m'))"
    "tpm_objects (tpm_of (transport m')) = tpm_objects (tpm_of (transport m))"
    "may_use E auth' (buffer_bytes (user_auth s)) (tpm_of (transport m'))" "same_auth auth auth'"
    "same_slots (tpm_sessions (tpm_of (transport m'))) (tpm_sessions (tpm_of (transport m)))"
proof -
  note P = primitives [folded C]
  let ?q = "tpm_of (transport m)" and ?d = "buffer_bytes (sens_data s)"
  note e = entity_holds [OF p]
  have "length ?d \<le> 128"
    using wf p in_slot_set by (fastforce simp: tpm_wf_def tpm_object_wf_def holds_def)
  then have size: "length (tpm2b ?d) \<le> 3800" and f: "fits_tpm2b ?d" by (simp_all add: length_tpm2b fits_tpm2b_def)
  have body: "tpm_body (crypto E) cc_UNSEAL [item] name [] ?q = Inr (([], tpm2b ?d), ?q)"
    by (simp add: command_bodies do_unseal_ok [OF p])
  have fits: "request_fits [item] []" by (simp add: request_fits_def)
  obtain auth' m' where a: "answered E cc_UNSEAL [item] [name] [] (auth, m) [] (tpm2b ?d) (auth', m')" and
    rest: "ready (transport m')" "may_use E auth' (buffer_bytes (user_auth s)) (tpm_of (transport m'))" "same_auth auth auth'"
      "tpm_objects (tpm_of (transport m')) = tpm_objects ?q" "tpm_pcrs (tpm_of (transport m')) = tpm_pcrs ?q"
      "same_slots (tpm_sessions (tpm_of (transport m'))) (tpm_sessions ?q)"
    by (rule authorized_command [OF E C primitives r wf command_kinds(4,8) e u body refl fits size]) simp
  have "unseal E item name (auth, m) = (Ok ?d, (auth', m'))"
    using unseal_answered [OF P, where rest = "[]"] a f by simp
  moreover have "kept ?q (tpm_of (transport m'))" using rest wf by (intro same_objects_kept) (simp_all add: same_slotsD)
  ultimately show thesis using that rest by blast
qed

end

end
