(* ===== verification/Serving.thy ===== *)
theory Serving
  imports Sealing
begin

text \<open>
  The commands without an authorization against the reference TPM, sessions among them, and the
  refusals: a wrong authorization value, and a TPM that was started before.
\<close>

section \<open>Handles of sessions and objects do not clash\<close>

lemma slot_of_index:
  "slot_handle origin (unat (handle_raw h - origin)) = h"
  by (cases h) (simp add: slot_handle_def)

lemma session_not_object:
  assumes wf: "tpm_wf q" and s: "in_slot first_session (tpm_sessions q) h \<noteq> None"
  shows "in_slot first_transient (tpm_objects q) h = None"
proof -
  obtain a where a: "in_slot first_session (tpm_sessions q) h = Some a" using s by auto
  define i where "i = unat (handle_raw h - first_session)"
  have "i < length (tpm_sessions q)" unfolding i_def using a by (rule in_slot_SomeD [THEN conjunct1])
  then have i: "i < 2 ^ 24" using wf by (simp add: tpm_wf_def)
  have raw: "unat (handle_raw h) = 0x02000000 + i"
    using slot_raw(2) [OF i] by (simp add: slot_of_index i_def)
  have t: "unat first_transient = 0x80000000" by (simp add: first_transient_def)
  have "unat (handle_raw h - first_transient) = 0x82000000 + i"
    using i unat_sub_if' [of "handle_raw h" first_transient] by (simp add: raw t)
  then have "\<not> unat (handle_raw h - first_transient) < length (tpm_objects q)"
    using wf by (simp add: tpm_wf_def)
  then show ?thesis by (simp add: in_slot_def)
qed

lemma same_slot:
  "unat (handle_raw h - origin) = unat (handle_raw h' - origin) \<longleftrightarrow> h = h'"
  by (metis slot_of_index)

lemma free_slot_other:
  "h' \<noteq> h \<Longrightarrow> in_slot origin (free_slot origin xs h) h' = in_slot origin xs h'"
  using same_slot [of h' origin h] by (auto simp: in_slot_def free_slot_def Let_def nth_list_update)

lemma set_free_slot: "set (free_slot origin xs h) \<subseteq> insert None (set xs)"
  by (simp add: free_slot_def set_update_subset_insert)

lemma wf_free_object: "tpm_wf q \<Longrightarrow> tpm_wf (q\<lparr>tpm_objects := free_slot first_transient (tpm_objects q) h\<rparr>)"
  using set_free_slot [of first_transient "tpm_objects q" h] by (auto simp: tpm_wf_def) (auto simp: free_slot_def)

lemma spare_free_slot:
  assumes "in_slot origin xs h = Some a"
  shows "spare (free_slot origin xs h) = Suc (spare xs)"
proof -
  let ?i = "unat (handle_raw h - origin)"
  have i: "?i < length xs" "xs ! ?i = Some a" using in_slot_SomeD [OF assms] by simp_all
  have "Suc (spare ((xs[?i := None])[?i := Some a])) = spare (xs[?i := None])"
    using i(1) by (intro spare_update) simp_all
  then show ?thesis using i list_update_id [of xs ?i] by (simp add: free_slot_def)
qed

lemma error_reply_nonempty: "error_reply rc \<noteq> []"
proof -
  have "length (error_reply rc) = 10" by (simp add: error_reply_def)
  then show ?thesis by auto
qed

section \<open>Sessions, flushing, and queries\<close>

lemma refusals:
  "trc_AUTH_FAIL \<noteq> 0" "\<not> is_transient (TpmRc trc_AUTH_FAIL)" "trc_HANDLE \<noteq> 0" "\<not> is_transient (TpmRc trc_HANDLE)"
  by (simp_all add: trc_AUTH_FAIL_def trc_HANDLE_def is_transient_def base_def is_format_one_def)

context reference_link
begin

lemma start_hmac_session_served:
  assumes E: "transmit E = send" and C: "crypto E = P" and primitives: "purecrypto_ok P"
    and r: "ready (transport m)" and wf: "tpm_wf (tpm_of (transport m))"
    and d: "hash_fn_of alg = Some d" and room: "0 < spare (tpm_sessions (tpm_of (transport m)))"
  obtains s m' where "start_hmac_session E alg m = (Ok s, m')" "ready (transport m')"
    "kept (tpm_of (transport m)) (tpm_of (transport m'))"
    "tpm_objects (tpm_of (transport m')) = tpm_objects (tpm_of (transport m))"
    "in_step s (tpm_of (transport m'))"
proof -
  note P = primitives [folded C]
  let ?q = "tpm_of (transport m)"
  obtain i where i: "first_free (tpm_sessions ?q) = Some i" using first_free_spare [OF room] by blast
  note slot = first_free_SomeD [OF i]
  then have small: "i < 2 ^ 24" using wf by (simp add: tpm_wf_def)
  obtain nonce g where f: "os_fill (crypto E) (os_rng m) (hash_len d) = (nonce, g)" by fastforce
  have nonce: "length nonce = hash_len d" by (rule length_nonce [OF P f])
  then have fn: "fits_tpm2b nonce" using hash_len_bounds(2) [of d] by (simp add: fits_tpm2b_def)
  obtain nt g' where t: "os_fill P (tpm_rng ?q) (length nonce) = (nt, g')" by fastforce
  have "length nt = hash_len d" using length_nonce [OF primitives t] nonce by simp
  then have ft: "fits_tpm2b nt" and nt: "length nt \<le> 64" using hash_len_bounds(2) [of d] by (simp_all add: fits_tpm2b_def)
  let ?q1 = "?q\<lparr>tpm_sessions := (tpm_sessions ?q)[i := Some \<lparr>ts_hash = d, ts_nonce = nt\<rparr>], tpm_rng := g'\<rparr>"
  let ?h = "slot_handle first_session i" and ?m = "m\<lparr>os_rng := g\<rparr>"
  have body: "tpm_body (crypto E) cc_START_AUTH_SESSION [Handle rh_NULL, Handle rh_NULL] [] (session_params alg nonce)
      (tpm_of (transport ?m)) = Inr (([?h], tpm2b nt), ?q1)"
    by (simp add: command_bodies C do_start_auth_session_ok [OF fn d i t])
  have fits: "request_fits [Handle rh_NULL, Handle rh_NULL] (session_params alg nonce)"
    using fn by (intro fits_small) (simp_all add: session_params_def length_tpm2b fits_tpm2b_def)
  have r': "ready (transport ?m)" using r by simp
  have c: "handle_count cc_START_AUTH_SESSION = length [Handle rh_NULL, Handle rh_NULL]"
    by (simp add: command_kinds)
  have size: "length (tpm2b nt) \<le> 3800" using nt by (simp add: length_tpm2b)
  obtain m' where a: "answered E cc_START_AUTH_SESSION [Handle rh_NULL, Handle rh_NULL] [] (session_params alg nonce)
      (AuthNone, ?m) [?h] (tpm2b nt) (AuthNone, m')" and rest: "ready (transport m')" "tpm_of (transport m') = ?q1"
    by (rule plain_command [OF E C primitives r' command_kinds(9) c body fits size]) simp
  have "start_auth_session E alg nonce ?m = (Ok \<lparr>sess_handle = ?h, sess_hash_alg = alg,
      sess_attributes = sa_continue_session, session_key = [], nonce_tpm = nt, nonce_caller = nonce, bound_name = []\<rparr>, m')"
    using start_auth_session_answered [OF P d fn ft, where rest = "[]"] a by simp
  then have "start_hmac_session E alg m = (Ok \<lparr>sess_handle = ?h, sess_hash_alg = alg,
      sess_attributes = sa_continue_session, session_key = [], nonce_tpm = nt, nonce_caller = nonce, bound_name = []\<rparr>, m')"
    by (simp add: start_hmac_session_def crypto_digest_size_eq d bindE_lift_Ok bindE_def f)
  moreover have "kept ?q ?q1" using wf by (simp add: kept_def tpm_wf_def holds_def)
  moreover have "in_slot first_session (tpm_sessions ?q1) ?h = Some \<lparr>ts_hash = d, ts_nonce = nt\<rparr>"
    using slot small wf in_slot_update [of i "tpm_sessions ?q"] by (simp add: tpm_wf_def)
  moreover have "?h \<noteq> Handle rh_PW" by (rule slot_not_reserved(2) [OF small])
  moreover have "sa_contains sa_continue_session SA_CONTINUE_SESSION"
    by (simp add: sa_continue_session_def sa_contains_def)
  ultimately show thesis using that rest d by (simp add: in_step_def)
qed

lemma flush_context_served:
  assumes E: "transmit E = send" and C: "crypto E = P" and primitives: "purecrypto_ok P" and r: "ready (transport m)"
    and b: "do_flush_context (to_be_bytes (handle_raw h)) (tpm_of (transport m)) = Inr (([], []), q1)"
  obtains m' where "flush_context E h m = (Ok (), m')" "ready (transport m')" "tpm_of (transport m') = q1"
proof -
  note P = primitives [folded C]
  have body: "tpm_body (crypto E) cc_FLUSH_CONTEXT [] [] (to_be_bytes (handle_raw h)) (tpm_of (transport m)) =
      Inr (([], []), q1)" by (simp add: command_bodies b)
  have fits: "request_fits [] (to_be_bytes (handle_raw h))" by (simp add: request_fits_def)
  have c: "handle_count cc_FLUSH_CONTEXT = length ([] :: Handle list)" by (simp add: command_kinds)
  obtain m' where "answered E cc_FLUSH_CONTEXT [] [] (to_be_bytes (handle_raw h)) (AuthNone, m) [] [] (AuthNone, m')"
    "ready (transport m')" "tpm_of (transport m') = q1"
    by (rule plain_command [OF E C primitives r command_kinds(10) c body fits]) simp_all
  then show thesis using that unit_answered(2) [OF P] by blast
qed

lemma flush_object_served:
  assumes E: "transmit E = send" and C: "crypto E = P" and primitives: "purecrypto_ok P"
    and r: "ready (transport m)" and wf: "tpm_wf (tpm_of (transport m))"
    and h: "holds (tpm_of (transport m)) h name s"
  obtains m' where "flush_context E h m = (Ok (), m')" "ready (transport m')" "tpm_wf (tpm_of (transport m'))"
    "\<And>h' n' s'. h' \<noteq> h \<Longrightarrow> holds (tpm_of (transport m)) h' n' s' \<Longrightarrow> holds (tpm_of (transport m')) h' n' s'"
    "spare (tpm_objects (tpm_of (transport m'))) = Suc (spare (tpm_objects (tpm_of (transport m))))"
    "tpm_sessions (tpm_of (transport m')) = tpm_sessions (tpm_of (transport m))"
proof -
  let ?q = "tpm_of (transport m)" and ?q1 = "(tpm_of (transport m))\<lparr>tpm_objects :=
    free_slot first_transient (tpm_objects (tpm_of (transport m))) h\<rparr>"
  have slot: "in_slot first_transient (tpm_objects ?q) h \<noteq> None" using h by (simp add: holds_def)
  obtain m' where m': "flush_context E h m = (Ok (), m')" "ready (transport m')" "tpm_of (transport m') = ?q1"
    by (rule flush_context_served [OF E C primitives r do_flush_context_ok(1) [OF slot]])
  show thesis
  proof (rule that [OF m'(1,2)])
    show "tpm_wf (tpm_of (transport m'))" using wf_free_object [OF wf] m'(3) by simp
    show "spare (tpm_objects (tpm_of (transport m'))) = Suc (spare (tpm_objects ?q))"
      using slot spare_free_slot [of first_transient "tpm_objects ?q" h] m'(3) by auto
    show "holds (tpm_of (transport m')) h' n' s'" if "h' \<noteq> h" "holds ?q h' n' s'" for h' n' s'
      using that m'(3) by (simp add: holds_def free_slot_other)
  qed (simp add: m'(3))
qed

lemma flush_session_served:
  assumes E: "transmit E = send" and C: "crypto E = P" and primitives: "purecrypto_ok P"
    and r: "ready (transport m)" and wf: "tpm_wf (tpm_of (transport m))"
    and s: "in_slot first_session (tpm_sessions (tpm_of (transport m))) h \<noteq> None"
  obtains m' where "flush_context E h m = (Ok (), m')" "ready (transport m')"
    "kept (tpm_of (transport m)) (tpm_of (transport m'))"
    "tpm_objects (tpm_of (transport m')) = tpm_objects (tpm_of (transport m))"
proof -
  let ?q = "tpm_of (transport m)"
  obtain m' where m': "flush_context E h m = (Ok (), m')" "ready (transport m')"
    "tpm_of (transport m') = ?q\<lparr>tpm_sessions := free_slot first_session (tpm_sessions ?q) h\<rparr>"
    by (rule flush_context_served [OF E C primitives r do_flush_context_ok(2) [OF session_not_object [OF wf s] s]])
  have "kept ?q (tpm_of (transport m'))"
    using wf m'(3) by (simp add: kept_def holds_def tpm_wf_def free_slot_def)
  then show thesis using that m' by simp
qed

lemma get_random_served:
  assumes E: "transmit E = send" and C: "crypto E = P" and primitives: "purecrypto_ok P" and r: "ready (transport m)"
  obtains b m' where "get_random E n m = (Ok b, m')" "ready (transport m')" "length b = min (unat n) 32"
    "\<exists>g. tpm_of (transport m') = (tpm_of (transport m))\<lparr>tpm_rng := g\<rparr>"
proof -
  note P = primitives [folded C]
  obtain b g where f: "os_fill P (tpm_rng (tpm_of (transport m))) (min (unat n) 32) = (b, g)" by fastforce
  note len = length_nonce [OF primitives f]
  have body: "tpm_body (crypto E) cc_GET_RANDOM [] [] (to_be_bytes n) (tpm_of (transport m)) =
      Inr (([], tpm2b b), (tpm_of (transport m))\<lparr>tpm_rng := g\<rparr>)"
    by (simp add: command_bodies C do_get_random_ok [OF f])
  have fits: "request_fits [] (to_be_bytes n)" by (simp add: request_fits_def)
  have c: "handle_count cc_GET_RANDOM = length ([] :: Handle list)" by (simp add: command_kinds)
  have size: "length (tpm2b b) \<le> 3800" using len by (simp add: length_tpm2b)
  obtain m' where a: "answered E cc_GET_RANDOM [] [] (to_be_bytes n) (AuthNone, m) [] (tpm2b b) (AuthNone, m')"
    "ready (transport m')" "tpm_of (transport m') = (tpm_of (transport m))\<lparr>tpm_rng := g\<rparr>"
    by (rule plain_command [OF E C primitives r command_kinds(11) c body fits size]) simp_all
  have "fits_tpm2b b" using len by (simp add: fits_tpm2b_def)
  then have "get_random E n m = (Ok b, m')"
    using get_random_answered [OF P, where rest = "[]"] a(1) by simp
  then show thesis using that a(2,3) len by blast
qed

lemma get_capability_served:
  assumes E: "transmit E = send" and C: "crypto E = P" and primitives: "purecrypto_ok P" and r: "ready (transport m)"
  obtains data m' where "get_capability E c prp count m =
      (Ok \<lparr>cd_more = False, cd_capability = c, cd_data = data\<rparr>, m')"
    "ready (transport m')" "length data = 12" "tpm_of (transport m') = tpm_of (transport m)"
proof -
  note P = primitives [folded C]
  let ?data = "to_be_bytes (1 :: 32 word) @ to_be_bytes prp @ to_be_bytes (0x49424D00 :: 32 word)"
  have body: "tpm_body (crypto E) cc_GET_CAPABILITY [] [] (to_be_bytes c @ to_be_bytes prp @ to_be_bytes count)
      (tpm_of (transport m)) = Inr (([], 0 # to_be_bytes c @ ?data), tpm_of (transport m))"
    by (simp add: command_bodies do_get_capability_ok)
  have fits: "request_fits [] (to_be_bytes c @ to_be_bytes prp @ to_be_bytes count)" by (simp add: request_fits_def)
  have n: "handle_count cc_GET_CAPABILITY = length ([] :: Handle list)" by (simp add: command_kinds)
  obtain m' where a: "answered E cc_GET_CAPABILITY [] [] (to_be_bytes c @ to_be_bytes prp @ to_be_bytes count)
      (AuthNone, m) [] (0 # to_be_bytes c @ ?data) (AuthNone, m')"
    "ready (transport m')" "tpm_of (transport m') = tpm_of (transport m)"
    by (rule plain_command [OF E C primitives r command_kinds(12) n body fits]) simp_all
  show thesis using that [of ?data m'] get_capability_answered [OF P a(1)] a(2,3) by simp
qed

text \<open>Commands that only report success.\<close>

lemma unit_commands_served:
  assumes E: "transmit E = send" and C: "crypto E = P" and primitives: "purecrypto_ok P" and r: "ready (transport m)"
  shows "\<exists>m'. self_test E full m = (Ok (), m') \<and> ready (transport m') \<and> tpm_of (transport m') = tpm_of (transport m)"
    "\<exists>m'. shutdown E ty m = (Ok (), m') \<and> ready (transport m') \<and> tpm_of (transport m') = tpm_of (transport m)"
    "length data \<le> 128 \<Longrightarrow> \<exists>m'. stir_random E data m = (Ok (), m') \<and> ready (transport m') \<and>
      tpm_of (transport m') = tpm_of (transport m)"
proof -
  note P = primitives [folded C]
  have served: "\<exists>m'. run_plain E code [] [] params 0 m = (Ok \<lparr>rr_handles = [], rr_params = []\<rparr>, m') \<and>
      ready (transport m') \<and> tpm_of (transport m') = tpm_of (transport m)"
    if c: "\<not> needs_auth code" "handle_count code = 0" "tpm_body (crypto E) code [] [] params = do_nothing"
      and fits: "request_fits [] params" for code params
  proof -
    have n: "handle_count code = length ([] :: Handle list)" using c(2) by simp
    have body: "tpm_body (crypto E) code [] [] params (tpm_of (transport m)) = Inr (([], []), tpm_of (transport m))"
      by (simp add: c(3) do_nothing_def)
    obtain m' where a: "answered E code [] [] params (AuthNone, m) [] [] (AuthNone, m')"
      "ready (transport m')" "tpm_of (transport m') = tpm_of (transport m)"
      by (rule plain_command [OF E C primitives r c(1) n body fits]) simp_all
    then show ?thesis using run_plain_answered [OF P fits a(1)] by auto
  qed
  show "\<exists>m'. self_test E full m = (Ok (), m') \<and> ready (transport m') \<and> tpm_of (transport m') = tpm_of (transport m)"
    using served [OF command_kinds(23,26), of "[if full then 1 else 0]"]
    by (auto simp: self_test_def command_bodies request_fits_def bindE_def ret_simp)
  show "\<exists>m'. shutdown E ty m = (Ok (), m') \<and> ready (transport m') \<and> tpm_of (transport m') = tpm_of (transport m)"
    using served [OF command_kinds(24,27), of "to_be_bytes ty"]
    by (auto simp: shutdown_def marshal_prim_def command_bodies request_fits_def bindE_def ret_simp)
  assume data: "length data \<le> 128"
  then have "fits_tpm2b data" by (simp add: fits_tpm2b_def)
  then show "\<exists>m'. stir_random E data m = (Ok (), m') \<and> ready (transport m') \<and> tpm_of (transport m') = tpm_of (transport m)"
    using served [OF command_kinds(25,28), of "tpm2b data"] data
    by (auto simp: stir_random_def marshal_tpm2b_eq command_bodies request_fits_def length_tpm2b bindE_lift_Ok
        bindE_def ret_simp)
qed

text \<open>Extending a PCR.\<close>

lemma pcr_extend_served:
  assumes E: "transmit E = send" and C: "crypto E = P" and primitives: "purecrypto_ok P"
    and r: "ready (transport m)" and wf: "tpm_wf (tpm_of (transport m))"
    and i: "unat pcr < 24" and ds: "digests_wf ds" and fits: "request_fits [Handle pcr] (digest_values ds)"
    and u: "may_use E auth [] (tpm_of (transport m))"
  obtains auth' m' where "pcr_extend E pcr ds (auth, m) = (Ok (), (auth', m'))" "ready (transport m')"
    "tpm_wf (tpm_of (transport m'))" "tpm_objects (tpm_of (transport m')) = tpm_objects (tpm_of (transport m))"
    "tpm_pcrs (tpm_of (transport m')) = (tpm_pcrs (tpm_of (transport m)))
       [unat pcr := extended P ds (tpm_pcrs (tpm_of (transport m)) ! unat pcr)]"
    "may_use E auth' [] (tpm_of (transport m'))" "same_auth auth auth'"
proof -
  note P = primitives [folded C]
  let ?q = "tpm_of (transport m)" and ?h = "Handle pcr"
  let ?q1 = "?q\<lparr>tpm_pcrs := (tpm_pcrs ?q)[unat pcr := extended P ds (tpm_pcrs ?q ! unat pcr)]\<rparr>"
  have n: "length (tpm_pcrs ?q) = 24" "length (tpm_pcrs ?q ! unat pcr) = 32" using wf i by (simp_all add: tpm_wf_def)
  have h: "unat (handle_raw ?h) < 24" using i by simp
  have body: "tpm_body (crypto E) cc_PCR_EXTEND [?h] (permanent_name ?h) (digest_values ds) ?q = Inr (([], []), ?q1)"
    using do_pcr_extend_ok [OF ds, of ?h ?q] i n by (simp add: command_bodies C)
  have q1: "tpm_sessions ?q1 = tpm_sessions ?q" by simp
  obtain auth' m' where a: "answered E cc_PCR_EXTEND [?h] [permanent_name ?h] (digest_values ds) (auth, m) [] [] (auth', m')"
    and rest: "ready (transport m')" "may_use E auth' [] (tpm_of (transport m'))" "same_auth auth auth'"
      "tpm_objects (tpm_of (transport m')) = tpm_objects ?q1" "tpm_pcrs (tpm_of (transport m')) = tpm_pcrs ?q1"
      "same_slots (tpm_sessions (tpm_of (transport m'))) (tpm_sessions ?q)"
    by (rule authorized_command [OF E C primitives r wf command_kinds(21,22) entity_pcr [OF h] u body q1 fits]) simp_all
  have "pcr_extend E pcr ds (auth, m) = (Ok (), (auth', m'))"
    using answered_run [OF P fits a] by (simp add: pcr_extend_def Let_def bindE_def ret_simp)
  moreover have "tpm_wf (tpm_of (transport m'))"
    using wf rest n(2) length_extended [OF primitives n(2), of ds] same_slotsD(1) [OF rest(6)]
    by (auto simp: tpm_wf_def dest!: set_update_subset_insert [THEN subsetD])
  ultimately show thesis using that rest by simp
qed

text \<open>
  A command the TPM answers with an error code: the caller gets that error, and the TPM keeps its state.
\<close>

lemma run_refused:
  assumes E: "transmit E = send" and C: "crypto E = P" and primitives: "purecrypto_ok P"
    and r: "ready (transport m)" and fits: "request_fits hs params" and rc: "rc \<noteq> 0" "\<not> is_transient (TpmRc rc)"
    and a: "authorize E code names params (auth, m) = (Ok ac, (auth1, m1))" "transport m1 = transport m"
    and s: "length (request code hs ac params) < 2 ^ 32 \<Longrightarrow> \<forall>x. ac = Some x \<longrightarrow> AuthCommand_wf x \<Longrightarrow>
      tpm_serve P (request code hs ac params) (tpm_of (transport m)) = (error_reply rc, tpm_of (transport m))"
  obtains m' where "run E code hs names params k (auth, m) = (Err (Tpm (TpmRc rc)), (auth1, m'))"
    "ready (transport m')" "tpm_of (transport m') = tpm_of (transport m)"
proof -
  note P = primitives [folded C]
  have wf: "\<forall>x. ac = Some x \<longrightarrow> AuthCommand_wf x \<and> length (wire_auth_command x) \<le> 65544"
    using authorize_wf [OF P] a(1) by blast
  have len: "length (request code hs ac params) < 2 ^ 32" by (rule request_room [OF fits]) (use wf in blast)
  have ne: "request code hs ac params \<noteq> []" using length_request [of code hs ac params] by auto
  have er: "error_reply rc \<noteq> []" "length (error_reply rc) \<le> 4096"
    by (simp_all add: error_reply_nonempty) (simp add: error_reply_def)
  obtain t where t: "send (request code hs ac params) (transport m) = (Ok (error_reply rc), t)"
    "tpm_of t = tpm_of (transport m)" "ready t"
    using delivers [OF r ne len s [OF len] er] wf by blast
  have "run E code hs names params k (auth, m) = (Err (Tpm (TpmRc rc)), (auth1, m1\<lparr>transport := t\<rparr>))"
    by (rule run_error_reply [OF P fits rc a(1)]) (simp add: E t(1) error_reply_def a(2))
  then show thesis using that [of "m1\<lparr>transport := t\<rparr>"] t by simp
qed

lemma plain_refused:
  assumes E: "transmit E = send" and C: "crypto E = P" and primitives: "purecrypto_ok P"
    and r: "ready (transport m)" and fits: "request_fits [] params" and rc: "rc \<noteq> 0" "\<not> is_transient (TpmRc rc)"
    and c: "\<not> needs_auth code" "handle_count code = 0" and b: "tpm_body P code [] [] params (tpm_of (transport m)) = Inl rc"
  obtains m' where "run_plain E code [] [] params k m = (Err (Tpm (TpmRc rc)), m')"
    "ready (transport m')" "tpm_of (transport m') = tpm_of (transport m)"
proof -
  have n: "handle_count code = length ([] :: Handle list)" using c(2) by simp
  have a: "authorize E code [] params (AuthNone, m) = (Ok None, (AuthNone, m))" by simp
  obtain m' where "run E code [] [] params k (AuthNone, m) = (Err (Tpm (TpmRc rc)), (AuthNone, m'))"
    "ready (transport m')" "tpm_of (transport m') = tpm_of (transport m)"
    by (rule run_refused [OF E C primitives r fits rc a refl serve_error [OF c(1) n b]])
  then show thesis using that by (simp add: run_plain_def)
qed

lemma startup_refused:
  assumes E: "transmit E = send" and C: "crypto E = P" and primitives: "purecrypto_ok P" and r: "ready (transport m)"
  obtains m' where "startup E ty m = (Err (Tpm (TpmRc trc_INITIALIZE)), m')" "ready (transport m')"
    "tpm_of (transport m') = tpm_of (transport m)"
proof -
  have rc: "trc_INITIALIZE \<noteq> 0" "\<not> is_transient (TpmRc trc_INITIALIZE)"
    by (simp_all add: trc_INITIALIZE_def is_transient_def base_def is_format_one_def)
  have fits: "request_fits [] (to_be_bytes ty)" by (simp add: request_fits_def)
  obtain m' where m': "run_plain E cc_STARTUP [] [] (to_be_bytes ty) 0 m = (Err (Tpm (TpmRc trc_INITIALIZE)), m')"
    "ready (transport m')" "tpm_of (transport m') = tpm_of (transport m)"
    by (rule plain_refused [OF E C primitives r fits rc command_kinds(14,20)]) (simp add: command_bodies)
  then show thesis using that by (simp add: startup_def marshal_prim_def bindE_def)
qed

text \<open>Reading one PCR of the SHA-256 bank: its value, or nothing when there is no such PCR.\<close>

lemma pcr_read_one_served:
  assumes E: "transmit E = send" and C: "crypto E = P" and primitives: "purecrypto_ok P"
    and r: "ready (transport m)" and wf: "tpm_wf (tpm_of (transport m))"
  obtains m' where "pcr_read_one E Alg_SHA256 i m =
      (Ok (if unat i < 24 then Some (Buffer (tpm_pcrs (tpm_of (transport m)) ! unat i)) else None), m')"
    "ready (transport m')" "tpm_of (transport m') = tpm_of (transport m)"
proof -
  note P = primitives [folded C]
  let ?q = "tpm_of (transport m)" and ?l = "PcrSelectionList [PcrSelection_single Alg_SHA256 i]"
  let ?ds = "if unat i < 24 then [Buffer (tpm_pcrs ?q ! unat i)] else []"
  have n: "length (tpm_pcrs ?q) = 24" "unat i < 24 \<Longrightarrow> length (tpm_pcrs ?q ! unat i) = 32"
    using wf by (simp_all add: tpm_wf_def)
  have "unat (i div 8) < 2 ^ 5" using unsigned_less [of i, where ?'a = nat] by (simp add: unat_div)
  then have l: "PcrSelectionList_wf ?l"
    by (simp add: PcrSelectionList_wf_def PcrSelection_wf_def length_single)
  have body: "tpm_body (crypto E) cc_PCR_READ [] [] (marshal_PcrSelectionList ?l []) ?q =
      Inr (([], pcr_reply_params 1 ?l ?ds), ?q)"
    using do_pcr_read_ok [OF l, of ?q] by (simp add: command_bodies selected_single n)
  have c: "handle_count cc_PCR_READ = length ([] :: Handle list)" by (simp add: command_kinds)
  have dwf: "list_all Buffer_wf ?ds" using n(2) by (simp add: Buffer_wf_def fits_tpm2b_def)
  have "length (pcr_reply_params 1 ?l ?ds) \<le> 3800"
    using l n(2) by (simp add: pcr_reply_params_def marshal_PcrSelectionList_def marshal_PcrSelection_def
        marshal_prim_def marshal_Alg_eq marshal_Buffer_eq wire_Buffer_def Buffer_wf_def fits_tpm2b_def length_tpm2b
        PcrSelectionList_wf_def PcrSelection_wf_def)
  then obtain m' where a: "answered E cc_PCR_READ [] [] (marshal_PcrSelectionList ?l []) (AuthNone, m)
      [] (pcr_reply_params 1 ?l ?ds) (AuthNone, m')"
    "ready (transport m')" "tpm_of (transport m') = ?q"
    by (rule plain_command [OF E C primitives r command_kinds(13) c body single_fits]) simp_all
  from pcr_read_one_answered [OF P l _ dwf a(1)]
  have "pcr_read_one E Alg_SHA256 i m = (Ok (if unat i < 24 then Some (Buffer (tpm_pcrs ?q ! unat i)) else None), m')"
    by (simp split: if_split_asm)
  then show thesis using that a(2,3) by blast
qed

text \<open>A refused \<open>unseal\<close>: the TPM gives nothing away and keeps its state.\<close>

lemma unseal_error:
  assumes E: "transmit E = send" and C: "crypto E = P" and primitives: "purecrypto_ok P"
    and r: "ready (transport m)" and pw: "fits_tpm2b pw" and rc: "rc \<noteq> 0" "\<not> is_transient (TpmRc rc)"
    and s: "length (request cc_UNSEAL [item] (Some (password_entry pw)) []) < 2 ^ 32 \<Longrightarrow>
      AuthCommand_wf (password_entry pw) \<Longrightarrow>
      tpm_serve P (request cc_UNSEAL [item] (Some (password_entry pw)) []) (tpm_of (transport m)) =
        (error_reply rc, tpm_of (transport m))"
  obtains m' where "unseal E item name (AuthPassword pw, m) = (Err (Tpm (TpmRc rc)), (AuthPassword pw, m'))"
    "ready (transport m')" "tpm_of (transport m') = tpm_of (transport m)"
proof -
  have fits: "request_fits [item] []" by (simp add: request_fits_def)
  have a: "authorize E cc_UNSEAL [name] [] (AuthPassword pw, m) = (Ok (Some (password_entry pw)), (AuthPassword pw, m))"
    using pw by simp
  obtain m' where "run E cc_UNSEAL [item] [name] [] 0 (AuthPassword pw, m) = (Err (Tpm (TpmRc rc)), (AuthPassword pw, m'))"
    "ready (transport m')" "tpm_of (transport m') = tpm_of (transport m)"
    by (rule run_refused [OF E C primitives r fits rc a refl s]) auto
  then show thesis using that by (simp add: unseal_def bindE_def)
qed

lemma unseal_refused:
  assumes E: "transmit E = send" and C: "crypto E = P" and primitives: "purecrypto_ok P"
    and r: "ready (transport m)" and e: "entity (tpm_of (transport m)) item = Some (n, av)"
    and pw: "pw \<noteq> av" "fits_tpm2b pw"
  obtains m' where "unseal E item name (AuthPassword pw, m) =
      (Err (Tpm (TpmRc trc_AUTH_FAIL)), (AuthPassword pw, m'))"
    "ready (transport m')" "tpm_of (transport m') = tpm_of (transport m)"
  by (rule unseal_error [OF E C primitives r pw(2) refusals(1,2), of item name],
      rule serve_rejected [OF command_kinds(4,8) e _ _]) (use pw in \<open>auto simp: password_accepted\<close>)

lemma unseal_unknown:
  assumes E: "transmit E = send" and C: "crypto E = P" and primitives: "purecrypto_ok P"
    and r: "ready (transport m)" and e: "entity (tpm_of (transport m)) item = None" and pw: "fits_tpm2b pw"
  obtains m' where "unseal E item name (AuthPassword pw, m) =
      (Err (Tpm (TpmRc trc_HANDLE)), (AuthPassword pw, m'))"
    "ready (transport m')" "tpm_of (transport m') = tpm_of (transport m)"
  by (rule unseal_error [OF E C primitives r pw refusals(3,4), of item name],
      rule serve_unknown [OF command_kinds(4,8) e]) auto

end

end
