(* ===== verification/Links.thy ===== *)
theory Links
  imports Serving
begin

text \<open>
  The two backends as links to a TPM: the Linux device with the kernel driver behind it, and the
  simulator's command socket with a server that speaks its framing and answers with the TPM.
\<close>

section \<open>The device\<close>

interpretation device_link: tpm_link "device_transmit (kernel serve)" serve "\<lambda>t. kt_tpm (dev_file t)" "\<lambda>_. True"
proof unfold_locales
  fix t :: "'a kernel_tpm DeviceTransport" and f r :: bytes and q
  assume "f \<noteq> []" and s: "serve f (kt_tpm (dev_file t)) = (r, q)" and r: "r \<noteq> []" "length r \<le> 4096"
  from device_transmit_kernel [where answer = serve, OF this(1) s] r
  show "\<exists>t'. device_transmit (kernel serve) f t = (Ok r, t') \<and> kt_tpm (dev_file t') = q \<and> True"
    by simp
qed

interpretation device_tpm: reference_link "device_transmit (kernel (tpm_serve P))" P
    "\<lambda>t. kt_tpm (dev_file t)" "\<lambda>_. True"
  by unfold_locales

section \<open>The simulator\<close>

text \<open>
  The server behind the socket: a TCP stream with the TPM. It works on the bytes it has received
  when the client flushes, which is the last the client does before it reads: a complete command
  frame is taken off, and the response is framed with its length and the acknowledgement zero.
\<close>

record 'q sim_server = tcp_stream +
  sv_tpm :: 'q

definition parse_frame :: "bytes parser" where
  "parse_frame = bindE read_u32 (\<lambda>sel.
     if sel \<noteq> TPM_SEND_COMMAND then raise (Malformed ''not a command frame'')
     else bindE read_u8 (\<lambda>locality. bindE read_u32 (\<lambda>n. take_bytes (unat n))))"

definition frame_reply :: "bytes \<Rightarrow> bytes" where
  "frame_reply r = to_be_bytes (of_nat (length r) :: 32 word) @ r @ to_be_bytes (0 :: 32 word)"

definition sim_react :: "(bytes \<Rightarrow> 'q \<Rightarrow> bytes \<times> 'q) \<Rightarrow> 'q sim_server \<Rightarrow> 'q sim_server" where
  "sim_react serve s = (case parse_all parse_frame (tcp_out s) of
       None \<Rightarrow> s
     | Some cmd \<Rightarrow> (case serve cmd (sv_tpm s) of (r, q) \<Rightarrow>
         s\<lparr>tcp_out := [], tcp_in := tcp_in s @ frame_reply r, sv_tpm := q\<rparr>))"

definition simulator :: "(bytes \<Rightarrow> 'q \<Rightarrow> bytes \<times> 'q) \<Rightarrow> 'q sim_server io" where
  "simulator serve =
     \<lparr>io_write = tcp_write, io_flush = (\<lambda>s. (Ok (), sim_react serve s)), io_read = tcp_read\<rparr>"

interpretation simulator_channel: byte_channel "simulator serve" "\<lambda>s. length (tcp_script s)" tcp_in tcp_out sv_tpm
  by unfold_locales
    (auto simp: simulator_def tcp_write_def tcp_read_def min_def split: list.splits if_splits)

lemma parse_frame_sent:
  assumes "length cmd < 2 ^ 32"
  shows "parse_all parse_frame (to_be_bytes TPM_SEND_COMMAND @ [l] @ to_be_bytes (of_nat (length cmd) :: 32 word) @ cmd) =
    Some cmd"
proof -
  have n: "unat (of_nat (length cmd) :: 32 word) = length cmd" by (rule unat_of_nat_u32 [OF assms])
  have t: "reads (take_bytes (unat (of_nat (length cmd) :: 32 word))) cmd cmd" unfolding n by (rule reads_take) 
  have e: "\<not> TPM_SEND_COMMAND \<noteq> TPM_SEND_COMMAND" by simp
  have "reads (bindE read_u8 (\<lambda>locality. bindE read_u32 (\<lambda>n. bindE (take_bytes (unat n)) ret)))
      ([l] @ to_be_bytes (of_nat (length cmd) :: 32 word) @ cmd @ []) cmd"
    by (rule t reads_read_prim(2) reads_rules)+
  then have "reads parse_frame (to_be_bytes TPM_SEND_COMMAND @ [l] @ to_be_bytes (of_nat (length cmd) :: 32 word) @ cmd) cmd"
    unfolding parse_frame_def bindE_ret_id append_Nil2
    by (intro reads_bindE [OF reads_read_prim(4)]) simp
  then show ?thesis by (rule parse_all_reads)
qed

text \<open>
  A transmission to an idle server is served, however the socket fragments and interrupts.
\<close>

definition sim_idle :: "'q sim_server SimulatorTransport \<Rightarrow> bool" where
  "sim_idle t \<longleftrightarrow> tcp_in (sim_cmd t) = [] \<and> tcp_out (sim_cmd t) = []"

lemma simulator_serves:
  assumes t: "sim_idle t" and f: "length f < 2 ^ 32" and s: "serve f (sv_tpm (sim_cmd t)) = (r, q)"
    and r: "length r \<le> 2 ^ 20"
  obtains c where "sim_transmit (simulator serve) f t = (Ok r, t\<lparr>sim_cmd := c\<rparr>)" "sv_tpm c = q"
    "tcp_in c = []" "tcp_out c = []"
proof -
  let ?D = "simulator serve"
  obtain s1 where s1: "sim_send ?D (sim_locality t) f (sim_cmd t) = (Ok (), s1)"
    "tcp_out s1 = to_be_bytes TPM_SEND_COMMAND @ [sim_locality t] @ to_be_bytes (of_nat (length f) :: 32 word) @ f"
    "tcp_in s1 = []" "sv_tpm s1 = sv_tpm (sim_cmd t)"
    using exchangesD [OF simulator_channel.exchanges_send [of serve "sim_locality t" f], of "sim_cmd t" "[]"] t
    by (auto simp: sim_idle_def)
  let ?s2 = "s1\<lparr>tcp_out := [], tcp_in := frame_reply r, sv_tpm := q\<rparr>"
  have s2: "io_flush ?D s1 = (Ok (), ?s2)"
    using s s1 parse_frame_sent [OF f, of "sim_locality t"] by (simp add: simulator_def sim_react_def)
  have "length r \<le> sim_MAX_RESPONSE" using r by (simp add: sim_MAX_RESPONSE_def)
  from exchangesD [OF simulator_channel.exchanges_receive [OF this, of serve], of ?s2 "[]"]
  obtain c where "sim_receive ?D ?s2 = (Ok r, c)" "tcp_out c = []" "tcp_in c = []" "sv_tpm c = q"
    by (auto simp: frame_reply_def)
  then show thesis
    using that [of c] s1 s2 by (simp add: sim_transmit_halves on_cmd_def bindE_def map_err_eff_def)
qed

interpretation simulator_link: tpm_link "sim_transmit (simulator serve)" serve "\<lambda>t. sv_tpm (sim_cmd t)" sim_idle
proof unfold_locales
  fix t :: "'a sim_server SimulatorTransport" and f r :: bytes and q
  assume t: "sim_idle t" and f: "length f < 2 ^ 32" and s: "serve f (sv_tpm (sim_cmd t)) = (r, q)"
    and r: "length r \<le> 4096"
  have "length r \<le> 2 ^ 20" using r by simp
  then show "\<exists>t'. sim_transmit (simulator serve) f t = (Ok r, t') \<and> sv_tpm (sim_cmd t') = q \<and> sim_idle t'"
    by (rule simulator_serves [where serve = serve, OF t f s]) (auto simp: sim_idle_def)
qed

interpretation simulator_tpm: reference_link "sim_transmit (simulator (tpm_serve P))" P
    "\<lambda>t. sv_tpm (sim_cmd t)" sim_idle
  by unfold_locales

end
