(* ===== verification/Booting.thy ===== *)
theory Booting
  imports Links
begin

text \<open>
  A TPM from power-on: until \<open>TPM2_Startup\<close> every command is answered with \<open>TPM_RC_INITIALIZE\<close>,
  afterwards it is the reference TPM, for which a second startup is the error. The integration
  tests start either way.
\<close>

section \<open>A TPM that may not be started\<close>

definition command_code :: "bytes \<Rightarrow> 32 word option" where
  "command_code cmd =
     (case fst (bindE read_u16 (\<lambda>tag. bindE read_u32 (\<lambda>sz. read_u32)) (Reader_new cmd)) of
        Ok code \<Rightarrow> Some code | _ \<Rightarrow> None)"

definition boot_serve :: "('h, 'm, 'g) purecrypto \<Rightarrow> bytes \<Rightarrow> 'g tpm \<times> bool \<Rightarrow> bytes \<times> 'g tpm \<times> bool" where
  "boot_serve P cmd b = (case b of (q, started) \<Rightarrow>
     if started then (case tpm_serve P cmd q of (r, q') \<Rightarrow> (r, q', True))
     else if command_code cmd = Some cc_STARTUP then (reply [] [] None, q, True)
     else (error_reply trc_INITIALIZE, q, False))"

lemma command_code_request: "command_code (request code hs ac params) = Some code"
proof -
  let ?tag = "if ac = None then st_NO_SESSIONS else st_SESSIONS"
  let ?sz = "of_nat (10 + length (request_body hs ac params)) :: 32 word"
  have "reads (bindE read_u16 (\<lambda>tag. bindE read_u32 (\<lambda>sz. bindE read_u32 ret)))
      (to_be_bytes ?tag @ to_be_bytes ?sz @ to_be_bytes code @ []) code"
    by (rule reads_rules)+
  then have "reads (bindE read_u16 (\<lambda>tag. bindE read_u32 (\<lambda>sz. read_u32)))
      (to_be_bytes ?tag @ to_be_bytes ?sz @ to_be_bytes code) code"
    by (simp add: bindE_ret_id)
  from reads_new [OF this, of "request_body hs ac params"] show ?thesis
    by (simp add: command_code_def request_def)
qed

section \<open>Links to it\<close>

locale boot_link = tpm_link send "boot_serve P" tpm_of ready
  for send :: "bytes \<Rightarrow> ('t, Error, bytes) eff" and P :: "('h, 'm, 'g) purecrypto"
    and tpm_of :: "'t \<Rightarrow> 'g tpm \<times> bool" and ready :: "'t \<Rightarrow> bool"

text \<open>Once started it is a link to the reference TPM.\<close>

sublocale boot_link \<subseteq> started: reference_link send P "\<lambda>t. fst (tpm_of t)" "\<lambda>t. ready t \<and> snd (tpm_of t)"
proof unfold_locales
  fix t and f r :: bytes and q
  assume t: "ready t \<and> snd (tpm_of t)" and f: "f \<noteq> []" "length f < 2 ^ 32"
    and s: "tpm_serve P f (fst (tpm_of t)) = (r, q)" and r: "r \<noteq> []" "length r \<le> 4096"
  have "boot_serve P f (tpm_of t) = (r, q, True)" using t s by (cases "tpm_of t") (simp add: boot_serve_def)
  then show "\<exists>t'. send f t = (Ok r, t') \<and> fst (tpm_of t') = q \<and> ready t' \<and> snd (tpm_of t')"
    using delivers [of t f r "(q, True)"] t f r by auto
qed

context boot_link
begin

lemma startup_starts:
  assumes E: "transmit E = send" and P: "purecrypto_ok (crypto E)"
    and r: "ready (transport m)" and q: "tpm_of (transport m) = (q, False)"
  obtains m' where "startup E ty m = (Ok (), m')" "ready (transport m')" "tpm_of (transport m') = (q, True)"
proof -
  let ?f = "request cc_STARTUP [] None (to_be_bytes ty)"
  have fits: "request_fits [] (to_be_bytes ty)" by (simp add: request_fits_def)
  have len: "length ?f < 2 ^ 32" by (rule request_room [OF fits]) simp
  have ne: "?f \<noteq> []" using length_request [of cc_STARTUP "[]" None "to_be_bytes ty"] by auto
  have s: "boot_serve P ?f (tpm_of (transport m)) = (reply [] [] None, q, True)"
    by (simp add: boot_serve_def q command_code_request)
  have rne: "reply [] [] None \<noteq> []" "length (reply [] [] None) \<le> 4096"
    using length_reply [of "[]" "[]" None] by auto
  obtain t where t: "send ?f (transport m) = (Ok (reply [] [] None), t)" "tpm_of t = (q, True)" "ready t"
    using delivers [OF r ne len s rne] by blast
  have "answered E cc_STARTUP [] [] (to_be_bytes ty) (AuthNone, m) [] [] (AuthNone, m\<lparr>transport := t\<rparr>)"
    by (rule answered_plain [OF P]) (simp_all add: E t(1) reply_wf_def length_reply)
  then have "startup E ty m = (Ok (), m\<lparr>transport := t\<rparr>)" by (rule unit_answered(1) [OF P])
  then show thesis using that t by simp
qed

text \<open>\<open>startup\<close> leads to a started TPM, from either state; only its result tells them apart.\<close>

lemma startup_either:
  assumes E: "transmit E = send" and C: "crypto E = P" and primitives: "purecrypto_ok P"
    and r: "ready (transport m)"
  obtains x m' where "startup E ty m = (x, m')" "x = (if snd (tpm_of (transport m)) then Err (Tpm (TpmRc trc_INITIALIZE)) else Ok ())"
    "ready (transport m')" "tpm_of (transport m') = (fst (tpm_of (transport m)), True)"
proof (cases "snd (tpm_of (transport m))")
  case True
  then have r': "ready (transport m) \<and> snd (tpm_of (transport m))" using r by simp
  obtain m' where m': "startup E ty m = (Err (Tpm (TpmRc trc_INITIALIZE)), m')"
    "ready (transport m') \<and> snd (tpm_of (transport m'))" "fst (tpm_of (transport m')) = fst (tpm_of (transport m))"
    by (rule started.startup_refused [OF E C primitives r'])
  then have "tpm_of (transport m') = (fst (tpm_of (transport m)), True)" by (intro prod_eqI) simp_all
  then show thesis using that [OF m'(1)] m'(2) True by simp
next
  case False
  then have q: "tpm_of (transport m) = (fst (tpm_of (transport m)), False)" by (auto intro: prod_eqI)
  obtain m' where "startup E ty m = (Ok (), m')" "ready (transport m')"
    "tpm_of (transport m') = (fst (tpm_of (transport m)), True)"
    by (rule startup_starts [OF E primitives [folded C] r q])
  then show thesis using that False by simp
qed

end

interpretation simulator_boot: boot_link "sim_transmit (simulator (boot_serve P))" P "\<lambda>t. sv_tpm (sim_cmd t)" sim_idle
  by unfold_locales

interpretation device_boot: boot_link "device_transmit (kernel (boot_serve P))" P "\<lambda>t. kt_tpm (dev_file t)" "\<lambda>_. True"
  by unfold_locales

end
