(* ===== verification/Unit_Tests.thy ===== *)
theory Unit_Tests
  imports Sessions Structures
begin

text \<open>
  The unit tests inside \<open>marshal.rs\<close>, \<open>crypto.rs\<close> and \<open>session.rs\<close>, run on the model: each
  \<open>#[test]\<close> function is the computation it describes, where a failed assertion and an \<open>unwrap\<close> of
  an error are panics. A test that does not touch the crypto crate is evaluated; the others are
  reduced to what they ask of the crate.
\<close>

section \<open>Assertions\<close>

definition assert_that :: "bool \<Rightarrow> unit result" where
  "assert_that b = (if b then Ok () else Panic)"

definition unwrap :: "'a result \<Rightarrow> 'a result" where
  "unwrap x = (case x of Ok a \<Rightarrow> Ok a | Err e \<Rightarrow> Panic | Panic \<Rightarrow> Panic | Loop \<Rightarrow> Loop)"

text \<open>\<open>assert!(f(..).is_err())\<close>.\<close>

definition assert_err :: "'a result \<Rightarrow> unit result" where
  "assert_err x = (case x of Ok a \<Rightarrow> Panic | Err e \<Rightarrow> Ok () | Panic \<Rightarrow> Panic | Loop \<Rightarrow> Loop)"

text \<open>The same in a computation with a state.\<close>

definition unwrap_eff :: "('s, Error, 'a) eff \<Rightarrow> ('s, Error, 'a) eff" where
  "unwrap_eff f s = (case f s of (x, s') \<Rightarrow> (unwrap x, s'))"

definition assert_err_eff :: "('s, Error, 'a) eff \<Rightarrow> ('s, Error, unit) eff" where
  "assert_err_eff f s = (case f s of (x, s') \<Rightarrow> (assert_err x, s'))"

definition assert_eff :: "bool \<Rightarrow> ('s, Error, unit) eff" where
  "assert_eff b = lift_outcome (assert_that b)"

text \<open>A byte string literal.\<close>

definition ascii :: "string \<Rightarrow> bytes" where
  "ascii s = map of_char s"

named_theorems test_simps \<open>evaluation of the tests\<close>

lemma assert_simps [test_simps]:
  "assert_that True = Ok ()" "assert_that False = Panic"
  "assert_err (Err e) = Ok ()" "assert_err (Ok a) = Panic"
  "unwrap (Ok a) = Ok a" "unwrap (Err e) = Panic"
  by (simp_all add: assert_that_def assert_err_def unwrap_def)

lemma assert_eff_True [test_simps]: "bindE (assert_eff True) f = f ()"
  by (rule ext) (simp add: assert_eff_def assert_that_def eff_simps)

lemma assert_Ok: "assert_that b = Ok () \<longleftrightarrow> b"
  by (simp add: assert_that_def)

lemma length_ascii: "length (ascii s) = length s"
  by (simp add: ascii_def)

section \<open>Marshalling\<close>

definition primitives_round_trip :: "unit result" where
  "primitives_round_trip =
     (let out = marshal_prim (0x1122 :: 16 word) [];
          out = marshal_prim (0x33445566 :: 32 word) out;
          out = marshal_prim (0xAA :: 8 word) out
      in bindO (assert_that (out = [0x11, 0x22, 0x33, 0x44, 0x55, 0x66, 0xAA])) (\<lambda>_.
         fst (bindE (unwrap_eff (unmarshal_prim :: 16 word parser)) (\<lambda>a. bindE (assert_eff (a = 0x1122)) (\<lambda>_.
              bindE (unwrap_eff (unmarshal_prim :: 32 word parser)) (\<lambda>b. bindE (assert_eff (b = 0x33445566)) (\<lambda>_.
              bindE (unwrap_eff (unmarshal_prim :: 8 word parser)) (\<lambda>c. bindE (assert_eff (c = 0xAA)) (\<lambda>_.
              bindE reader_is_empty assert_eff)))))) (Reader_new out))))"

definition tpm2b_round_trip :: "unit result" where
  "tpm2b_round_trip =
     (case marshal_tpm2b [0xDE, 0xAD, 0xBE, 0xEF] [] of (x, out) \<Rightarrow>
        bindO (unwrap x) (\<lambda>_.
        bindO (assert_that (out = [0x00, 0x04, 0xDE, 0xAD, 0xBE, 0xEF])) (\<lambda>_.
        fst (bindE (unwrap_eff read_tpm2b) (\<lambda>d. bindE (assert_eff (d = [0xDE, 0xAD, 0xBE, 0xEF])) (\<lambda>_.
             bindE reader_is_empty assert_eff)) (Reader_new out)))))"

definition short_read_is_error :: "unit result" where
  "short_read_is_error = fst (assert_err_eff (unmarshal_prim :: 32 word parser) (Reader_new [0x00]))"

definition tpm2b_overlong_payload_rejected :: "unit result" where
  "tpm2b_overlong_payload_rejected =
     (let big = replicate 0x10000 0 in assert_err (fst (marshal_tpm2b big [])))"

section \<open>Hashes, KDFa and CFB\<close>

definition sha256_of_abc :: bytes where
  "sha256_of_abc = [
     0xba, 0x78, 0x16, 0xbf, 0x8f, 0x01, 0xcf, 0xea, 0x41, 0x41, 0x40, 0xde, 0x5d, 0xae,
     0x22, 0x23, 0xb0, 0x03, 0x61, 0xa3, 0x96, 0x17, 0x7a, 0x9c, 0xb4, 0x10, 0xff, 0x61,
     0xf2, 0x00, 0x15, 0xad]"

definition sha256_abc :: "('h, 'm, 'g) purecrypto \<Rightarrow> unit result" where
  "sha256_abc P = bindO (unwrap (hash P Alg_SHA256 (ascii ''abc''))) (\<lambda>d. assert_that (d = sha256_of_abc))"

definition kdfa_length_and_masking :: "('h, 'm, 'g) purecrypto \<Rightarrow> unit result" where
  "kdfa_length_and_masking P =
     bindO (unwrap (kdfa P Alg_SHA256 (ascii ''key'') (ascii ''LABEL'') [] [] 128)) (\<lambda>k.
     bindO (assert_that (length k = 16)) (\<lambda>_.
     bindO (unwrap (kdfa P Alg_SHA256 (ascii ''key'') (ascii ''LABEL'') [] [] 12)) (\<lambda>k.
     bindO (assert_that (length k = 2)) (\<lambda>_.
     bindO (index_at k 0) (\<lambda>k0. bindO (assert_that (k0 AND 0xF0 = 0)) (\<lambda>_.
     bindO (unwrap (kdfa P Alg_SHA256 (ascii ''key'') (ascii ''LABEL'') (ascii ''ctx'') [] 512)) (\<lambda>k.
     assert_that (length k = 64))))))))"

definition aes_cfb_round_trips :: "('h, 'm, 'g) purecrypto \<Rightarrow> unit result" where
  "aes_cfb_round_trips P =
     (let key = replicate 16 0x42; iv = replicate 16 0x24; orig = ascii ''sixteen byte msg''
      in fst (bindE (unwrap_eff (aes_cfb P key iv True)) (\<lambda>_.
              bindE (\<lambda>buf. (assert_that (buf \<noteq> orig), buf)) (\<lambda>_.
              bindE (unwrap_eff (aes_cfb P key iv False)) (\<lambda>_.
              (\<lambda>buf. (assert_that (buf = orig), buf))))) orig))"

section \<open>Sessions\<close>

definition permanent_name_is_handle_bytes :: "unit result" where
  "permanent_name_is_handle_bytes =
     (let h = Handle 0x40000001 in assert_that (permanent_name h = [0x40, 0x00, 0x00, 0x01]))"

definition unbound_unsalted_session_has_empty_key :: "('h, 'm, 'g) purecrypto \<Rightarrow> unit result" where
  "unbound_unsalted_session_has_empty_key P =
     bindO (unwrap (Session_new P (Handle 0x02000000) Alg_SHA256 (replicate 32 0) (replicate 32 0)
       sa_continue_session [] [] [])) (\<lambda>s. assert_that (session_key s = []))"

definition command_and_response_hmac_round_trip :: "('h, 'm, 'g) purecrypto \<Rightarrow> unit result" where
  "command_and_response_hmac_round_trip P =
     bindO (unwrap (Session_new P (Handle 0x02000000) Alg_SHA256 (replicate 32 0xAA) (replicate 32 0xBB)
       sa_continue_session (ascii ''bindauth'') ([0x00, 0x0b] @ ascii ''objectname'') [])) (\<lambda>s.
     let auth = ascii ''objauth'';
         other_name = [0x00, 0x0b] @ ascii ''someothernm'';
         cp = replicate 32 0x11;
         nc = replicate 32 0xCC
     in fst (bindE (unwrap_eff (command_auth P cp auth other_name nc)) (\<lambda>cmd.
          bindE (assert_eff (ac_nonce_caller cmd = nc)) (\<lambda>_.
          bindE (assert_eff (length (ac_hmac cmd) = 32)) (\<lambda>_.
          let rp = replicate 32 0x22;
              new_tpm = replicate 32 0xDD
          in (\<lambda>s. let key = hmac_key s auth other_name in
            bindE (lift_outcome (unwrap (hmac_parts P Alg_SHA256 key [rp, new_tpm, nc, [sa_bits (sess_attributes s)]])))
            (\<lambda>resp_hmac.
              let resp = \<lparr>ar_nonce_tpm = new_tpm, ar_attributes = sess_attributes s, ar_hmac = resp_hmac\<rparr>
              in bindE (unwrap_eff (verify_response P rp auth other_name resp)) (\<lambda>_.
                 (\<lambda>s. bindE (assert_eff (nonce_tpm s = new_tpm)) (\<lambda>_.
                   let bad = \<lparr>ar_nonce_tpm = new_tpm, ar_attributes = sess_attributes s, ar_hmac = replicate 32 0\<rparr>
                   in assert_err_eff (verify_response P rp auth other_name bad)) s))) s)))) s))"

definition bound_object_drops_auth_value_from_key :: "('h, 'm, 'g) purecrypto \<Rightarrow> unit result" where
  "bound_object_drops_auth_value_from_key P =
     bindO (unwrap (Session_new P (Handle 0x02000000) Alg_SHA256 (replicate 32 0xAA) (replicate 32 0xBB)
       sa_empty (ascii ''bindauth'') (ascii ''boundname'') [])) (\<lambda>s.
     let k_bound = hmac_key s (ascii ''ignored'') (ascii ''boundname'')
     in bindO (assert_that (k_bound = session_key s)) (\<lambda>_.
        let k_other = hmac_key s (ascii ''xyz'') (ascii ''other'')
        in assert_that (length k_other = length (session_key s) + 3)))"

section \<open>The tests on the model\<close>

lemma bytes_1122: "to_be_bytes (0x1122 :: 16 word) = [0x11, 0x22]"
  "to_be_bytes (0x33445566 :: 32 word) = [0x33, 0x44, 0x55, 0x66]"
  "to_be_bytes (0x40000001 :: 32 word) = [0x40, 0x00, 0x00, 0x01]"
  by (simp_all add: to_be_bytes_def upt_rec)

lemma unwrap_reads:
  "reads p bs a \<Longrightarrow> reader_wf r \<Longrightarrow> unread r = bs @ rest \<Longrightarrow>
    bindE (unwrap_eff p) f r = f a (advance (length bs) r)"
  by (simp add: bindE_def unwrap_eff_def readsD test_simps)

lemma is_empty_assert: "reader_wf r \<Longrightarrow> unread r = [] \<Longrightarrow> bindE reader_is_empty assert_eff r = (Ok (), r)"
  by (simp add: reader_is_empty_def bindE_def remaining_eq eff_simps assert_eff_def test_simps)

lemma marshalling_tests:
  "primitives_round_trip = Ok ()" "tpm2b_round_trip = Ok ()" "short_read_is_error = Ok ()"
  "tpm2b_overlong_payload_rejected = Ok ()"
proof -
  let ?bs = "[0x11, 0x22, 0x33, 0x44, 0x55, 0x66, 0xAA] :: bytes"
  have r: "reads unmarshal_prim [0x11, 0x22] (0x1122 :: 16 word)"
      "reads unmarshal_prim [0x33, 0x44, 0x55, 0x66] (0x33445566 :: 32 word)"
      "reads unmarshal_prim [0xAA] (0xAA :: 8 word)"
    using reads_prim [of "0x1122 :: 16 word"] reads_prim [of "0x33445566 :: 32 word"]
      reads_prim [of "0xAA :: 8 word"] by (simp_all add: bytes_1122)
  have 1: "bindE (unwrap_eff (unmarshal_prim :: 16 word parser)) f (Reader_new ?bs) =
      f 0x1122 (advance 2 (Reader_new ?bs))" for f :: "16 word \<Rightarrow> unit parser"
    by (subst unwrap_reads [OF r(1), where rest = "drop 2 ?bs"]) (simp_all add: numeral_2_eq_2)
  have 2: "bindE (unwrap_eff (unmarshal_prim :: 32 word parser)) f (advance 2 (Reader_new ?bs)) =
      f 0x33445566 (advance 6 (Reader_new ?bs))" for f :: "32 word \<Rightarrow> unit parser"
    by (subst unwrap_reads [OF r(2), where rest = "[0xAA]"]) simp_all
  have 3: "bindE (unwrap_eff (unmarshal_prim :: 8 word parser)) f (advance 6 (Reader_new ?bs)) =
      f 0xAA (advance 7 (Reader_new ?bs))" for f :: "8 word \<Rightarrow> unit parser"
    by (subst unwrap_reads [OF r(3), where rest = "[]"]) simp_all
  have 4: "bindE reader_is_empty assert_eff (advance 7 (Reader_new ?bs)) = (Ok (), advance 7 (Reader_new ?bs))"
    by (rule is_empty_assert) simp_all
  show "primitives_round_trip = Ok ()"
    by (simp add: primitives_round_trip_def marshal_prim_def bytes_1122 1 2 3 4 test_simps)
next
  let ?d = "[0xDE, 0xAD, 0xBE, 0xEF] :: bytes" and ?bs = "[0x00, 0x04, 0xDE, 0xAD, 0xBE, 0xEF] :: bytes"
  have t: "tpm2b ?d = ?bs" by (simp add: tpm2b_def to_be_bytes_def upt_rec)
  have f: "fits_tpm2b ?d" by (simp add: fits_tpm2b_def)
  have 1: "bindE (unwrap_eff read_tpm2b) g (Reader_new ?bs) = g ?d (advance 6 (Reader_new ?bs))"
    for g :: "bytes \<Rightarrow> unit parser"
    by (subst unwrap_reads [OF reads_tpm2b [OF f], where rest = "[]"]) (simp_all add: t eval_nat_numeral)
  have 2: "bindE reader_is_empty assert_eff (advance 6 (Reader_new ?bs)) = (Ok (), advance 6 (Reader_new ?bs))"
    by (rule is_empty_assert) simp_all
  show "tpm2b_round_trip = Ok ()"
    by (simp add: tpm2b_round_trip_def marshal_tpm2b_eq f t 1 2 test_simps)
next
  show "short_read_is_error = Ok ()"
    by (simp add: short_read_is_error_def assert_err_eff_def unmarshal_prim_eq bindE_def take_bytes_eq
        assert_err_def eff_simps)
  show "tpm2b_overlong_payload_rejected = Ok ()"
    by (simp add: tpm2b_overlong_payload_rejected_def Let_def marshal_tpm2b_def assert_err_def)
qed

text \<open>What the tests of the crypto layer ask of the crate: the FIPS 180-4 value, and a CFB that changes
  the message and is undone.\<close>

lemma sha256_test:
  "purecrypto_ok P \<Longrightarrow> sha256_abc P = Ok () \<longleftrightarrow> digest_of P Sha256 (ascii ''abc'') = sha256_of_abc"
  by (simp add: sha256_abc_def hash_def hash_parts_eq hash_fn_of_def tpm_consts unwrap_def assert_Ok)

lemma cfb_test:
  "aes_cfb_round_trips P = Ok () \<longleftrightarrow>
    (let key = replicate 16 0x42; iv = replicate 16 0x24; msg = ascii ''sixteen byte msg'';
         enc = cfb_encrypt P Aes128 key iv msg
     in enc \<noteq> msg \<and> cfb_decrypt P Aes128 key iv enc = msg)"
  by (simp add: aes_cfb_round_trips_def Let_def bindE_def unwrap_eff_def aes_cfb_def unwrap_def assert_that_def)

lemma sha256_code: "hash_fn_of Alg_SHA256 = Some Sha256"
  by (simp add: hash_fn_of_def tpm_consts)

lemma high_nibble: "unat (b :: byte) < 16 \<Longrightarrow> b AND 0xF0 = 0"
proof -
  assume "unat b < 16"
  then have "i < 4" if "bit b i" for i using bit_below [of b 4 i] that by simp
  moreover have "\<not> bit (0xF0 :: byte) i" if "i < 4" for i
  proof -
    have "i = 0 \<or> i = 1 \<or> i = 2 \<or> i = 3" using that by linarith
    then show ?thesis by auto
  qed
  ultimately show ?thesis by (auto simp: bit_eq_iff bit_and_iff simp del: bit_numeral_word_iff)
qed

lemma kdfa_test: "purecrypto_ok P \<Longrightarrow> kdfa_length_and_masking P = Ok ()"
proof -
  assume P: "purecrypto_ok P"
  obtain a where a: "kdfa P Alg_SHA256 (ascii ''key'') (ascii ''LABEL'') [] [] 128 = Ok a" "length a = 16"
    using kdfa_hash [OF P sha256_code, of "ascii ''key''" "ascii ''LABEL''" "[]" "[]" 128] by auto
  obtain b where b: "kdfa P Alg_SHA256 (ascii ''key'') (ascii ''LABEL'') [] [] 12 = Ok b" "length b = 2" "unat (hd b) < 16"
    using kdfa_hash [OF P sha256_code, of "ascii ''key''" "ascii ''LABEL''" "[]" "[]" 12] by auto
  obtain c where c: "kdfa P Alg_SHA256 (ascii ''key'') (ascii ''LABEL'') (ascii ''ctx'') [] 512 = Ok c" "length c = 64"
    using kdfa_hash [OF P sha256_code, of "ascii ''key''" "ascii ''LABEL''" "ascii ''ctx''" "[]" 512] by auto
  have "b \<noteq> []" using b(2) by auto
  then have "b ! 0 AND 0xF0 = 0" using high_nibble b(3) by (simp add: hd_conv_nth)
  then show ?thesis
    using \<open>b \<noteq> []\<close> by (simp add: kdfa_length_and_masking_def a b(1,2) c test_simps)
qed

lemma session_tests:
  assumes P: "purecrypto_ok P"
  shows "permanent_name_is_handle_bytes = Ok ()" "unbound_unsalted_session_has_empty_key P = Ok ()"
    "bound_object_drops_auth_value_from_key P = Ok ()"
proof -
  note d = sha256_code
  show "permanent_name_is_handle_bytes = Ok ()"
    by (simp add: permanent_name_is_handle_bytes_def permanent_name_def bytes_1122 test_simps)
  show "unbound_unsalted_session_has_empty_key P = Ok ()"
    by (simp add: unbound_unsalted_session_has_empty_key_def Session_new_eq [OF P] d test_simps)
  show "bound_object_drops_auth_value_from_key P = Ok ()"
    by (simp add: bound_object_drops_auth_value_from_key_def Session_new_eq [OF P] d test_simps hmac_key_def
        ascii_def)
qed

text \<open>
  The last assertion of the round trip, that an all-zero HMAC is refused, holds unless the right
  HMAC is all zeros.
\<close>

lemma hmac_round_trip_test:
  assumes P: "purecrypto_ok P"
  shows "command_and_response_hmac_round_trip P = Ok () \<longleftrightarrow>
    response_mac P Sha256
      (kdfa_spec P Sha256 (ascii ''bindauth'') label_ATH (replicate 32 0xAA) (replicate 32 0xBB) 256 @ ascii ''objauth'')
      (replicate 32 0x22) (replicate 32 0xDD) (replicate 32 0xCC) sa_continue_session \<noteq> replicate 32 0"
proof -
  note d = sha256_code
  let ?auth = "ascii ''objauth''" and ?on = "[0x00, 0x0b] @ ascii ''someothernm''"
  let ?nc = "replicate 32 0xCC" and ?new = "replicate 32 0xDD" and ?rp = "replicate 32 0x22"
  define k where "k = kdfa_spec P Sha256 (ascii ''bindauth'') label_ATH (replicate 32 0xAA) (replicate 32 0xBB) 256"
  define s where "s = \<lparr>sess_handle = Handle 0x02000000, sess_hash_alg = Alg_SHA256,
    sess_attributes = sa_continue_session, session_key = k, nonce_tpm = replicate 32 0xAA,
    nonce_caller = replicate 32 0xBB, bound_name = [0x00, 0x0b] @ ascii ''objectname''\<rparr>"
  let ?s1 = "s\<lparr>nonce_caller := ?nc\<rparr>" and ?s2 = "s\<lparr>nonce_caller := ?nc, nonce_tpm := ?new\<rparr>"
  have new: "Session_new P (Handle 0x02000000) Alg_SHA256 (replicate 32 0xAA) (replicate 32 0xBB)
      sa_continue_session (ascii ''bindauth'') ([0x00, 0x0b] @ ascii ''objectname'') [] = Ok s"
    by (simp add: Session_new_eq [OF P] d k_def s_def ascii_def)
  have key: "hmac_key s ?auth ?on = k @ ?auth" "hmac_key s ?auth (0x00 # 0x0b # ascii ''someothernm'') = k @ ?auth"
      "hmac_key ?s1 ?auth ?on = k @ ?auth"
    by (simp_all add: hmac_key_def s_def ascii_def)
  have alg: "sess_hash_alg s = Alg_SHA256" "sess_attributes s = sa_continue_session" by (simp_all add: s_def)
  let ?mac = "response_mac P Sha256 (k @ ?auth) ?rp ?new ?nc sa_continue_session"
  obtain ac where c: "unwrap_eff (command_auth P (replicate 32 0x11) ?auth ?on ?nc) s = (Ok ac, ?s1)"
    "ac_nonce_caller ac = ?nc" "length (ac_hmac ac) = 32"
    by (simp add: unwrap_eff_def command_auth_eq [OF P] alg d test_simps command_mac_def P)
  have h: "unwrap (hmac_parts P Alg_SHA256 (k @ ?auth) [?rp, ?new, ?nc, [sa_bits (sess_attributes ?s1)]]) = Ok ?mac"
    by (simp add: hmac_parts_eq [OF P] d response_mac_def alg test_simps)
  have v: "unwrap_eff (verify_response P ?rp ?auth ?on
      \<lparr>ar_nonce_tpm = ?new, ar_attributes = sess_attributes ?s1, ar_hmac = ?mac\<rparr>) ?s1 = (Ok (), ?s2)"
    by (simp add: unwrap_eff_def verify_response_eq [OF P] alg d key test_simps)
  have w: "assert_err_eff (verify_response P ?rp ?auth ?on
      \<lparr>ar_nonce_tpm = ?new, ar_attributes = sess_attributes ?s2, ar_hmac = replicate 32 0\<rparr>) ?s2 =
      (if ?mac = replicate 32 0 then Panic else Ok (), ?s2)"
    by (auto simp: assert_err_eff_def verify_response_eq [OF P] alg d key test_simps)
  have nonce: "nonce_tpm ?s2 = ?new" by simp
  have "command_and_response_hmac_round_trip P = (if ?mac = replicate 32 0 then Panic else Ok ())"
    unfolding command_and_response_hmac_round_trip_def new unwrap_def outcome.case bindO.simps Let_def
    unfolding unwrap_def [symmetric]
    by (subst bindE_def, subst c(1),
        simp only: prod.case outcome.case c(2,3) assert_eff_True key h bindE_lift_Ok refl,
        subst bindE_def, subst v, simp only: prod.case outcome.case assert_eff_True nonce refl w fst_conv)
  then show ?thesis by (simp add: k_def)
qed

end
