(* ===== verification/Integration_Tests.thy ===== *)
theory Integration_Tests
  imports Booting Unit_Tests
begin

text \<open>
  The integration tests of \<open>tests/simulator.rs\<close>: the connection named by an environment variable, and
  the four tests over it, with \<open>expect\<close> and \<open>assert!\<close> as panics. They are run against the simulator
  with the reference TPM behind its socket. The lock that takes turns between the test threads is
  not modelled: one test runs at a time.
\<close>

section \<open>The tests\<close>

text \<open>\<open>let _ = f(..)\<close> drops the error, not a panic.\<close>

definition drop_error :: "('s, Error, 'a) eff \<Rightarrow> ('s, Error, unit) eff" where
  "drop_error f s = (case f s of (x, s') \<Rightarrow>
     (case x of Ok a \<Rightarrow> Ok () | Err e \<Rightarrow> Ok () | Panic \<Rightarrow> Panic | Loop \<Rightarrow> Loop, s'))"

text \<open>
  \<open>connect\<close>: an unset or empty variable skips the test. The network and the state of the operating
  system's generator are parameters.
\<close>

definition connect ::
  "('h, 'm, 'g, 's SimulatorTransport) ports \<Rightarrow> (string \<Rightarrow> ('w, io_error, 's) eff) \<Rightarrow> string option \<Rightarrow> 'w \<Rightarrow> 'g \<Rightarrow>
    (('s SimulatorTransport, 'g) machine option) result" where
  "connect E net var w g = (case var of
       None \<Rightarrow> Ok None
     | Some addr \<Rightarrow> if addr = [] then Ok None
         else bindO (unwrap (fst (sim_connect net addr w))) (\<lambda>sim.
           case drop_error (startup E su_CLEAR) \<lparr>transport = sim, os_rng = g, slept = []\<rparr> of
             (x, m) \<Rightarrow> bindO x (\<lambda>_. Ok (Some m))))"

definition test_run ::
  "('h, 'm, 'g, 's SimulatorTransport) ports \<Rightarrow> (string \<Rightarrow> ('w, io_error, 's) eff) \<Rightarrow> string option \<Rightarrow> 'w \<Rightarrow> 'g \<Rightarrow>
    (('s SimulatorTransport, 'g) machine, Error, unit) eff \<Rightarrow> unit result" where
  "test_run E net var w g body = bindO (connect E net var w g) (\<lambda>c. case c of None \<Rightarrow> Ok () | Some m \<Rightarrow> fst (body m))"

text \<open>A call that borrows an authorization: the caller sees it afterwards.\<close>

definition borrow_auth ::
  "Auth \<Rightarrow> (Auth \<times> ('t, 'g) machine, Error, 'a) eff \<Rightarrow> (('t, 'g) machine, Error, 'a \<times> Auth) eff" where
  "borrow_auth auth f m = (case f (auth, m) of (x, (auth', m')) \<Rightarrow> (bindO x (\<lambda>a. Ok (a, auth')), m'))"

text \<open>A password in place.\<close>

definition with_password ::
  "bytes \<Rightarrow> (Auth \<times> ('t, 'g) machine, Error, 'a) eff \<Rightarrow> (('t, 'g) machine, Error, 'a) eff" where
  "with_password pw f = bindE (borrow_auth (AuthPassword pw) f) (\<lambda>(a, _). ret a)"

fun session_of :: "Session \<Rightarrow> Auth \<Rightarrow> Session" where
  "session_of s (AuthSession s' av) = s'"
| "session_of s auth = s"

definition randomness_and_capability :: "('h, 'm, 'g, 't) ports \<Rightarrow> (('t, 'g) machine, Error, unit) eff" where
  "randomness_and_capability E =
     bindE (unwrap_eff (get_random E 24)) (\<lambda>r.
     bindE (assert_eff (r \<noteq> [] \<and> length r \<le> 24)) (\<lambda>_.
     bindE (unwrap_eff (get_capability E cap_TPM_PROPERTIES pt_MANUFACTURER 8)) (\<lambda>cap.
     bindE (assert_eff (cd_capability cap = cap_TPM_PROPERTIES)) (\<lambda>_.
     assert_eff (cd_data cap \<noteq> [])))))"

definition pcr_read_sha256_bank :: "('h, 'm, 'g, 't) ports \<Rightarrow> (('t, 'g) machine, Error, unit) eff" where
  "pcr_read_sha256_bank E =
     bindE (unwrap_eff (pcr_read_one E Alg_SHA256 0)) (\<lambda>v.
     case v of None \<Rightarrow> ret () | Some d \<Rightarrow> assert_eff (Buffer_len d = 32))"

text \<open>The first three commands of both sealing tests: the parent, the blob, the loaded object.\<close>

definition sealed_object ::
  "('h, 'm, 'g, 't) ports \<Rightarrow> SensitiveCreate \<Rightarrow>
    (('t, 'g) machine, Error, CreatePrimaryResult \<times> LoadResult) eff" where
  "sealed_object E sensitive =
     bindE (unwrap_eff (with_password [] (create_primary E (Handle rh_OWNER) SensitiveCreate_default
       (ecc_storage_parent Alg_SHA256)))) (\<lambda>parent.
     bindE (unwrap_eff (with_password [] (create E (cp_handle parent) (buffer_bytes (cp_name parent)) sensitive
       (sealed_data_template Alg_SHA256)))) (\<lambda>blob.
     bindE (unwrap_eff (with_password [] (load E (cp_handle parent) (buffer_bytes (cp_name parent))
       (cr_private blob) (cr_public blob)))) (\<lambda>item. ret (parent, item))))"

definition seal_unseal_password :: "('h, 'm, 'g, 't) ports \<Rightarrow> (('t, 'g) machine, Error, unit) eff" where
  "seal_unseal_password E =
     (let secret = ascii ''password-sealed secret''
      in bindE (sealed_object E \<lparr>user_auth = Buffer (ascii ''seal-pw''), sens_data = Buffer secret\<rparr>) (\<lambda>(parent, item).
         bindE (unwrap_eff (with_password (ascii ''seal-pw'')
           (unseal E (lr_handle item) (buffer_bytes (lr_name item))))) (\<lambda>out.
         bindE (assert_eff (out = secret)) (\<lambda>_.
         bindE (assert_err_eff (with_password (ascii ''wrong'')
           (unseal E (lr_handle item) (buffer_bytes (lr_name item))))) (\<lambda>_.
         bindE (unwrap_eff (flush_context E (lr_handle item))) (\<lambda>_.
         unwrap_eff (flush_context E (cp_handle parent))))))))"

definition seal_unseal_hmac_session :: "('h, 'm, 'g, 't) ports \<Rightarrow> (('t, 'g) machine, Error, unit) eff" where
  "seal_unseal_hmac_session E =
     (let secret = ascii ''hmac-session sealed secret''
      in bindE (sealed_object E \<lparr>user_auth = Buffer (ascii ''sk''), sens_data = Buffer secret\<rparr>) (\<lambda>(parent, item).
         bindE (unwrap_eff (start_hmac_session E Alg_SHA256)) (\<lambda>session.
         bindE (unwrap_eff (borrow_auth (AuthSession session (ascii ''sk''))
           (unseal E (lr_handle item) (buffer_bytes (lr_name item))))) (\<lambda>(out, auth).
         bindE (assert_eff (out = secret)) (\<lambda>_.
         bindE (unwrap_eff (flush_context E (sess_handle (session_of session auth)))) (\<lambda>_.
         bindE (unwrap_eff (flush_context E (lr_handle item))) (\<lambda>_.
         unwrap_eff (flush_context E (cp_handle parent)))))))))"

section \<open>The tests against the reference TPM\<close>

lemma with_password_Ok:
  "f (AuthPassword pw, m) = (Ok a, (auth', m')) \<Longrightarrow> with_password pw f m = (Ok a, m')"
  by (simp add: with_password_def borrow_auth_def bindE_def ret_simp)

text \<open>The templates the tests use are acceptable, and their objects have names.\<close>

lemma test_templates:
  shows "sealable (ecc_storage_parent Alg_SHA256) SensitiveCreate_default"
    "sensitive_fits (sealed_data_template Alg_SHA256) s \<Longrightarrow> sealable (sealed_data_template Alg_SHA256) s"
    "\<exists>n. object_name_of P (ecc_storage_parent Alg_SHA256) = Some n"
    "\<exists>n. object_name_of P (sealed_data_template Alg_SHA256) = Some n"
proof -
  have "Alg_AES \<noteq> Alg_NULL" by (simp add: tpm_consts)
  then show "sealable (ecc_storage_parent Alg_SHA256) SensitiveCreate_default"
    "sensitive_fits (sealed_data_template Alg_SHA256) s \<Longrightarrow> sealable (sealed_data_template Alg_SHA256) s"
    "\<exists>n. object_name_of P (ecc_storage_parent Alg_SHA256) = Some n"
    "\<exists>n. object_name_of P (sealed_data_template Alg_SHA256) = Some n"
    by (simp_all add: sealable_def sensitive_fits_def object_name_of_def ecc_storage_parent_def
        sealed_data_template_def SensitiveCreate_default_def Public_wf_def wire_Public_def sha256_code
        wire_SymDefObject_def aes128_cfb_def wire_Buffer_def Buffer_wf_def Buffer_empty_def fits_tpm2b_def
        length_tpm2b SymDefObject_wf_def)
qed

context reference_link
begin

lemma sealed_object_served:
  assumes E: "transmit E = send" and C: "crypto E = P" and primitives: "purecrypto_ok P"
    and r: "ready (transport m)" and wf: "tpm_wf (tpm_of (transport m))"
    and s: "sensitive_fits (sealed_data_template Alg_SHA256) s" and room: "2 \<le> spare (tpm_objects (tpm_of (transport m)))"
  obtains parent item m' where "sealed_object E s m = (Ok (parent, item), m')" "ready (transport m')"
    "kept (tpm_of (transport m)) (tpm_of (transport m'))"
    "holds (tpm_of (transport m')) (cp_handle parent) (buffer_bytes (cp_name parent)) SensitiveCreate_default"
    "holds (tpm_of (transport m')) (lr_handle item) (buffer_bytes (lr_name item)) s"
    "lr_handle item \<noteq> cp_handle parent"
    "same_slots (tpm_sessions (tpm_of (transport m'))) (tpm_sessions (tpm_of (transport m)))"
proof -
  note link = E C primitives
  let ?PT = "ecc_storage_parent Alg_SHA256" and ?ST = "sealed_data_template Alg_SHA256"
  let ?D = SensitiveCreate_default
  obtain pn n where names: "object_name_of P ?PT = Some pn" "object_name_of P ?ST = Some n"
    using test_templates(3,4) [of P] by blast
  have D: "buffer_bytes (user_auth ?D) = []" by (simp add: SensitiveCreate_default_def)
  have u: "may_use E (AuthPassword []) [] q" for q :: "'c tpm" by simp
  have uD: "may_use E (AuthPassword []) (buffer_bytes (user_auth ?D)) q" for q :: "'c tpm" by (simp add: D)
  have hier: "rh_OWNER \<in> {rh_OWNER, rh_ENDORSEMENT, rh_PLATFORM}" by simp
  have room1: "0 < spare (tpm_objects (tpm_of (transport m)))" using room by simp
  obtain h1 a1 m1 where 1: "create_primary E (Handle rh_OWNER) ?D ?PT (AuthPassword [], m) =
      (Ok \<lparr>cp_handle = h1, cp_name = Buffer pn, cp_public = Buffer (wire_Public ?PT)\<rparr>, (a1, m1))"
    "ready (transport m1)" "kept (tpm_of (transport m)) (tpm_of (transport m1))" "holds (tpm_of (transport m1)) h1 pn ?D"
    "Suc (spare (tpm_objects (tpm_of (transport m1)))) = spare (tpm_objects (tpm_of (transport m)))"
    "same_slots (tpm_sessions (tpm_of (transport m1))) (tpm_sessions (tpm_of (transport m)))"
    by (rule create_primary_served [OF link r wf hier u test_templates(1) names(1) room1]) blast
  note st = test_templates(2) [OF s] and wf1 = keptD(1) [OF 1(3)]
  obtain a2 m2 where 2: "create E h1 pn s ?ST (AuthPassword [], m1) =
      (Ok \<lparr>cr_private = Buffer (private_blob pn s), cr_public = Buffer (wire_Public ?ST)\<rparr>, (a2, m2))"
    "ready (transport m2)" "kept (tpm_of (transport m1)) (tpm_of (transport m2))"
    "tpm_objects (tpm_of (transport m2)) = tpm_objects (tpm_of (transport m1))"
    "same_slots (tpm_sessions (tpm_of (transport m2))) (tpm_sessions (tpm_of (transport m1)))"
    by (rule create_served [OF link 1(2) wf1 1(4) uD st]) blast
  note wf2 = keptD(1) [OF 2(3)] and h2 = keptD(2) [OF 2(3) 1(4)]
  have room2: "0 < spare (tpm_objects (tpm_of (transport m2)))" using 1(5) 2(4) room by simp
  obtain h3 a3 m3 where 3: "load E h1 pn (Buffer (private_blob pn s)) (Buffer (wire_Public ?ST)) (AuthPassword [], m2) =
      (Ok \<lparr>lr_handle = h3, lr_name = Buffer n\<rparr>, (a3, m3))"
    "ready (transport m3)" "kept (tpm_of (transport m2)) (tpm_of (transport m3))" "holds (tpm_of (transport m3)) h3 n s"
    "in_slot first_transient (tpm_objects (tpm_of (transport m2))) h3 = None"
    "same_slots (tpm_sessions (tpm_of (transport m3))) (tpm_sessions (tpm_of (transport m2)))"
    by (rule load_served [OF link 2(2) wf2 h2 uD st names(2) room2]) blast
  have "h3 \<noteq> h1" using 3(5) h2 by (auto simp: holds_def)
  have w: "with_password [] (create_primary E (Handle rh_OWNER) ?D ?PT) m =
      (Ok \<lparr>cp_handle = h1, cp_name = Buffer pn, cp_public = Buffer (wire_Public ?PT)\<rparr>, m1)"
    "with_password [] (create E h1 pn s ?ST) m1 =
      (Ok \<lparr>cr_private = Buffer (private_blob pn s), cr_public = Buffer (wire_Public ?ST)\<rparr>, m2)"
    "with_password [] (load E h1 pn (Buffer (private_blob pn s)) (Buffer (wire_Public ?ST))) m2 =
      (Ok \<lparr>lr_handle = h3, lr_name = Buffer n\<rparr>, m3)"
    by (rule with_password_Ok, rule 1 2 3)+
  have "sealed_object E s m = (Ok (\<lparr>cp_handle = h1, cp_name = Buffer pn, cp_public = Buffer (wire_Public ?PT)\<rparr>,
      \<lparr>lr_handle = h3, lr_name = Buffer n\<rparr>), m3)"
    by (simp add: sealed_object_def bindE_def unwrap_eff_def w test_simps ret_simp)
  with \<open>h3 \<noteq> h1\<close> show thesis
    using that 3(2,4) keptD(2) [OF 3(3) h2] kept_trans [OF kept_trans [OF 1(3) 2(3)] 3(3)]
      same_slots_trans [OF same_slots_trans [OF 3(6) 2(5)] 1(6)] by fastforce
qed

lemma flush_both_served:
  assumes E: "transmit E = send" and C: "crypto E = P" and primitives: "purecrypto_ok P"
    and r: "ready (transport m)" and wf: "tpm_wf (tpm_of (transport m))"
    and h: "holds (tpm_of (transport m)) h1 n1 s1" "holds (tpm_of (transport m)) h2 n2 s2" "h1 \<noteq> h2"
  shows "fst (bindE (unwrap_eff (flush_context E h1)) (\<lambda>_. unwrap_eff (flush_context E h2)) m) = Ok ()"
proof -
  obtain m1 where 1: "flush_context E h1 m = (Ok (), m1)" "ready (transport m1)" "tpm_wf (tpm_of (transport m1))"
    "\<forall>h' n' s'. h' \<noteq> h1 \<longrightarrow> holds (tpm_of (transport m)) h' n' s' \<longrightarrow> holds (tpm_of (transport m1)) h' n' s'"
    by (rule flush_object_served [OF E C primitives r wf h(1)]) blast
  have h2: "holds (tpm_of (transport m1)) h2 n2 s2" using 1(4) h(2,3) by metis
  obtain m2 where 2: "flush_context E h2 m1 = (Ok (), m2)"
    by (rule flush_object_served [OF E C primitives 1(2,3) h2]) blast
  show ?thesis by (simp add: bindE_def unwrap_eff_def 1(1) 2 test_simps)
qed

lemma password_test_passes:
  assumes E: "transmit E = send" and C: "crypto E = P" and primitives: "purecrypto_ok P"
    and r: "ready (transport m)" and wf: "tpm_wf (tpm_of (transport m))" and room: "2 \<le> spare (tpm_objects (tpm_of (transport m)))"
  shows "fst (seal_unseal_password E m) = Ok ()"
proof -
  note link = E C primitives
  let ?secret = "ascii ''password-sealed secret''" and ?pw = "ascii ''seal-pw''"
  let ?s = "\<lparr>user_auth = Buffer ?pw, sens_data = Buffer ?secret\<rparr>"
  have fits: "sensitive_fits (sealed_data_template Alg_SHA256) ?s"
    by (simp add: sensitive_fits_def sealed_data_template_def sha256_code length_ascii)
  obtain parent item m1 where 1: "sealed_object E ?s m = (Ok (parent, item), m1)" "ready (transport m1)"
    "kept (tpm_of (transport m)) (tpm_of (transport m1))"
    "holds (tpm_of (transport m1)) (cp_handle parent) (buffer_bytes (cp_name parent)) SensitiveCreate_default"
    "holds (tpm_of (transport m1)) (lr_handle item) (buffer_bytes (lr_name item)) ?s"
    "lr_handle item \<noteq> cp_handle parent"
    by (rule sealed_object_served [OF link r wf fits room]) blast
  note wf1 = keptD(1) [OF 1(3)]
  have u: "may_use E (AuthPassword ?pw) (buffer_bytes (user_auth ?s)) q" for q :: "'c tpm" by simp
  obtain a2 m2 where 2: "unseal E (lr_handle item) (buffer_bytes (lr_name item)) (AuthPassword ?pw, m1) =
      (Ok (buffer_bytes (sens_data ?s)), (a2, m2))" "ready (transport m2)"
    "kept (tpm_of (transport m1)) (tpm_of (transport m2))"
    by (rule unseal_served [OF link 1(2) wf1 1(5) u]) blast
  note held = keptD(2) [OF 2(3) 1(5)] keptD(2) [OF 2(3) 1(4)]
  let ?bad = "ascii ''wrong''"
  have bad: "?bad \<noteq> buffer_bytes (user_auth ?s)" "fits_tpm2b ?bad"
    by (auto simp: fits_tpm2b_def length_ascii dest!: arg_cong [where f = length])
  obtain m3 where 3: "unseal E (lr_handle item) (buffer_bytes (lr_name item)) (AuthPassword ?bad, m2) =
      (Err (Tpm (TpmRc trc_AUTH_FAIL)), (AuthPassword ?bad, m3))" "ready (transport m3)"
    "tpm_of (transport m3) = tpm_of (transport m2)"
    by (rule unseal_refused [OF link 2(2) entity_holds [OF held(1)] bad])
  have w: "with_password ?pw (unseal E (lr_handle item) (buffer_bytes (lr_name item))) m1 = (Ok ?secret, m2)"
    using 2(1) by (intro with_password_Ok) simp
  have x: "assert_err_eff (with_password ?bad (unseal E (lr_handle item) (buffer_bytes (lr_name item)))) m2 = (Ok (), m3)"
    by (simp add: with_password_def borrow_auth_def bindE_def assert_err_eff_def test_simps 3(1))
  have "fst (seal_unseal_password E m) = fst (bindE (unwrap_eff (flush_context E (lr_handle item)))
      (\<lambda>_. unwrap_eff (flush_context E (cp_handle parent))) m3)"
    by (simp add: seal_unseal_password_def Let_def bindE_def unwrap_eff_def 1(1) w x test_simps assert_eff_def
        lift_outcome_simp)
  also have "\<dots> = Ok ()"
    by (rule flush_both_served [OF link 3(2), unfolded 3(3)])
      (use held 1(6) keptD(1) [OF 2(3)] in simp_all)
  finally show ?thesis .
qed

lemma session_test_passes:
  assumes E: "transmit E = send" and C: "crypto E = P" and primitives: "purecrypto_ok P"
    and r: "ready (transport m)" and wf: "tpm_wf (tpm_of (transport m))" and std: "feature_std E"
    and room: "2 \<le> spare (tpm_objects (tpm_of (transport m)))" "0 < spare (tpm_sessions (tpm_of (transport m)))"
  shows "fst (seal_unseal_hmac_session E m) = Ok ()"
proof -
  note link = E C primitives
  let ?secret = "ascii ''hmac-session sealed secret''" and ?av = "ascii ''sk''"
  let ?s = "\<lparr>user_auth = Buffer ?av, sens_data = Buffer ?secret\<rparr>"
  have fits: "sensitive_fits (sealed_data_template Alg_SHA256) ?s"
    by (simp add: sensitive_fits_def sealed_data_template_def sha256_code length_ascii)
  obtain parent item m1 where 1: "sealed_object E ?s m = (Ok (parent, item), m1)" "ready (transport m1)"
    "kept (tpm_of (transport m)) (tpm_of (transport m1))"
    "holds (tpm_of (transport m1)) (cp_handle parent) (buffer_bytes (cp_name parent)) SensitiveCreate_default"
    "holds (tpm_of (transport m1)) (lr_handle item) (buffer_bytes (lr_name item)) ?s"
    "lr_handle item \<noteq> cp_handle parent"
    "same_slots (tpm_sessions (tpm_of (transport m1))) (tpm_sessions (tpm_of (transport m)))"
    by (rule sealed_object_served [OF link r wf fits room(1)]) blast
  note wf1 = keptD(1) [OF 1(3)]
  have room1: "0 < spare (tpm_sessions (tpm_of (transport m1)))" using room(2) same_slotsD(2) [OF 1(7)] by simp
  obtain session m2 where 2: "start_hmac_session E Alg_SHA256 m1 = (Ok session, m2)" "ready (transport m2)"
    "kept (tpm_of (transport m1)) (tpm_of (transport m2))" "in_step session (tpm_of (transport m2))"
    by (rule start_hmac_session_served [OF link 1(2) wf1 sha256_code room1]) blast
  note held2 = keptD(2) [OF 2(3) 1(5)] keptD(2) [OF 2(3) 1(4)]
  have u: "may_use E (AuthSession session ?av) (buffer_bytes (user_auth ?s)) (tpm_of (transport m2))"
    using std 2(4) by simp
  obtain a3 m3 where 3: "unseal E (lr_handle item) (buffer_bytes (lr_name item)) (AuthSession session ?av, m2) =
      (Ok (buffer_bytes (sens_data ?s)), (a3, m3))" "ready (transport m3)"
    "kept (tpm_of (transport m2)) (tpm_of (transport m3))"
    "may_use E a3 (buffer_bytes (user_auth ?s)) (tpm_of (transport m3))" "same_auth (AuthSession session ?av) a3"
    by (rule unseal_served [OF link 2(2) keptD(1) [OF 2(3)] held2(1) u]) blast
  note held3 = keptD(2) [OF 3(3) held2(1)] keptD(2) [OF 3(3) held2(2)]
  obtain s3 where s3: "a3 = AuthSession s3 ?av" "in_step s3 (tpm_of (transport m3))"
    using 3(4,5) by (cases a3) auto
  then have slot: "in_slot first_session (tpm_sessions (tpm_of (transport m3))) (sess_handle s3) \<noteq> None"
    by (auto simp: in_step_def)
  obtain m4 where 4: "flush_context E (sess_handle s3) m3 = (Ok (), m4)" "ready (transport m4)"
    "kept (tpm_of (transport m3)) (tpm_of (transport m4))"
    by (rule flush_session_served [OF link 3(2) keptD(1) [OF 3(3)] slot]) blast
  note held4 = keptD(2) [OF 4(3) held3(1)] keptD(2) [OF 4(3) held3(2)]
  have b: "borrow_auth (AuthSession session ?av) (unseal E (lr_handle item) (buffer_bytes (lr_name item))) m2 =
      (Ok (?secret, AuthSession s3 ?av), m3)"
    by (simp add: borrow_auth_def 3(1) s3(1))
  have "fst (seal_unseal_hmac_session E m) = fst (bindE (unwrap_eff (flush_context E (lr_handle item)))
      (\<lambda>_. unwrap_eff (flush_context E (cp_handle parent))) m4)"
    by (simp add: seal_unseal_hmac_session_def Let_def bindE_def unwrap_eff_def 1(1) 2(1) b 4(1) test_simps
        assert_eff_def lift_outcome_simp)
  also have "\<dots> = Ok ()"
    by (rule flush_both_served [OF link 4(2) keptD(1) [OF 4(3)] held4 1(6)])
  finally show ?thesis .
qed

lemma plain_tests_pass:
  assumes E: "transmit E = send" and C: "crypto E = P" and primitives: "purecrypto_ok P"
    and r: "ready (transport m)" and wf: "tpm_wf (tpm_of (transport m))"
  shows "fst (randomness_and_capability E m) = Ok ()" "fst (pcr_read_sha256_bank E m) = Ok ()"
proof -
  note link = E C primitives
  obtain b m1 where 1: "get_random E 24 m = (Ok b, m1)" "ready (transport m1)" "length b = min (unat (24 :: 16 word)) 32"
    by (rule get_random_served [OF link r]) blast
  obtain data m2 where 2: "get_capability E cap_TPM_PROPERTIES pt_MANUFACTURER 8 m1 =
      (Ok \<lparr>cd_more = False, cd_capability = cap_TPM_PROPERTIES, cd_data = data\<rparr>, m2)" "length data = 12"
    by (rule get_capability_served [OF link 1(2)]) blast
  have ne: "b \<noteq> []" "length b \<le> 24" "data \<noteq> []" using 1(3) 2(2) by auto
  show "fst (randomness_and_capability E m) = Ok ()"
    by (simp add: randomness_and_capability_def bindE_def unwrap_eff_def 1(1) 2(1) ne test_simps assert_eff_def
        lift_outcome_simp)
  let ?q = "tpm_of (transport m)"
  obtain m3 where 3: "pcr_read_one E Alg_SHA256 0 m = (Ok (Some (Buffer (tpm_pcrs ?q ! 0))), m3)"
    by (rule pcr_read_one_served [where i = 0, OF link r wf]) simp
  have "length (tpm_pcrs ?q ! 0) = 32" using wf by (simp add: tpm_wf_def)
  then show "fst (pcr_read_sha256_bank E m) = Ok ()"
    by (simp add: pcr_read_sha256_bank_def bindE_def unwrap_eff_def 3 test_simps assert_eff_def lift_outcome_simp
        Buffer_len_def)
qed

end

section \<open>Over the simulator's socket\<close>

text \<open>A network on which an address leads to an idle simulator, its TPM started or not.\<close>

definition reaches ::
  "(string \<Rightarrow> ('w, io_error, ('g tpm \<times> bool) sim_server) eff) \<Rightarrow> string \<Rightarrow> 'w \<Rightarrow> 'g tpm \<Rightarrow> bool \<Rightarrow> bool" where
  "reaches net addr w q started \<longleftrightarrow> addr \<noteq> [] \<and>
     (\<exists>s w'. net addr w = (Ok s, w') \<and> tcp_in s = [] \<and> tcp_out s = [] \<and> sv_tpm s = (q, started))"

lemma connect_served:
  assumes E: "transmit E = sim_transmit (simulator (boot_serve (crypto E)))" and P: "purecrypto_ok (crypto E)"
    and net: "reaches net addr w q started"
  obtains m where "connect E net (Some addr) w g = Ok (Some m)" "sim_idle (transport m)"
    "sv_tpm (sim_cmd (transport m)) = (q, True)"
proof -
  obtain s w' where s: "net addr w = (Ok s, w')" "tcp_in s = []" "tcp_out s = []" "sv_tpm s = (q, started)" "addr \<noteq> []"
    using net by (auto simp: reaches_def)
  let ?t = "\<lparr>sim_cmd = s, sim_platform = None, sim_locality = 0\<rparr>"
  let ?m = "\<lparr>transport = ?t, os_rng = g, slept = []\<rparr>"
  have c: "sim_connect net addr w = (Ok ?t, w')"
    by (simp add: sim_connect_def bindE_def map_err_eff_def s(1) ret_simp)
  have idle: "sim_idle (transport ?m)" using s by (simp add: sim_idle_def)
  obtain x m where m: "startup E su_CLEAR ?m = (x, m)" "x = Err (Tpm (TpmRc trc_INITIALIZE)) \<or> x = Ok ()"
    "sim_idle (transport m)" "sv_tpm (sim_cmd (transport m)) = (q, True)"
    by (rule simulator_boot.startup_either [OF E refl P idle, of su_CLEAR]) (use s(4) in \<open>auto split: if_splits\<close>)
  show thesis
    by (rule that [of m]) (use m s in \<open>auto simp: connect_def c unwrap_def drop_error_def\<close>)
qed

lemma test_runs:
  assumes E: "transmit E = sim_transmit (simulator (boot_serve (crypto E)))" and P: "purecrypto_ok (crypto E)"
    and net: "reaches net addr w q started"
    and body: "\<And>m. sim_idle (transport m) \<and> snd (sv_tpm (sim_cmd (transport m))) \<Longrightarrow>
      fst (sv_tpm (sim_cmd (transport m))) = q \<Longrightarrow> fst (body m) = Ok ()"
  shows "test_run E net (Some addr) w g body = Ok ()"
  by (rule connect_served [OF E P net, of g]) (simp add: test_run_def body)

lemma test_skipped: "test_run E net None w g body = Ok ()" "test_run E net (Some []) w g body = Ok ()"
  by (simp_all add: test_run_def connect_def)

lemma tests_over_simulator:
  assumes E: "transmit E = sim_transmit (simulator (boot_serve (crypto E)))" and P: "purecrypto_ok (crypto E)"
    and std: "feature_std E" and net: "reaches net addr w q started" and wf: "tpm_wf q"
    and room: "2 \<le> spare (tpm_objects q)" "0 < spare (tpm_sessions q)"
  shows "test_run E net (Some addr) w g (randomness_and_capability E) = Ok ()"
    "test_run E net (Some addr) w g (pcr_read_sha256_bank E) = Ok ()"
    "test_run E net (Some addr) w g (seal_unseal_password E) = Ok ()"
    "test_run E net (Some addr) w g (seal_unseal_hmac_session E) = Ok ()"
  by (rule test_runs [OF E P net], rule simulator_boot.started.plain_tests_pass(1) [OF E refl P]
        simulator_boot.started.plain_tests_pass(2) [OF E refl P] simulator_boot.started.password_test_passes [OF E refl P]
        simulator_boot.started.session_test_passes [OF E refl P]; use std wf room in simp)+

end
