(* ===== verification/Vault.thy ===== *)
theory Vault
  imports Integration_Tests
begin

text \<open>
  What sealing promises, without the protocol: a TPM is a vault, a map from handles to a Name, an
  authorization value and the data sealed under it. Over any link to the reference TPM, the crate's
  commands are operations on the vault.
\<close>

section \<open>The vault\<close>

type_synonym vault = "Handle \<rightharpoonup> bytes \<times> bytes \<times> bytes"

definition vault_of :: "'g tpm \<Rightarrow> vault" where
  "vault_of q h = (if fixed_name h then None
     else map_option (\<lambda>x. (to_name x, to_auth x, to_data x)) (in_slot first_transient (tpm_objects q) h))"

text \<open>An entry is opened by its authorization value, and by nothing else.\<close>

definition vault_open :: "vault \<Rightarrow> Handle \<Rightarrow> bytes \<Rightarrow> bytes result" where
  "vault_open v h pw = (case v h of
       None \<Rightarrow> Err (Tpm (TpmRc trc_HANDLE))
     | Some (name, av, data) \<Rightarrow> if pw = av then Ok data else Err (Tpm (TpmRc trc_AUTH_FAIL)))"

definition entry_of :: "bytes \<Rightarrow> SensitiveCreate \<Rightarrow> bytes \<times> bytes \<times> bytes" where
  "entry_of name s = (name, buffer_bytes (user_auth s), buffer_bytes (sens_data s))"

lemma holds_vault: "holds q h name s \<longleftrightarrow> vault_of q h = Some (entry_of name s)"
proof (cases "in_slot first_transient (tpm_objects q) h")
  case (Some x)
  then show ?thesis by (cases x) (auto simp: holds_def vault_of_def entry_of_def)
qed (simp add: holds_def vault_of_def)

lemma vault_entry: "vault_of q h = Some (name, av, data) \<Longrightarrow>
    holds q h name \<lparr>user_auth = Buffer av, sens_data = Buffer data\<rparr>"
  by (simp add: holds_vault entry_of_def)

lemma kept_vault: "kept q q' \<Longrightarrow> vault_of q \<subseteq>\<^sub>m vault_of q'"
proof -
  assume k: "kept q q'"
  have "vault_of q' h = vault_of q h" if h: "h \<in> dom (vault_of q)" for h
  proof -
    obtain name av data where e: "vault_of q h = Some (name, av, data)" using h by auto
    have "holds q' h name \<lparr>user_auth = Buffer av, sens_data = Buffer data\<rparr>"
      by (rule keptD(2) [OF k vault_entry [OF e]])
    then show ?thesis using e by (simp add: holds_vault entry_of_def)
  qed
  then show ?thesis by (simp add: map_le_def)
qed

lemma same_objects_vault: "tpm_objects q' = tpm_objects q \<Longrightarrow> vault_of q' = vault_of q"
  by (rule ext) (simp add: vault_of_def)

lemma flushed_vault:
  "vault_of (q\<lparr>tpm_objects := free_slot first_transient (tpm_objects q) h\<rparr>) = (vault_of q)(h := None)"
proof
  fix h'
  have "in_slot first_transient (free_slot first_transient (tpm_objects q) h) h = None"
    by (simp add: in_slot_def free_slot_def Let_def)
  then show "vault_of (q\<lparr>tpm_objects := free_slot first_transient (tpm_objects q) h\<rparr>) h' =
      ((vault_of q)(h := None)) h'"
    by (cases "h' = h") (simp_all add: vault_of_def free_slot_other)
qed

lemma entity_vault:
  assumes "\<not> fixed_name h"
  shows "entity q h = map_option (\<lambda>(name, av, data). (name, av)) (vault_of q h)"
  using assms by (simp add: entity_def vault_of_def option.map_comp comp_def)

section \<open>The commands on the vault\<close>

text \<open>Several \<open>unseal\<close>s in a row under one authorization.\<close>

primrec unseal_times ::
  "('h, 'm, 'g, 't) ports \<Rightarrow> Handle \<Rightarrow> bytes \<Rightarrow> nat \<Rightarrow> (Auth \<times> ('t, 'g) machine, Error, bytes list) eff" where
  "unseal_times E item name 0 = ret []"
| "unseal_times E item name (Suc n) =
     bindE (unseal E item name) (\<lambda>d. bindE (unseal_times E item name n) (\<lambda>ds. ret (d # ds)))"

context reference_link
begin

lemma unseal_opens_vault:
  assumes E: "transmit E = send" and C: "crypto E = P" and primitives: "purecrypto_ok P"
    and r: "ready (transport m)" and wf: "tpm_wf (tpm_of (transport m))" and pw: "fits_tpm2b pw"
    and h: "\<not> fixed_name item"
    and n: "\<forall>y. vault_of (tpm_of (transport m)) item = Some y \<longrightarrow> fst y = name"
  obtains m' where "unseal E item name (AuthPassword pw, m) =
      (vault_open (vault_of (tpm_of (transport m))) item pw, (AuthPassword pw, m'))"
    "ready (transport m')" "tpm_wf (tpm_of (transport m'))"
    "vault_of (tpm_of (transport m')) = vault_of (tpm_of (transport m))"
    "tpm_objects (tpm_of (transport m')) = tpm_objects (tpm_of (transport m))"
    "tpm_pcrs (tpm_of (transport m')) = tpm_pcrs (tpm_of (transport m))"
proof (cases "vault_of (tpm_of (transport m)) item")
  case None
  then have e: "entity (tpm_of (transport m)) item = None" by (simp add: entity_vault [OF h])
  obtain m' where "unseal E item name (AuthPassword pw, m) = (Err (Tpm (TpmRc trc_HANDLE)), (AuthPassword pw, m'))"
    "ready (transport m')" "tpm_of (transport m') = tpm_of (transport m)"
    by (rule unseal_unknown [OF E C primitives r e pw])
  then show thesis using that [of m'] None wf by (simp add: vault_open_def)
next
  case (Some y)
  then obtain av data where v: "vault_of (tpm_of (transport m)) item = Some (name, av, data)"
    using n by (cases y) auto
  let ?s = "\<lparr>user_auth = Buffer av, sens_data = Buffer data\<rparr>"
  note held = vault_entry [OF v]
  show thesis
  proof (cases "pw = av")
    case True
    then have u: "may_use E (AuthPassword pw) (buffer_bytes (user_auth ?s)) (tpm_of (transport m))" by simp
    obtain auth' m' where m': "unseal E item name (AuthPassword pw, m) = (Ok (buffer_bytes (sens_data ?s)), (auth', m'))"
      "ready (transport m')" "kept (tpm_of (transport m)) (tpm_of (transport m'))"
      "tpm_objects (tpm_of (transport m')) = tpm_objects (tpm_of (transport m))" "same_auth (AuthPassword pw) auth'"
      by (rule unseal_served [OF E C primitives r wf held u]) blast
    then show thesis
      using that [of m'] True v keptD(1) [OF m'(3)] m'(3,4) same_objects_vault [OF m'(4)]
      by (simp add: vault_open_def kept_def)
  next
    case False
    note e = entity_holds [OF held]
    have ne: "pw \<noteq> buffer_bytes (user_auth ?s)" using False by simp
    obtain m' where "unseal E item name (AuthPassword pw, m) =
        (Err (Tpm (TpmRc trc_AUTH_FAIL)), (AuthPassword pw, m'))"
      "ready (transport m')" "tpm_of (transport m') = tpm_of (transport m)"
      by (rule unseal_refused [OF E C primitives r e ne pw])
    then show thesis using that [of m'] False v wf by (simp add: vault_open_def)
  qed
qed

lemma flush_empties_vault:
  assumes E: "transmit E = send" and C: "crypto E = P" and primitives: "purecrypto_ok P"
    and r: "ready (transport m)" and wf: "tpm_wf (tpm_of (transport m))" and h: "item \<in> dom (vault_of (tpm_of (transport m)))"
  obtains m' where "flush_context E item m = (Ok (), m')" "ready (transport m')" "tpm_wf (tpm_of (transport m'))"
    "vault_of (tpm_of (transport m')) = (vault_of (tpm_of (transport m)))(item := None)"
proof -
  let ?q = "tpm_of (transport m)"
  have slot: "in_slot first_transient (tpm_objects ?q) item \<noteq> None" using h by (auto simp: vault_of_def split: if_splits)
  obtain m' where "flush_context E item m = (Ok (), m')" "ready (transport m')"
    "tpm_of (transport m') = ?q\<lparr>tpm_objects := free_slot first_transient (tpm_objects ?q) item\<rparr>"
    by (rule flush_context_served [OF E C primitives r do_flush_context_ok(1) [OF slot]])
  then show thesis using that wf_free_object [OF wf] flushed_vault by metis
qed

text \<open>A sealed secret is opened by its value only.\<close>

lemma sealed_then_unsealed:
  assumes E: "transmit E = send" and C: "crypto E = P" and primitives: "purecrypto_ok P"
    and r: "ready (transport m)" and wf: "tpm_wf (tpm_of (transport m))" and pw: "fits_tpm2b pw"
    and s: "sensitive_fits (sealed_data_template Alg_SHA256) s" and room: "2 \<le> spare (tpm_objects (tpm_of (transport m)))"
  shows "fst (bindE (sealed_object E s) (\<lambda>(parent, item).
      with_password pw (unseal E (lr_handle item) (buffer_bytes (lr_name item)))) m) =
    (if pw = buffer_bytes (user_auth s) then Ok (buffer_bytes (sens_data s)) else Err (Tpm (TpmRc trc_AUTH_FAIL)))"
proof -
  obtain parent item m1 where 1: "sealed_object E s m = (Ok (parent, item), m1)" "ready (transport m1)"
    "kept (tpm_of (transport m)) (tpm_of (transport m1))"
    "holds (tpm_of (transport m1)) (lr_handle item) (buffer_bytes (lr_name item)) s"
    by (rule sealed_object_served [OF E C primitives r wf s room]) blast
  have h: "\<not> fixed_name (lr_handle item)"
    using 1(4) by (simp add: holds_def)
  have v: "vault_of (tpm_of (transport m1)) (lr_handle item) = Some (entry_of (buffer_bytes (lr_name item)) s)"
    using 1(4) by (simp add: holds_vault)
  obtain m2 where 2: "unseal E (lr_handle item) (buffer_bytes (lr_name item)) (AuthPassword pw, m1) =
      (vault_open (vault_of (tpm_of (transport m1))) (lr_handle item) pw, (AuthPassword pw, m2))"
    by (rule unseal_opens_vault [OF E C primitives 1(2) keptD(1) [OF 1(3)] pw h]) (use v in \<open>simp_all add: entry_of_def\<close>)
  have "fst (with_password pw (unseal E (lr_handle item) (buffer_bytes (lr_name item))) m1) =
      vault_open (vault_of (tpm_of (transport m1))) (lr_handle item) pw"
    by (simp add: with_password_def borrow_auth_def bindE_def 2 ret_simp vault_open_def split: option.split)
  then show ?thesis by (simp add: bindE_def 1(1) v vault_open_def entry_of_def)
qed

text \<open>Sealing and loading leave every other entry as it is.\<close>

lemma sealing_grows_vault:
  assumes E: "transmit E = send" and C: "crypto E = P" and primitives: "purecrypto_ok P"
    and r: "ready (transport m)" and wf: "tpm_wf (tpm_of (transport m))"
    and s: "sensitive_fits (sealed_data_template Alg_SHA256) s" and room: "2 \<le> spare (tpm_objects (tpm_of (transport m)))"
  shows "vault_of (tpm_of (transport m)) \<subseteq>\<^sub>m vault_of (tpm_of (transport (snd (sealed_object E s m))))"
  by (rule sealed_object_served [OF assms]) (simp add: kept_vault)

text \<open>A session serves any number of commands: both sides stay in step.\<close>

lemma unseal_times_served:
  assumes E: "transmit E = send" and C: "crypto E = P" and primitives: "purecrypto_ok P"
    and "ready (transport m)" "tpm_wf (tpm_of (transport m))"
    and "vault_of (tpm_of (transport m)) item = Some (entry_of name s)"
    and "may_use E auth (buffer_bytes (user_auth s)) (tpm_of (transport m))"
  shows "\<exists>auth' m'. unseal_times E item name n (auth, m) = (Ok (replicate n (buffer_bytes (sens_data s))), (auth', m')) \<and>
    ready (transport m') \<and> tpm_wf (tpm_of (transport m')) \<and> vault_of (tpm_of (transport m')) = vault_of (tpm_of (transport m)) \<and>
    may_use E auth' (buffer_bytes (user_auth s)) (tpm_of (transport m')) \<and> same_auth auth auth'"
  using assms(4-)
proof (induction n arbitrary: auth m)
  case 0
  have "same_auth auth auth" by (cases auth) simp_all
  then show ?case using "0.prems" by (auto simp: ret_simp)
next
  case (Suc n)
  have h: "holds (tpm_of (transport m)) item name s" using Suc.prems(3) by (simp add: holds_vault)
  obtain a1 m1 where 1: "unseal E item name (auth, m) = (Ok (buffer_bytes (sens_data s)), (a1, m1))"
    "ready (transport m1)" "kept (tpm_of (transport m)) (tpm_of (transport m1))"
    "tpm_objects (tpm_of (transport m1)) = tpm_objects (tpm_of (transport m))"
    "may_use E a1 (buffer_bytes (user_auth s)) (tpm_of (transport m1))" "same_auth auth a1"
    by (rule unseal_served [OF E C primitives Suc.prems(1,2) h Suc.prems(4)]) blast
  have v: "vault_of (tpm_of (transport m1)) = vault_of (tpm_of (transport m))" by (rule same_objects_vault [OF 1(4)])
  obtain a2 m2 where "unseal_times E item name n (a1, m1) = (Ok (replicate n (buffer_bytes (sens_data s))), (a2, m2))"
    "ready (transport m2)" "tpm_wf (tpm_of (transport m2))" "vault_of (tpm_of (transport m2)) = vault_of (tpm_of (transport m1))"
    "may_use E a2 (buffer_bytes (user_auth s)) (tpm_of (transport m2))" "same_auth a1 a2"
    using Suc.IH [OF 1(2) keptD(1) [OF 1(3)] _ 1(5)] Suc.prems(3) v by auto
  moreover have "same_auth auth a2"
    using 1(6) \<open>same_auth a1 a2\<close> by (cases auth; cases a1; cases a2) auto
  ultimately show ?case
    using v by (intro exI [of _ a2] exI [of _ m2]) (simp add: bindE_def 1(1) ret_simp)
qed

end

end
