(* ===== verification/Service.thy ===== *)
theory Service
  imports Vault
begin

text \<open>
  A service of secrets and measurements as a caller runs it: any list of requests, each a few
  commands of the crate. What it promises is a machine of its own, on the vault, the PCRs and the
  number of free slots; over any link to the reference TPM the crate's answers are those of that
  machine, refusals included.
\<close>

section \<open>Requests\<close>

text \<open>
  \<open>Keep\<close> seals a secret under a parent and loads it; the names go into HMACs only, so with
  passwords none are passed.
\<close>

datatype service_call =
    Open Handle bytes
  | Discard Handle
  | Keep Handle bytes SensitiveCreate
  | Extend "32 word" "(Alg \<times> bytes) list"
  | Measure "8 word"

datatype service_answer =
    Opened "bytes result"
  | Done "unit result"
  | Kept "Handle result"
  | Measured "Buffer option result"

definition keep_secret ::
  "('h, 'm, 'g, 't) ports \<Rightarrow> Handle \<Rightarrow> SensitiveCreate \<Rightarrow> (Auth \<times> ('t, 'g) machine, Error, Handle) eff" where
  "keep_secret E parent s =
     bindE (create E parent [] s (sealed_data_template Alg_SHA256)) (\<lambda>c.
     bindE (load E parent [] (cr_private c) (cr_public c)) (\<lambda>l. ret (lr_handle l)))"

fun perform :: "('h, 'm, 'g, 't) ports \<Rightarrow> service_call \<Rightarrow> ('t, 'g) machine \<Rightarrow> service_answer \<times> ('t, 'g) machine" where
  "perform E (Open h pw) m = (case unseal E h [] (AuthPassword pw, m) of (x, (_, m')) \<Rightarrow> (Opened x, m'))"
| "perform E (Discard h) m = (case flush_context E h m of (x, m') \<Rightarrow> (Done x, m'))"
| "perform E (Keep parent pw s) m = (case keep_secret E parent s (AuthPassword pw, m) of (x, (_, m')) \<Rightarrow> (Kept x, m'))"
| "perform E (Extend pcr ds) m = (case pcr_extend E pcr ds (AuthPassword [], m) of (x, (_, m')) \<Rightarrow> (Done x, m'))"
| "perform E (Measure i) m = (case pcr_read_one E Alg_SHA256 i m of (x, m') \<Rightarrow> (Measured x, m'))"

primrec perform_all :: "('h, 'm, 'g, 't) ports \<Rightarrow> service_call list \<Rightarrow> ('t, 'g) machine \<Rightarrow> service_answer list \<times> ('t, 'g) machine" where
  "perform_all E [] m = ([], m)"
| "perform_all E (x # xs) m = (case perform E x m of (a, m1) \<Rightarrow>
     (case perform_all E xs m1 of (as, m2) \<Rightarrow> (a # as, m2)))"

section \<open>The promise\<close>

record store =
  st_vault :: vault
  st_room :: nat
  st_pcrs :: "bytes list"

definition tpm_error :: "32 word \<Rightarrow> 'a result" where
  "tpm_error rc = Err (Tpm (TpmRc rc))"

text \<open>The handle of a new entry is any that is free.\<close>

inductive serves ::
  "('h, 'm, 'g) purecrypto \<Rightarrow> store \<Rightarrow> service_call \<Rightarrow> service_answer \<Rightarrow> store \<Rightarrow> bool" for P st where
  opens: "serves P st (Open h pw) (Opened (vault_open (st_vault st) h pw)) st"
| discards: "h \<in> dom (st_vault st) \<Longrightarrow> serves P st (Discard h) (Done (Ok ()))
    (st\<lparr>st_vault := (st_vault st)(h := None), st_room := Suc (st_room st)\<rparr>)"
| nothing_to_discard: "h \<notin> dom (st_vault st) \<Longrightarrow> serves P st (Discard h) (Done (tpm_error trc_HANDLE)) st"
| no_parent: "parent \<notin> dom (st_vault st) \<Longrightarrow> serves P st (Keep parent pw s) (Kept (tpm_error trc_HANDLE)) st"
| not_allowed: "st_vault st parent = Some (n, av, d) \<Longrightarrow> pw \<noteq> av \<Longrightarrow>
    serves P st (Keep parent pw s) (Kept (tpm_error trc_AUTH_FAIL)) st"
| no_room: "st_vault st parent = Some (n, pw, d) \<Longrightarrow> st_room st = 0 \<Longrightarrow>
    serves P st (Keep parent pw s) (Kept (tpm_error trc_OBJECT_MEMORY)) st"
| keeps: "st_vault st parent = Some (n, pw, d) \<Longrightarrow> st_room st = Suc room \<Longrightarrow> h \<notin> dom (st_vault st) \<Longrightarrow>
    object_name_of P (sealed_data_template Alg_SHA256) = Some name \<Longrightarrow>
    serves P st (Keep parent pw s) (Kept (Ok h)) (st\<lparr>st_vault := (st_vault st)(h \<mapsto> entry_of name s), st_room := room\<rparr>)"
| extends: "unat pcr < length (st_pcrs st) \<Longrightarrow> serves P st (Extend pcr ds) (Done (Ok ()))
    (st\<lparr>st_pcrs := (st_pcrs st)[unat pcr := extended P ds (st_pcrs st ! unat pcr)]\<rparr>)"
| measures: "serves P st (Measure i) (Measured (Ok
    (if unat i < length (st_pcrs st) then Some (Buffer (st_pcrs st ! unat i)) else None))) st"

inductive serves_all ::
  "('h, 'm, 'g) purecrypto \<Rightarrow> store \<Rightarrow> service_call list \<Rightarrow> service_answer list \<Rightarrow> store \<Rightarrow> bool" for P where
  serves_none: "serves_all P st [] [] st"
| serves_next: "serves P st x a st1 \<Longrightarrow> serves_all P st1 xs as st2 \<Longrightarrow> serves_all P st (x # xs) (a # as) st2"

text \<open>The machine computed on given requests.\<close>

inductive_simps serves_open: "serves P st (Open h pw) a st'"
inductive_simps serves_discard: "serves P st (Discard h) a st'"
inductive_simps serves_keep: "serves P st (Keep parent pw s) a st'"
inductive_simps serves_extend: "serves P st (Extend pcr ds) a st'"
inductive_simps serves_measure: "serves P st (Measure i) a st'"
inductive_simps serves_all_none: "serves_all P st [] as st'"
inductive_simps serves_all_next: "serves_all P st (x # xs) as st'"

lemmas serves_simps = serves_open serves_discard serves_keep serves_extend serves_measure serves_all_none serves_all_next

text \<open>The abstraction of a TPM's state.\<close>

definition store_of :: "'g tpm \<Rightarrow> store" where
  "store_of q = \<lparr>st_vault = vault_of q, st_room = spare (tpm_objects q), st_pcrs = tpm_pcrs q\<rparr>"

text \<open>Requests that name objects by handles of the transient range, and whose sizes are those of a TPM.\<close>

definition object_handle :: "Handle \<Rightarrow> bool" where
  "object_handle h \<longleftrightarrow> first_transient \<le> handle_raw h"

fun sensible :: "service_call \<Rightarrow> bool" where
  "sensible (Open h pw) \<longleftrightarrow> object_handle h \<and> fits_tpm2b pw"
| "sensible (Discard h) \<longleftrightarrow> object_handle h"
| "sensible (Keep parent pw s) \<longleftrightarrow> object_handle parent \<and> fits_tpm2b pw \<and>
     sensitive_fits (sealed_data_template Alg_SHA256) s"
| "sensible (Extend pcr ds) \<longleftrightarrow> unat pcr < 24 \<and> digests_wf ds \<and> request_fits [Handle pcr] (digest_values ds)"
| "sensible (Measure i) \<longleftrightarrow> True"

section \<open>Names do not matter to passwords\<close>

lemma parse_password:
  assumes P: "purecrypto_ok P"
  shows "parse_response P code resp names k (AuthPassword pw) = parse_response P code resp names' k (AuthPassword pw)"
    "snd (parse_response P code resp names k (AuthPassword pw)) = AuthPassword pw"
proof -
  have c: "checked P code names x (AuthPassword pw) = checked P code names' x (AuthPassword pw) \<and>
      snd (checked P code names x (AuthPassword pw)) = AuthPassword pw" for x names names'
    by (cases x) (simp add: checked_eq [OF P] check_response_auth_eq [OF P] split: option.split)
  show "parse_response P code resp names k (AuthPassword pw) = parse_response P code resp names' k (AuthPassword pw)"
    "snd (parse_response P code resp names k (AuthPassword pw)) = AuthPassword pw"
    using c by (auto simp: parse_response_eq split: outcome.split)
qed

lemma loop_password:
  assumes P: "purecrypto_ok (crypto E)"
  shows "transmit_loop E code names k frame n (AuthPassword pw, m) =
    transmit_loop E code names' k frame n (AuthPassword pw, m)"
proof (induction "MAX_TRANSIENT_RETRIES - n" arbitrary: n m rule: less_induct)
  case less
  obtain x t where t: "transmit E frame (transport m) = (x, t)" by fastforce
  show ?case
  proof (cases x)
    case (Ok resp)
    obtain y where p: "parse_response (crypto E) code resp names k (AuthPassword pw) = (y, AuthPassword pw)"
      using parse_password(2) [OF P] by (metis prod.collapse)
    then have p': "parse_response (crypto E) code resp names' k (AuthPassword pw) = (y, AuthPassword pw)"
      using parse_password(1) [OF P] by metis
    have again: "transmit_loop E code names k frame (Suc n) (AuthPassword pw, m') =
        transmit_loop E code names' k frame (Suc n) (AuthPassword pw, m')" if "n < MAX_TRANSIENT_RETRIES" for m'
      using that by (intro less) simp
    show ?thesis
      by (subst (1 2) transmit_loop.simps)
        (simp add: on_transport_def t Ok on_fst_def p p' again split: outcome.split Error.split)
  qed (subst (1 2) transmit_loop.simps, simp add: on_transport_def t)+
qed

lemma run_password:
  assumes P: "purecrypto_ok (crypto E)" and fits: "request_fits hs params"
  shows "run E code hs names params k (AuthPassword pw, m) = run E code hs names' params k (AuthPassword pw, m)"
  using loop_password [OF P] by (simp add: run_eq [OF P fits] bindE_def)

lemma commands_password:
  assumes P: "purecrypto_ok (crypto E)"
  shows "unseal E h name (AuthPassword pw, m) = unseal E h name' (AuthPassword pw, m)"
    "create E h name s pub (AuthPassword pw, m) = create E h name' s pub (AuthPassword pw, m)"
    "load E h name prv pb (AuthPassword pw, m) = load E h name' prv pb (AuthPassword pw, m)"
proof -
  have "request_fits [h] []" by (simp add: request_fits_def)
  note e = run_password [OF P this, where names = "[name]" and names' = "[name']"]
  show "unseal E h name (AuthPassword pw, m) = unseal E h name' (AuthPassword pw, m)"
    by (simp add: unseal_def bindE_def e)
  have "request_fits [h] (create_params s pub)" using length_create_params [of s pub] by (intro fits_small) simp_all
  note e = run_password [OF P this, where names = "[name]" and names' = "[name']"]
  show "create E h name s pub (AuthPassword pw, m) = create E h name' s pub (AuthPassword pw, m)"
    by (simp add: create_def bindE_def e)
  have "length (wire_Buffer b) \<le> 65537" for b by (simp add: wire_Buffer_def length_tpm2b fits_tpm2b_def Buffer_wf_def)
  from this [of prv] this [of pb] have "request_fits [h] (marshal_Buffer pb (marshal_Buffer prv []))"
    by (intro fits_small) (simp_all add: marshal_Buffer_eq)
  note e = run_password [OF P this, where names = "[name]" and names' = "[name']"]
  show "load E h name prv pb (AuthPassword pw, m) = load E h name' prv pb (AuthPassword pw, m)"
    by (simp add: load_def bindE_def e)
qed

section \<open>The promise is kept\<close>

lemma object_handle_slots:
  assumes h: "object_handle h"
  shows "\<not> fixed_name h" "tpm_wf q \<Longrightarrow> in_slot first_session (tpm_sessions q) h = None"
proof -
  have t: "unat first_transient = 0x80000000" by (simp add: first_transient_def)
  have raw: "0x80000000 \<le> unat (handle_raw h)"
    using h t unfolding object_handle_def word_le_nat_alt by simp
  have r: "unat rh_OWNER = 0x40000001" "unat rh_ENDORSEMENT = 0x4000000B" "unat rh_PLATFORM = 0x4000000C"
    "unat rh_NULL = 0x40000007" by (simp_all add: tpm_consts)
  show "\<not> fixed_name h"
  proof
    assume "fixed_name h"
    then have "unat (handle_raw h) \<in> {unat rh_OWNER, unat rh_ENDORSEMENT, unat rh_PLATFORM, unat rh_NULL} \<union> {..<24}"
      by (auto simp: fixed_name_def)
    then show False using raw by (auto simp: r)
  qed
  assume wf: "tpm_wf q"
  have "unat (handle_raw h - first_session) = unat (handle_raw h) - 0x02000000"
    using raw by (subst unat_sub) (simp_all add: first_session_def word_le_nat_alt)
  moreover have "length (tpm_sessions q) \<le> 0x1000000" using wf by (simp add: tpm_wf_def)
  ultimately have "\<not> unat (handle_raw h - first_session) < length (tpm_sessions q)" using raw by linarith
  then show "in_slot first_session (tpm_sessions q) h = None" by (simp add: in_slot_def)
qed

lemma vault_slot:
  "object_handle h \<Longrightarrow> h \<in> dom (vault_of q) \<longleftrightarrow> in_slot first_transient (tpm_objects q) h \<noteq> None"
  using object_handle_slots(1) [of h] by (auto simp: vault_of_def)

text \<open>A loaded object is a new entry.\<close>

lemma loaded_vault:
  assumes wf: "tpm_wf q" and l: "load_object name s q = Inr (h, q')" and q1: "tpm_objects q1 = tpm_objects q'"
  shows "vault_of q1 = (vault_of q)(h \<mapsto> entry_of name s)" "Suc (spare (tpm_objects q1)) = spare (tpm_objects q)"
    "h \<notin> dom (vault_of q)"
proof -
  obtain i where i: "first_free (tpm_objects q) = Some i" "h = slot_handle first_transient i"
    and q': "tpm_objects q' = (tpm_objects q)[i := Some \<lparr>to_name = name, to_auth = buffer_bytes (user_auth s),
       to_data = buffer_bytes (sens_data s)\<rparr>]"
    using l by (auto simp: load_object_def split: option.splits)
  note n = first_free_SomeD [OF i(1)]
  have small: "i < 2 ^ 24" using n wf by (simp add: tpm_wf_def)
  then have idx: "unat (handle_raw h - first_transient) = i" unfolding i(2) by (intro slot_index) simp
  have fresh: "\<not> fixed_name h" using slot_not_reserved(1) [OF small] by (simp add: i(2))
  show "h \<notin> dom (vault_of q)" using n idx by (simp add: vault_of_def in_slot_def dom_def)
  show "Suc (spare (tpm_objects q1)) = spare (tpm_objects q)" using spare_update [of i "tpm_objects q"] n by (simp add: q1 q')
  show "vault_of q1 = (vault_of q)(h \<mapsto> entry_of name s)"
  proof
    fix k
    show "vault_of q1 k = ((vault_of q)(h \<mapsto> entry_of name s)) k"
      using n idx fresh same_slot [of k first_transient h]
      by (auto simp: vault_of_def q1 q' in_slot_def Let_def entry_of_def)
  qed
qed

lemma refused_codes:
  "trc_HANDLE \<noteq> 0" "\<not> is_transient (TpmRc trc_HANDLE)" "trc_AUTH_FAIL \<noteq> 0" "\<not> is_transient (TpmRc trc_AUTH_FAIL)"
  "trc_OBJECT_MEMORY \<noteq> 0" "\<not> is_transient (TpmRc trc_OBJECT_MEMORY)"
  by (simp_all add: refusals) (simp_all add: trc_OBJECT_MEMORY_def is_transient_def base_def is_format_one_def)

lemma flush_nothing:
  assumes "object_handle h" "tpm_wf q" "h \<notin> dom (vault_of q)"
  shows "do_flush_context (to_be_bytes (handle_raw h)) q = Inl trc_HANDLE"
proof -
  have "in_slot first_transient (tpm_objects q) h = None" using vault_slot [OF assms(1), of q] assms(3) by blast
  then show ?thesis
    using parse_all_reads [OF reads_newtypes(2) [of h]] object_handle_slots(2) [OF assms(1,2)]
    by (simp add: do_flush_context_def)
qed

context reference_link
begin

lemma open_served:
  assumes link: "transmit E = send" "crypto E = P" "purecrypto_ok P" "ready (transport m)" and wf: "tpm_wf (tpm_of (transport m))"
    and h: "object_handle h" and pw: "fits_tpm2b pw"
  obtains m' where "perform E (Open h pw) m = (Opened (vault_open (vault_of (tpm_of (transport m))) h pw), m')"
    "ready (transport m')" "tpm_wf (tpm_of (transport m'))" "store_of (tpm_of (transport m')) = store_of (tpm_of (transport m))"
proof -
  let ?v = "vault_of (tpm_of (transport m))"
  define name where "name = (case ?v h of None \<Rightarrow> [] | Some y \<Rightarrow> fst y)"
  have n: "\<forall>y. ?v h = Some y \<longrightarrow> fst y = name" by (simp add: name_def)
  obtain m' where m': "unseal E h name (AuthPassword pw, m) = (vault_open ?v h pw, (AuthPassword pw, m'))"
    "ready (transport m')" "tpm_wf (tpm_of (transport m'))" "vault_of (tpm_of (transport m')) = ?v"
    "tpm_objects (tpm_of (transport m')) = tpm_objects (tpm_of (transport m))"
    "tpm_pcrs (tpm_of (transport m')) = tpm_pcrs (tpm_of (transport m))"
    by (rule unseal_opens_vault [OF link wf pw object_handle_slots(1) [OF h] n])
  have P: "purecrypto_ok (crypto E)" using link by simp
  have "unseal E h [] (AuthPassword pw, m) = (vault_open ?v h pw, (AuthPassword pw, m'))"
    using commands_password(1) [OF P, of h "[]" pw m name] m'(1) by simp
  then show thesis using that m' by (simp add: store_of_def)
qed

lemma discard_served:
  assumes link: "transmit E = send" "crypto E = P" "purecrypto_ok P" "ready (transport m)" and wf: "tpm_wf (tpm_of (transport m))"
    and h: "object_handle h"
  obtains a m' where "perform E (Discard h) m = (a, m')" "ready (transport m')" "tpm_wf (tpm_of (transport m'))"
    "serves P (store_of (tpm_of (transport m))) (Discard h) a (store_of (tpm_of (transport m')))"
proof (cases "h \<in> dom (vault_of (tpm_of (transport m)))")
  case True
  let ?q = "tpm_of (transport m)" and ?q1 = "(tpm_of (transport m))\<lparr>tpm_objects :=
    free_slot first_transient (tpm_objects (tpm_of (transport m))) h\<rparr>"
  have slot: "in_slot first_transient (tpm_objects ?q) h \<noteq> None" using True vault_slot [OF h, of ?q] by blast
  obtain m' where m': "flush_context E h m = (Ok (), m')" "ready (transport m')" "tpm_of (transport m') = ?q1"
    by (rule flush_context_served [OF link do_flush_context_ok(1) [OF slot]])
  have "store_of ?q1 = (store_of ?q)\<lparr>st_vault := (st_vault (store_of ?q))(h := None), st_room := Suc (st_room (store_of ?q))\<rparr>"
    using slot spare_free_slot [of first_transient "tpm_objects ?q" h] flushed_vault [of ?q h] by (auto simp: store_of_def)
  moreover have "serves P (store_of ?q) (Discard h) (Done (Ok ()))
      ((store_of ?q)\<lparr>st_vault := (st_vault (store_of ?q))(h := None), st_room := Suc (st_room (store_of ?q))\<rparr>)"
    using True by (intro serves.discards) (simp add: store_of_def)
  ultimately show thesis
    using that [of "Done (Ok ())" m'] m' wf_free_object [OF wf] by simp
next
  case False
  let ?q = "tpm_of (transport m)"
  have fits: "request_fits [] (to_be_bytes (handle_raw h))" by (simp add: request_fits_def)
  obtain m' where m': "run_plain E cc_FLUSH_CONTEXT [] [] (to_be_bytes (handle_raw h)) 0 m = (Err (Tpm (TpmRc trc_HANDLE)), m')"
    "ready (transport m')" "tpm_of (transport m') = ?q"
    by (rule plain_refused [OF link fits refused_codes(1,2) command_kinds(10,16)])
      (simp add: command_bodies flush_nothing [OF h wf False])
  then have "flush_context E h m = (Err (Tpm (TpmRc trc_HANDLE)), m')"
    by (simp add: flush_context_def marshal_Handle_eq bindE_def)
  then show thesis
    using that [of "Done (tpm_error trc_HANDLE)" m'] m' wf serves.nothing_to_discard [of h "store_of ?q" P] False
    by (simp add: tpm_error_def store_of_def)
qed

lemma create_refused:
  assumes link: "transmit E = send" "crypto E = P" "purecrypto_ok P" "ready (transport m)"
    and h: "object_handle parent" and pw: "fits_tpm2b pw"
    and d: "case vault_of (tpm_of (transport m)) parent of None \<Rightarrow> rc = trc_HANDLE
      | Some (n, av, d) \<Rightarrow> rc = trc_AUTH_FAIL \<and> pw \<noteq> av"
  obtains m' where "create E parent name s pub (AuthPassword pw, m) = (Err (Tpm (TpmRc rc)), (AuthPassword pw, m'))"
    "ready (transport m')" "tpm_of (transport m') = tpm_of (transport m)"
proof -
  let ?q = "tpm_of (transport m)" and ?p = "create_params s pub"
  have rc: "rc \<noteq> 0" "\<not> is_transient (TpmRc rc)" using d refused_codes by (auto split: option.splits)
  have fits: "request_fits [parent] ?p" using length_create_params [of s pub] by (intro fits_small) simp_all
  have a: "authorize E cc_CREATE [name] ?p (AuthPassword pw, m) = (Ok (Some (password_entry pw)), (AuthPassword pw, m))"
    using pw by simp
  note e = entity_vault [OF object_handle_slots(1) [OF h], of ?q]
  have s: "tpm_serve P (request cc_CREATE [parent] (Some (password_entry pw)) ?p) ?q = (error_reply rc, ?q)"
    if len: "length (request cc_CREATE [parent] (Some (password_entry pw)) ?p) < 2 ^ 32"
      and wf: "\<forall>x. Some (password_entry pw) = Some x \<longrightarrow> AuthCommand_wf x"
  proof (cases "vault_of ?q parent")
    case None
    then have "entity ?q parent = None" using e by simp
    from serve_unknown [OF command_kinds(2,6) this _ len] show ?thesis using wf d None by simp
  next
    case (Some y)
    then obtain n av b where y: "vault_of ?q parent = Some (n, av, b)" by (cases y) simp
    then have "entity ?q parent = Some (n, av)" using e by simp
    from serve_rejected [OF command_kinds(2,6) this _ _ len] show ?thesis
      using wf d y by (simp add: password_accepted)
  qed
  obtain m' where "run E cc_CREATE [parent] [name] ?p 0 (AuthPassword pw, m) = (Err (Tpm (TpmRc rc)), (AuthPassword pw, m'))"
    "ready (transport m')" "tpm_of (transport m') = ?q"
    by (rule run_refused [OF link fits rc a refl s])
  then show thesis using that by (simp add: create_def bindE_def)
qed

text \<open>No slot is left for the object.\<close>

lemma load_refused:
  assumes link: "transmit E = send" "crypto E = P" "purecrypto_ok P" "ready (transport m)" and wf: "tpm_wf (tpm_of (transport m))"
    and p: "holds (tpm_of (transport m)) parent parent_name ps" and pw: "fits_tpm2b (buffer_bytes (user_auth ps))"
    and s: "sealable pub s" and n: "object_name_of P pub = Some name" and full: "spare (tpm_objects (tpm_of (transport m))) = 0"
  obtains m' where "load E parent parent_name (Buffer (private_blob parent_name s)) (Buffer (wire_Public pub))
      (AuthPassword (buffer_bytes (user_auth ps)), m) =
        (Err (Tpm (TpmRc trc_OBJECT_MEMORY)), (AuthPassword (buffer_bytes (user_auth ps)), m'))"
    "ready (transport m')" "tpm_of (transport m') = tpm_of (transport m)"
proof -
  let ?q = "tpm_of (transport m)" and ?pw = "buffer_bytes (user_auth ps)"
  let ?p = "tpm2b (private_blob parent_name s) @ tpm2b (wire_Public pub)"
  from s have b: "length (wire_Public pub) \<le> 1000" by (rule sealableD)
  note e = entity_holds [OF p]
  have pn: "length parent_name \<le> 66" using entity_bounds [OF wf e] by simp
  note prv = length_private [OF s pn]
  have "first_free (tpm_objects ?q) = None"
  proof (rule ccontr)
    assume "first_free (tpm_objects ?q) \<noteq> None"
    then obtain i where "first_free (tpm_objects ?q) = Some i" by auto
    from spare_update [OF first_free_SomeD [OF this, THEN conjunct1] first_free_SomeD [OF this, THEN conjunct2]] full
    show False by simp
  qed
  then have body: "tpm_body P cc_LOAD [parent] parent_name ?p ?q = Inl trc_OBJECT_MEMORY"
    by (simp add: command_bodies do_load_eq [OF s pn n] load_object_def)
  have fits: "request_fits [parent] ?p" using prv b by (intro fits_small) (simp_all add: length_tpm2b)
  have a: "authorize E cc_LOAD [parent_name] ?p (AuthPassword ?pw, m) = (Ok (Some (password_entry ?pw)), (AuthPassword ?pw, m))"
    using pw by simp
  obtain m' where m': "run E cc_LOAD [parent] [parent_name] ?p 1 (AuthPassword ?pw, m) =
      (Err (Tpm (TpmRc trc_OBJECT_MEMORY)), (AuthPassword ?pw, m'))"
    "ready (transport m')" "tpm_of (transport m') = ?q"
    by (rule run_refused [OF link fits refused_codes(5,6) a refl serve_failed [OF command_kinds(3,7) e _ body]])
      (auto simp: password_accepted)
  have f: "fits_tpm2b (private_blob parent_name s)" "fits_tpm2b (wire_Public pub)"
    using prv b by (simp_all add: fits_tpm2b_def)
  then have "marshal_Buffer (Buffer (wire_Public pub)) (marshal_Buffer (Buffer (private_blob parent_name s)) []) = ?p"
    by (simp add: marshal_Buffer_eq wire_Buffer_def Buffer_wf_def)
  then show thesis using that m' by (simp add: load_def Let_def bindE_def)
qed

lemma keep_served:
  assumes link: "transmit E = send" "crypto E = P" "purecrypto_ok P" "ready (transport m)" and wf: "tpm_wf (tpm_of (transport m))"
    and ok: "sensible (Keep parent pw s)"
  obtains a m' where "perform E (Keep parent pw s) m = (a, m')" "ready (transport m')" "tpm_wf (tpm_of (transport m'))"
    "serves P (store_of (tpm_of (transport m))) (Keep parent pw s) a (store_of (tpm_of (transport m')))"
proof -
  let ?q = "tpm_of (transport m)" and ?T = "sealed_data_template Alg_SHA256"
  have PE: "purecrypto_ok (crypto E)" using link by simp
  have h: "object_handle parent" and pw: "fits_tpm2b pw" and fit: "sensitive_fits ?T s" using ok by simp_all
  show thesis
  proof (cases "\<exists>n d. vault_of ?q parent = Some (n, pw, d)")
    case False
    obtain rc where rc: "case vault_of ?q parent of None \<Rightarrow> rc = trc_HANDLE | Some (n, av, d) \<Rightarrow> rc = trc_AUTH_FAIL \<and> pw \<noteq> av"
      using False by (cases "vault_of ?q parent") auto
    obtain m' where m': "create E parent [] s ?T (AuthPassword pw, m) = (Err (Tpm (TpmRc rc)), (AuthPassword pw, m'))"
      "ready (transport m')" "tpm_of (transport m') = ?q"
      by (rule create_refused [OF link h pw rc])
    have "serves P (store_of ?q) (Keep parent pw s) (Kept (tpm_error rc)) (store_of ?q)"
    proof (cases "vault_of ?q parent")
      case None
      with rc serves.no_parent [of parent "store_of ?q" P pw s] show ?thesis by (simp add: store_of_def dom_def)
    next
      case (Some y)
      with rc serves.not_allowed [of "store_of ?q" parent "fst y" "fst (snd y)" "snd (snd y)" pw P s] show ?thesis
        by (simp add: store_of_def split: prod.splits)
    qed
    then show thesis
      using that [of "Kept (tpm_error rc)" m'] m' wf by (simp add: keep_secret_def bindE_def tpm_error_def)
  next
    case True
    then obtain n d where v: "vault_of ?q parent = Some (n, pw, d)" by blast
    let ?ps = "\<lparr>user_auth = Buffer pw, sens_data = Buffer d\<rparr>"
    note held = vault_entry [OF v]
    have seal: "sealable ?T s" by (rule test_templates(2) [OF fit])
    obtain name where name: "object_name_of P ?T = Some name" using test_templates(4) by blast
    have u: "may_use E (AuthPassword pw) (buffer_bytes (user_auth ?ps)) ?q" by simp
    obtain a1 m1 where 1: "create E parent n s ?T (AuthPassword pw, m) =
        (Ok \<lparr>cr_private = Buffer (private_blob n s), cr_public = Buffer (wire_Public ?T)\<rparr>, (a1, m1))"
      "ready (transport m1)" "kept ?q (tpm_of (transport m1))" "tpm_objects (tpm_of (transport m1)) = tpm_objects ?q"
      "same_auth (AuthPassword pw) a1"
      by (rule create_served [OF link wf held u seal]) blast
    have a1: "a1 = AuthPassword pw" using 1(5) by (cases a1) simp_all
    have c: "create E parent [] s ?T (AuthPassword pw, m) =
        (Ok \<lparr>cr_private = Buffer (private_blob n s), cr_public = Buffer (wire_Public ?T)\<rparr>, (AuthPassword pw, m1))"
      using commands_password(2) [OF PE, of parent "[]" s ?T pw m n] 1(1) a1 by simp
    note link1 = link(1-3) 1(2) keptD(1) [OF 1(3)]
    note held1 = keptD(2) [OF 1(3) held]
    have st1: "store_of (tpm_of (transport m1)) = store_of ?q"
      using 1(3,4) same_objects_vault [OF 1(4)] by (simp add: store_of_def kept_def)
    note l = commands_password(3) [OF PE, of parent "[]" "Buffer (private_blob n s)" "Buffer (wire_Public ?T)" pw m1 n]
    show thesis
    proof (cases "spare (tpm_objects ?q)")
      case 0
      then have full: "spare (tpm_objects (tpm_of (transport m1))) = 0" using 1(4) by simp
      have pw': "fits_tpm2b (buffer_bytes (user_auth ?ps))" using pw by simp
      obtain m2 where m2: "load E parent n (Buffer (private_blob n s)) (Buffer (wire_Public ?T)) (AuthPassword pw, m1) =
          (Err (Tpm (TpmRc trc_OBJECT_MEMORY)), (AuthPassword pw, m2))"
        "ready (transport m2)" "tpm_of (transport m2) = tpm_of (transport m1)"
        using load_refused [OF link1 held1 pw' seal name full] by auto
      have "serves P (store_of ?q) (Keep parent pw s) (Kept (tpm_error trc_OBJECT_MEMORY)) (store_of ?q)"
        by (rule serves.no_room) (use v 0 in \<open>simp_all add: store_of_def\<close>)
      then show thesis
        using that [of "Kept (tpm_error trc_OBJECT_MEMORY)" m2] m2 c l st1 link1(5)
        by (simp add: keep_secret_def bindE_def tpm_error_def)
    next
      case (Suc room)
      then have r: "0 < spare (tpm_objects (tpm_of (transport m1)))" using 1(4) by simp
      have u1: "may_use E (AuthPassword pw) (buffer_bytes (user_auth ?ps)) (tpm_of (transport m1))" by simp
      obtain hd a2 m2 where 2: "load E parent n (Buffer (private_blob n s)) (Buffer (wire_Public ?T)) (AuthPassword pw, m1) =
          (Ok \<lparr>lr_handle = hd, lr_name = Buffer name\<rparr>, (a2, m2))" "ready (transport m2)"
        "kept (tpm_of (transport m1)) (tpm_of (transport m2))"
        "\<exists>q1. load_object name s (tpm_of (transport m1)) = Inr (hd, q1) \<and> tpm_objects (tpm_of (transport m2)) = tpm_objects q1"
        by (rule load_served [OF link1 held1 u1 seal name r]) blast
      then obtain q1 where q1: "load_object name s (tpm_of (transport m1)) = Inr (hd, q1)"
        "tpm_objects (tpm_of (transport m2)) = tpm_objects q1" by blast
      note lv = loaded_vault [OF link1(5) q1]
      have "store_of (tpm_of (transport m2)) = (store_of ?q)\<lparr>st_vault := (st_vault (store_of ?q))(hd \<mapsto> entry_of name s), st_room := room\<rparr>"
        using lv(1,2) st1 Suc 2(3) by (auto simp: store_of_def kept_def)
      moreover have "serves P (store_of ?q) (Keep parent pw s) (Kept (Ok hd))
          ((store_of ?q)\<lparr>st_vault := (st_vault (store_of ?q))(hd \<mapsto> entry_of name s), st_room := room\<rparr>)"
        by (rule serves.keeps [OF _ _ _ name]) (use v Suc lv(3) st1 in \<open>simp_all add: store_of_def\<close>)
      ultimately show thesis
        using that [of "Kept (Ok hd)" m2] 2(1,2) keptD(1) [OF 2(3)] c l by (simp add: keep_secret_def bindE_def ret_simp)
    qed
  qed
qed

text \<open>One request, and any number of them.\<close>

lemma perform_served:
  assumes link: "transmit E = send" "crypto E = P" "purecrypto_ok P" and r: "ready (transport m)" and wf: "tpm_wf (tpm_of (transport m))"
    and x: "sensible x"
  obtains a m' where "perform E x m = (a, m')" "ready (transport m')" "tpm_wf (tpm_of (transport m'))"
    "serves P (store_of (tpm_of (transport m))) x a (store_of (tpm_of (transport m')))"
proof (cases x)
  case (Open h pw)
  then have ok: "object_handle h" "fits_tpm2b pw" using x by simp_all
  obtain m' where "perform E (Open h pw) m = (Opened (vault_open (vault_of (tpm_of (transport m))) h pw), m')"
    "ready (transport m')" "tpm_wf (tpm_of (transport m'))" "store_of (tpm_of (transport m')) = store_of (tpm_of (transport m))"
    by (rule open_served [OF link r wf ok])
  then show thesis
    using that serves.opens [of P "store_of (tpm_of (transport m))" h pw] unfolding Open by (simp add: store_of_def)
next
  case (Discard h)
  then have "object_handle h" using x by simp
  then show thesis unfolding Discard by (rule discard_served [OF link r wf]) (rule that [unfolded Discard])
next
  case (Keep parent pw s)
  show thesis using x unfolding Keep by (rule keep_served [OF link r wf]) (rule that [unfolded Keep])
next
  case (Extend pcr ds)
  then have i: "unat pcr < 24" and ds: "digests_wf ds" "request_fits [Handle pcr] (digest_values ds)" using x by simp_all
  have u: "may_use E (AuthPassword []) [] (tpm_of (transport m))" by simp
  obtain auth' m' where m': "pcr_extend E pcr ds (AuthPassword [], m) = (Ok (), (auth', m'))" "ready (transport m')"
    "tpm_wf (tpm_of (transport m'))" "tpm_objects (tpm_of (transport m')) = tpm_objects (tpm_of (transport m))"
    "tpm_pcrs (tpm_of (transport m')) = (tpm_pcrs (tpm_of (transport m)))
       [unat pcr := extended P ds (tpm_pcrs (tpm_of (transport m)) ! unat pcr)]"
    by (rule pcr_extend_served [OF link r wf i ds u]) blast
  have "length (tpm_pcrs (tpm_of (transport m))) = 24" using wf by (simp add: tpm_wf_def)
  then show thesis
    using that [of "Done (Ok ())" m'] serves.extends [of pcr "store_of (tpm_of (transport m))" P ds] m' i
      same_objects_vault [OF m'(4)] unfolding Extend by (simp add: store_of_def)
next
  case (Measure i)
  obtain m' where m': "pcr_read_one E Alg_SHA256 i m =
      (Ok (if unat i < 24 then Some (Buffer (tpm_pcrs (tpm_of (transport m)) ! unat i)) else None), m')"
    "ready (transport m')" "tpm_of (transport m') = tpm_of (transport m)"
    by (rule pcr_read_one_served [OF link r wf])
  have "length (tpm_pcrs (tpm_of (transport m))) = 24" using wf by (simp add: tpm_wf_def)
  then show thesis
    using that [OF _ m'(2)] serves.measures [of P "store_of (tpm_of (transport m))" i] m' wf unfolding Measure
    by (simp add: store_of_def cong: if_cong)
qed

lemma perform_all_served:
  assumes link: "transmit E = send" "crypto E = P" "purecrypto_ok P"
  shows "ready (transport m) \<Longrightarrow> tpm_wf (tpm_of (transport m)) \<Longrightarrow> list_all sensible xs \<Longrightarrow>
    \<exists>as m'. perform_all E xs m = (as, m') \<and> ready (transport m') \<and> tpm_wf (tpm_of (transport m')) \<and>
      serves_all P (store_of (tpm_of (transport m))) xs as (store_of (tpm_of (transport m')))"
proof (induction xs arbitrary: m)
  case Nil
  then show ?case by (simp add: serves_all.serves_none)
next
  case (Cons x xs)
  have x: "sensible x" and xs: "list_all sensible xs" using Cons.prems(3) by simp_all
  obtain a m1 where 1: "perform E x m = (a, m1)" "ready (transport m1)" "tpm_wf (tpm_of (transport m1))"
    "serves P (store_of (tpm_of (transport m))) x a (store_of (tpm_of (transport m1)))"
    by (rule perform_served [OF link Cons.prems(1,2) x])
  obtain as m2 where 2: "perform_all E xs m1 = (as, m2)" "ready (transport m2)" "tpm_wf (tpm_of (transport m2))"
    "serves_all P (store_of (tpm_of (transport m1))) xs as (store_of (tpm_of (transport m2)))"
    using Cons.IH [OF 1(2,3) xs] by blast
  have "serves_all P (store_of (tpm_of (transport m))) (x # xs) (a # as) (store_of (tpm_of (transport m2)))"
    by (rule serves_all.serves_next [OF 1(4) 2(4)])
  then show ?case using 1(1) 2 by auto
qed

end

end
