(* ===== verification/Result_Types.thy ===== *)
theory Result_Types
  imports Commands
begin

text \<open>
  What the types of the results promise, for any TPM: a buffer that came out of a response fits its
  length field, a selection its length byte. The marshalling of such a value drops nothing (a
  \<open>Buffer\<close> above 65535 bytes would leave no trace on the wire), so the results of one command can be
  handed to the next.
\<close>

section \<open>Postconditions\<close>

definition gives :: "('s, 'e, 'a) eff \<Rightarrow> ('a \<Rightarrow> bool) \<Rightarrow> bool" where
  "gives f Q \<longleftrightarrow> (\<forall>s a s'. f s = (Ok a, s') \<longrightarrow> Q a)"

lemma givesD: "gives f Q \<Longrightarrow> f s = (Ok a, s') \<Longrightarrow> Q a"
  unfolding gives_def by blast

lemma gives_any: "gives f (\<lambda>_. True)"
  by (simp add: gives_def)

lemma gives_bindE:
  assumes "gives f R" "\<And>a. R a \<Longrightarrow> gives (g a) Q"
  shows "gives (bindE f g) Q"
  unfolding gives_def
proof (intro allI impI)
  fix s b t assume "bindE f g s = (Ok b, t)"
  then obtain a s' where "f s = (Ok a, s')" "g a s' = (Ok b, t)" by (rule bindE_OkE)
  then show "Q b" using assms by (blast dest: givesD)
qed

text \<open>A step whose result does not matter.\<close>

lemma gives_after: "(\<And>a. gives (g a) Q) \<Longrightarrow> gives (bindE f g) Q"
  by (rule gives_bindE [OF gives_any])

lemma gives_ret: "Q a \<Longrightarrow> gives (ret a) Q"
  by (simp add: gives_def ret_simp)

lemma gives_lift: "(\<And>a. x = Ok a \<Longrightarrow> Q a) \<Longrightarrow> gives (lift_outcome x) Q"
  by (auto simp: gives_def lift_outcome_simp)

lemma gives_params: "gives p Q \<Longrightarrow> gives (unmarshal_params p bs) Q"
  unfolding unmarshal_params_def by (rule gives_lift) (metis givesD prod.collapse)

section \<open>Parsers\<close>

lemma gives_take: "gives (take_bytes n) (\<lambda>bs. length bs = n)"
  unfolding take_bytes_def
  by (intro gives_after) (auto simp: gives_def bindE_def slice_at_def raise_simp lift_outcome_simp)

lemma gives_tpm2b: "gives read_tpm2b fits_tpm2b"
  unfolding read_tpm2b_def
proof (rule gives_after)
  fix n :: "16 word"
  show "gives (take_bytes (unat n)) fits_tpm2b"
    using gives_take [of "unat n"] unsigned_less [of n, where ?'a = nat] by (auto simp: gives_def fits_tpm2b_def)
qed

lemma gives_read_times: "gives p Q \<Longrightarrow> gives (read_times n p) (\<lambda>xs. length xs = n \<and> list_all Q xs)"
proof (induction n)
  case (Suc n)
  show ?case
    by simp (rule gives_bindE [OF Suc.prems], rule gives_bindE [OF Suc.IH [OF Suc.prems]], auto intro: gives_ret)
qed (simp add: gives_ret)

lemma gives_Buffer: "gives (bindE read_tpm2b (\<lambda>d. ret (Buffer d))) Buffer_wf"
  by (rule gives_bindE [OF gives_tpm2b]) (simp add: gives_ret Buffer_wf_def)

lemma gives_digests: "gives read_digest_list (\<lambda>ds. length ds \<le> 0xFFFF \<and> list_all Buffer_wf ds)"
  unfolding read_digest_list_def
proof (rule gives_after)
  fix n :: "32 word"
  have "gives (read_times (unat n) (bindE read_tpm2b (\<lambda>d. ret (Buffer d))))
      (\<lambda>ds. length ds = unat n \<and> list_all Buffer_wf ds)"
    by (rule gives_read_times [OF gives_Buffer])
  then show "gives (if 0xFFFF < unat n then raise (Malformed ''absurd digest-list count'')
      else read_times (unat n) (bindE read_tpm2b (\<lambda>d. ret (Buffer d)))) (\<lambda>ds. length ds \<le> 0xFFFF \<and> list_all Buffer_wf ds)"
    by (auto simp: gives_def raise_simp)
qed

lemma gives_PcrSelection: "gives unmarshal_PcrSelection PcrSelection_wf"
  unfolding unmarshal_PcrSelection_def
proof (rule gives_after, rule gives_after)
  fix h and n :: byte
  have "unat n \<le> 255" using unsigned_less [of n, where ?'a = nat] by simp
  then show "gives (bindE (take_bytes (unat n)) (\<lambda>sel. ret \<lparr>pcr_hash = h, pcr_select = sel\<rparr>)) PcrSelection_wf"
    by (intro gives_bindE [OF gives_take]) (simp add: gives_ret PcrSelection_wf_def)
qed

lemma gives_PcrSelectionList: "gives unmarshal_from PcrSelectionList_wf"
  unfolding unmarshal_from_def unmarshal_PcrSelectionList_def
proof (rule gives_after)
  fix n :: "32 word"
  show "gives (bindE (read_times (unat n) unmarshal_PcrSelection) (\<lambda>v. ret (PcrSelectionList v))) PcrSelectionList_wf"
    using unsigned_less [of n, where ?'a = nat]
    by (intro gives_bindE [OF gives_read_times [OF gives_PcrSelection]]) (simp add: gives_ret PcrSelectionList_wf_def)
qed

section \<open>Results of commands\<close>

lemma object_results:
  "gives (create_primary E hierarchy s pub) (\<lambda>r. Buffer_wf (cp_name r) \<and> Buffer_wf (cp_public r))"
  "gives (create E parent name s pub) (\<lambda>r. Buffer_wf (cr_private r) \<and> Buffer_wf (cr_public r))"
  "gives (load E parent name prv pb) (\<lambda>r. Buffer_wf (lr_name r))"
  "gives (unseal E item name) fits_tpm2b"
proof -
  note step = gives_bindE [OF gives_tpm2b]
  show "gives (create_primary E hierarchy s pub) (\<lambda>r. Buffer_wf (cp_name r) \<and> Buffer_wf (cp_public r))"
    unfolding create_primary_def Let_def
    by (rule gives_after, rule gives_after, rule gives_params, rule step, rule gives_after, rule gives_after,
        rule gives_after, rule step) (simp add: gives_ret Buffer_wf_def)
  show "gives (create E parent name s pub) (\<lambda>r. Buffer_wf (cr_private r) \<and> Buffer_wf (cr_public r))"
    unfolding create_def Let_def
    by (rule gives_after, rule gives_params, rule step, rule step) (simp add: gives_ret Buffer_wf_def)
  show "gives (load E parent name prv pb) (\<lambda>r. Buffer_wf (lr_name r))"
    unfolding load_def Let_def
    by (rule gives_after, rule gives_after, rule gives_params, rule step) (simp add: gives_ret Buffer_wf_def)
  show "gives (unseal E item name) fits_tpm2b"
    unfolding unseal_def by (rule gives_after, rule gives_params, rule gives_tpm2b)
qed

lemma plain_results:
  "gives (get_random E n) fits_tpm2b"
  "gives (pcr_read E sel) (\<lambda>r. PcrSelectionList_wf (pr_selection r) \<and> length (pr_values r) \<le> 0xFFFF \<and>
     list_all Buffer_wf (pr_values r))"
  "gives (pcr_read_one E alg i) (\<lambda>v. \<forall>d. v = Some d \<longrightarrow> Buffer_wf d)"
proof -
  show "gives (get_random E n) fits_tpm2b"
    unfolding get_random_def Let_def by (rule gives_after, rule gives_params, rule gives_tpm2b)
  show read: "gives (pcr_read E sel) (\<lambda>r. PcrSelectionList_wf (pr_selection r) \<and> length (pr_values r) \<le> 0xFFFF \<and>
      list_all Buffer_wf (pr_values r))" for sel
    unfolding pcr_read_def Let_def
    by (rule gives_after, rule gives_params, rule gives_after, rule gives_bindE [OF gives_PcrSelectionList],
        rule gives_bindE [OF gives_digests]) (simp add: gives_ret)
  show "gives (pcr_read_one E alg i) (\<lambda>v. \<forall>d. v = Some d \<longrightarrow> Buffer_wf d)"
    unfolding pcr_read_one_def
    by (rule gives_bindE [OF read]) (auto intro!: gives_ret split: list.split)
qed

text \<open>A started session is over a supported hash, continues, and holds the nonces as they were exchanged.\<close>

lemma session_results:
  assumes P: "purecrypto_ok (crypto E)"
  shows "gives (start_auth_session E alg nonce) (\<lambda>s. hash_fn_of (sess_hash_alg s) \<noteq> None \<and> sess_hash_alg s = alg \<and>
    fits_tpm2b (nonce_tpm s) \<and> nonce_caller s = nonce \<and> fits_tpm2b nonce \<and> session_key s = [] \<and> bound_name s = [])"
proof (cases "fits_tpm2b nonce")
  case True
  have e: "fits_tpm2b []" by (simp add: fits_tpm2b_def)
  show ?thesis
    unfolding start_auth_session_def Let_def marshal_tpm2b_eq if_P [OF True] if_P [OF e] prod.case
    by (rule gives_after, rule gives_after, rule gives_after, rule gives_after, rule gives_bindE [OF gives_params [OF gives_tpm2b]], rule gives_lift)
      (use True in \<open>auto simp: Session_new_eq [OF P] split: option.splits\<close>)
next
  case False
  then show ?thesis
    by (auto simp: start_auth_session_def marshal_tpm2b_eq gives_def eff_simps)
qed

end
