(* ===== verification/Busy.thy ===== *)
theory Busy
  imports Result_Types Links
begin

text \<open>
  A TPM that is busy answers a command with a warning and expects it again. The resubmission of
  the dispatcher hides that: in front of a TPM that interposes up to twelve warnings per command,
  every command method computes what it computes in front of the TPM itself. The proof is a
  simulation, one rule per construct of the code and one lemma per command.
\<close>

section \<open>Simulations\<close>

definition agree :: "('s \<Rightarrow> 't \<Rightarrow> bool) \<Rightarrow> 'x \<times> 's \<Rightarrow> 'x \<times> 't \<Rightarrow> bool" where
  "agree R x y \<longleftrightarrow> fst x = fst y \<and> R (snd x) (snd y)"

definition sim :: "('s \<Rightarrow> 't \<Rightarrow> bool) \<Rightarrow> ('s, 'e, 'a) eff \<Rightarrow> ('t, 'e, 'a) eff \<Rightarrow> bool" where
  "sim R f g \<longleftrightarrow> (\<forall>s t. R s t \<longrightarrow> agree R (f s) (g t))"

named_theorems sim_intros \<open>simulations of the constructs of the code\<close>

lemma simI: "(\<And>s t. R s t \<Longrightarrow> agree R (f s) (g t)) \<Longrightarrow> sim R f g"
  by (simp add: sim_def)

lemma simD: "sim R f g \<Longrightarrow> R s t \<Longrightarrow> agree R (f s) (g t)"
  by (simp add: sim_def)

lemma agree_bindE:
  assumes "agree R (f s) (g t)" "gives f Q" "\<And>a. Q a \<Longrightarrow> sim R (h a) (k a)"
  shows "agree R (bindE f h s) (bindE g k t)"
proof -
  obtain x s' y t' where e: "f s = (x, s')" "g t = (y, t')" by fastforce
  then have "y = x" "R s' t'" using assms(1) by (simp_all add: agree_def)
  then show ?thesis
    using e simD [OF assms(3)] givesD [OF assms(2)] by (cases x) (auto simp: bindE_def agree_def)
qed

lemma sim_bindE_gives:
  "sim R f g \<Longrightarrow> gives f Q \<Longrightarrow> (\<And>a. Q a \<Longrightarrow> sim R (h a) (k a)) \<Longrightarrow> sim R (bindE f h) (bindE g k)"
  by (simp add: sim_def [of R "bindE f h"] agree_bindE simD)

lemma sim_bindE [sim_intros]: "sim R f g \<Longrightarrow> (\<And>a. sim R (h a) (k a)) \<Longrightarrow> sim R (bindE f h) (bindE g k)"
  by (rule sim_bindE_gives [OF _ gives_any])

lemma sim_ret [sim_intros]: "sim R (ret a) (ret a)"
  by (simp add: sim_def agree_def ret_simp)

lemma sim_raise [sim_intros]: "sim R (raise e) (raise e)"
  by (simp add: sim_def agree_def raise_simp)

lemma sim_lift [sim_intros]: "sim R (lift_outcome x) (lift_outcome x)"
  by (simp add: sim_def agree_def lift_outcome_simp)

lemma sim_params [sim_intros]: "sim R (unmarshal_params p bs) (unmarshal_params p bs)"
  unfolding unmarshal_params_def by (rule sim_lift)

section \<open>A busy TPM\<close>

text \<open>Per command the warnings it answers first; beyond the script it answers at once.\<close>

definition busy_serve ::
  "(bytes \<Rightarrow> 'q \<Rightarrow> bytes \<times> 'q) \<Rightarrow> bytes \<Rightarrow> 'q \<times> 32 word list list \<Rightarrow> bytes \<times> 'q \<times> 32 word list list" where
  "busy_serve serve f b = (case b of (q, script) \<Rightarrow> (case script of
       (w # ws) # rest \<Rightarrow> (error_reply w, q, ws # rest)
     | _ \<Rightarrow> (case serve f q of (r, q') \<Rightarrow> (r, q', tl script))))"

definition patient_script :: "32 word list list \<Rightarrow> bool" where
  "patient_script script \<longleftrightarrow> (\<forall>ws \<in> set script. length ws \<le> 12 \<and> (\<forall>w \<in> set ws. w \<in> {0x908, 0x90A, 0x922}))"

definition response_code :: "bytes \<Rightarrow> 32 word option" where
  "response_code r = (if length r < 10 then None else Some (from_be_bytes (take 4 (drop 6 r))))"

text \<open>The TPM itself sends no such warnings.\<close>

definition quiet :: "(bytes \<Rightarrow> 'q \<Rightarrow> bytes \<times> 'q) \<Rightarrow> bool" where
  "quiet serve \<longleftrightarrow> (\<forall>f q rc. response_code (fst (serve f q)) = Some rc \<longrightarrow> \<not> is_transient (TpmRc rc))"

lemma warnings: "w \<in> {0x908, 0x90A, 0x922} \<Longrightarrow> w \<noteq> 0 \<and> is_transient (TpmRc w)"
  by (auto simp: is_transient_def base_def is_format_one_def)

section \<open>Where a TPM error comes from\<close>

lemma response_tail_error:
  assumes wf: "reader_wf r"
  shows "fst (response_tail k tag r) \<noteq> Err (Tpm rc)"
proof -
  let ?F = "\<lambda>hs. if tag = st_SESSIONS then
         bindE read_u32 (\<lambda>n. bindE (take_bytes (unat n)) (\<lambda>p. bindE parse_auth_response (\<lambda>ar.
           ret (hs, p, Some ar))))
       else bindE (bindE remaining take_bytes) (\<lambda>p. ret (hs, p, None))"
  have F: "fst (?F hs r') \<noteq> Err (Tpm rc)" if wf': "reader_wf r'" for hs r'
  proof (cases "tag = st_SESSIONS")
    case True
    have "bounded_parser (bindE read_u32 (\<lambda>n. bindE (take_bytes (unat n)) (\<lambda>p. bindE parse_auth_response (\<lambda>ar.
        ret (hs, p, Some ar)))))" by (intro parser_intros)
    from this wf' show ?thesis by (rule bounded_cases) (simp_all add: True)
  qed (simp add: bind_rest [OF wf'] eff_simps)
  have "bounded_parser (read_times k unmarshal_Handle)"
    by (intro parser_intros codec_Handle.unmarshal_bounded)
  from this wf show ?thesis
  proof (rule bounded_cases)
    fix hs bs rest
    assume "read_times k unmarshal_Handle r = (Ok hs, advance (length bs) r)" "unread r = bs @ rest"
    then show ?thesis using F [of "advance (length bs) r" hs] wf by (simp add: response_tail_def bindE_def)
  qed (simp add: response_tail_def bindE_def)
qed

lemma parse_Tpm_error:
  assumes P: "purecrypto_ok P" and e: "fst (parse_response P code resp names k auth) = Err (Tpm rc)"
  shows "response_code resp = Some (rc_raw rc)"
proof -
  have c: "fst (checked P code names x auth) \<noteq> Err (Tpm rc)" for x
    by (cases x) (auto simp: checked_eq P check_response_auth_eq hmac_mismatch_def split: option.split Auth.split)
  have len: "10 \<le> length resp"
    using e response_parser_short [of resp "length resp" k] by (fastforce simp: parse_response_eq short_read_def)
  obtain tag :: "16 word" and sz code :: "32 word" and rest where
    r: "resp = to_be_bytes tag @ to_be_bytes sz @ to_be_bytes code @ rest"
    by (rule header_split [OF len])
  let ?r = "advance 10 (Reader_new resp)"
  have wf: "reader_wf ?r" using len by simp
  have p: "fst (response_parser (length resp) k (Reader_new resp)) = (if code \<noteq> 0 then Err (error_rc code)
      else if unat sz \<noteq> length resp then Err size_mismatch else fst (response_tail k tag ?r))"
    using response_parser_header [of "length resp" k tag sz code rest] r by (simp add: raise_simp)
  have "code \<noteq> 0 \<and> rc = TpmRc code"
    using e c response_tail_error [OF wf, of k tag rc]
    by (auto simp: parse_response_eq p error_rc_def size_mismatch_def split: outcome.splits if_splits)
  then show ?thesis by (simp add: response_code_def r)
qed

section \<open>The dispatcher\<close>

text \<open>Two machines over the device: one behind a busy driver, one behind a quiet one.\<close>

definition busy_with ::
  "('q \<times> 32 word list list) kernel_tpm DeviceTransport \<Rightarrow> 'q kernel_tpm DeviceTransport \<Rightarrow> 32 word list list \<Rightarrow> bool" where
  "busy_with t t' script \<longleftrightarrow> kt_tpm (dev_file t) = (kt_tpm (dev_file t'), script) \<and> patient_script script"

definition busy_rel ::
  "(('q \<times> 32 word list list) kernel_tpm DeviceTransport, 'g) machine \<Rightarrow> ('q kernel_tpm DeviceTransport, 'g) machine \<Rightarrow> bool" where
  "busy_rel m m' \<longleftrightarrow> os_rng m = os_rng m' \<and> (\<exists>script. busy_with (transport m) (transport m') script)"

definition same_fst :: "('m \<Rightarrow> 'n \<Rightarrow> bool) \<Rightarrow> 'a \<times> 'm \<Rightarrow> 'a \<times> 'n \<Rightarrow> bool" where
  "same_fst R st st' \<longleftrightarrow> fst st = fst st' \<and> R (snd st) (snd st')"

lemma word_bytes: "to_be_bytes (w :: 32 word) \<noteq> []"
  by (rule notI) (drule arg_cong [where f = length], simp)

text \<open>A relation on machines that the generator respects.\<close>

definition keeps_rng :: "(('t, 'g) machine \<Rightarrow> ('u, 'g) machine \<Rightarrow> bool) \<Rightarrow> bool" where
  "keeps_rng R \<longleftrightarrow> (\<forall>m m'. R m m' \<longrightarrow> os_rng m = os_rng m' \<and> (\<forall>g. R (m\<lparr>os_rng := g\<rparr>) (m'\<lparr>os_rng := g\<rparr>)))"

lemma sim_on_rng:
  assumes "keeps_rng R"
  shows "sim (same_fst R) (on_rng f) (on_rng f)"
  using assms by (auto simp: sim_def agree_def same_fst_def on_rng_def keeps_rng_def split: prod.splits)

lemma sim_on_fst: "sim (same_fst R) (on_fst f) (on_fst f)"
  by (auto simp: sim_def agree_def same_fst_def on_fst_def split: prod.splits)

lemma auth_area_same:
  assumes E: "crypto E1 = crypto E0" "feature_std E1 = feature_std E0" and K: "keeps_rng R" and R: "R m1 m0"
  shows "agree (same_fst R) (auth_area E1 code names params (auth, m1)) (auth_area E0 code names params (auth, m0))"
proof (cases auth)
  case (AuthSession s av)
  have n: "session_nonce E1 s = session_nonce E0 s" using E by (simp add: session_nonce_def fun_eq_iff)
  show ?thesis
    unfolding auth_area_def AuthSession fst_conv Auth.case n E(1)
    by (rule simD [where s = "(AuthSession s av, m1)" and t = "(AuthSession s av, m0)" and R = "same_fst R"])
      (intro sim_intros sim_on_rng [OF K] sim_on_fst, simp add: same_fst_def R)
qed (use R in \<open>simp_all add: auth_area_def agree_def same_fst_def Let_def split: prod.split\<close>)

lemma sim_build_frame:
  assumes E: "crypto E1 = crypto E0" "feature_std E1 = feature_std E0" and K: "keeps_rng R"
  shows "sim (same_fst R) (build_frame E1 code hs names params) (build_frame E0 code hs names params)"
  unfolding sim_def
proof (intro allI impI)
  fix s :: "Auth \<times> _" and t assume "same_fst R s t"
  then obtain auth m1 m0 where s: "s = (auth, m1)" "t = (auth, m0)" "R m1 m0"
    by (cases s; cases t) (auto simp: same_fst_def)
  let ?b = "fold marshal_Handle hs []"
  have area: "agree (same_fst R)
      (bindE (auth_area E1 code names params) (\<lambda>area. ret (marshal_prim (of_nat (length area) :: 32 word) ?b @ area)) (auth, m1))
      (bindE (auth_area E0 code names params) (\<lambda>area. ret (marshal_prim (of_nat (length area) :: 32 word) ?b @ area)) (auth, m0))"
    by (rule agree_bindE, rule auth_area_same [OF E K s(3)], rule gives_any, intro sim_intros)
  show "agree (same_fst R) (build_frame E1 code hs names params s) (build_frame E0 code hs names params t)"
    unfolding build_frame_def Let_def s fst_conv
  proof (rule agree_bindE [OF _ gives_any])
    show "agree (same_fst R)
      ((if uses_session_area auth then bindE (auth_area E1 code names params)
          (\<lambda>area. ret (marshal_prim (of_nat (length area) :: 32 word) ?b @ area)) else ret ?b) (auth, m1))
      ((if uses_session_area auth then bindE (auth_area E0 code names params)
          (\<lambda>area. ret (marshal_prim (of_nat (length area) :: 32 word) ?b @ area)) else ret ?b) (auth, m0))"
      using s(3) area by (simp add: ret_simp same_fst_def agree_def)
  qed (intro sim_intros)
qed

lemma build_frame_nonempty: "gives (build_frame E code hs names params) (\<lambda>f. f \<noteq> [])"
  unfolding gives_def
proof (intro allI impI)
  fix st f st' assume "build_frame E code hs names params st = (Ok f, st')"
  then show "f \<noteq> []"
    unfolding build_frame_def Let_def
    by (elim bindE_OkE) (auto simp: ret_simp marshal_prim_def word_bytes)
qed

lemma device_busy:
  assumes "frame \<noteq> []" "kt_tpm (dev_file t) = (q, script)"
  shows "device_transmit (kernel (busy_serve serve)) frame t = (case script of
      (w # ws) # rest \<Rightarrow> (Ok (error_reply w), t\<lparr>dev_file := (dev_file t)\<lparr>kt_tpm := (q, ws # rest), kt_pending := []\<rparr>\<rparr>)
    | _ \<Rightarrow> (case serve frame q of (r, q') \<Rightarrow>
        (if r = [] then Err (Transport ''empty TPM response'') else Ok (take 4096 r),
         t\<lparr>dev_file := (dev_file t)\<lparr>kt_tpm := (q', tl script), kt_pending := drop 4096 r\<rparr>\<rparr>)))"
  using device_transmit_kernel [OF assms(1), where t = t and answer = "busy_serve serve"] assms(2)
  by (auto simp: busy_serve_def error_reply_def word_bytes split: list.split prod.split)

definition behind_busy ::
  "('h, 'm, 'g, ('q \<times> 32 word list list) kernel_tpm DeviceTransport) ports \<Rightarrow>
   ('h, 'm, 'g, 'q kernel_tpm DeviceTransport) ports \<Rightarrow> (bytes \<Rightarrow> 'q \<Rightarrow> bytes \<times> 'q) \<Rightarrow> bool" where
  "behind_busy E1 E0 serve \<longleftrightarrow> transmit E1 = device_transmit (kernel (busy_serve serve)) \<and>
     transmit E0 = device_transmit (kernel serve) \<and> crypto E1 = crypto E0 \<and> feature_std E1 = feature_std E0 \<and>
     purecrypto_ok (crypto E0) \<and> quiet serve"

lemma quiet_warns:
  assumes P: "purecrypto_ok (crypto E)" and q: "quiet serve" and r: "serve f q = (r, q')"
  shows "\<not> warns E code names k auth (take 4096 r)"
proof
  assume "warns E code names k auth (take 4096 r)"
  then obtain rc where rc: "fst (parse_response (crypto E) code (take 4096 r) names k auth) = Err (Tpm rc)" "is_transient rc"
    by (auto simp: warns_def)
  from parse_Tpm_error [OF P rc(1)] have "response_code r = Some (rc_raw rc)"
    by (simp add: response_code_def take_drop min_def split: if_split_asm)
  then have "\<not> is_transient (TpmRc (rc_raw rc))" using q r by (metis quiet_def fst_conv)
  then show False using rc(2) by simp
qed

text \<open>The last round, answered by the TPM.\<close>

lemma busy_answer:
  assumes B: "behind_busy E1 E0 serve" and f: "frame \<noteq> []" and script: "script = [] \<or> hd script = []" "patient_script script"
    and m: "kt_tpm (dev_file (transport m1)) = (kt_tpm (dev_file (transport m0)), script)" "os_rng m1 = os_rng m0"
  shows "agree (same_fst busy_rel) (transmit_loop E1 code names k frame n (auth, m1))
    (transmit_loop E0 code names k frame n' (auth, m0))"
proof -
  let ?q = "kt_tpm (dev_file (transport m0))"
  obtain r q' where s: "serve frame ?q = (r, q')" by fastforce
  have P: "purecrypto_ok (crypto E0)" "crypto E1 = crypto E0" and q: "quiet serve" using B by (simp_all add: behind_busy_def)
  note quiet0 = quiet_warns [OF P(1) q s] and quiet1 = quiet_warns [OF P(1) [folded P(2)] q s]
  have rest: "patient_script (tl script)" using script(2) by (cases script) (simp_all add: patient_script_def)
  have t1: "transmit E1 frame (transport m1) = (if r = [] then Err (Transport ''empty TPM response'') else Ok (take 4096 r),
      (transport m1)\<lparr>dev_file := (dev_file (transport m1))\<lparr>kt_tpm := (q', tl script), kt_pending := drop 4096 r\<rparr>\<rparr>)"
    using B device_busy [OF f m(1)] script(1) s by (cases script) (auto simp: behind_busy_def split: list.split)
  have t0: "transmit E0 frame (transport m0) = (if r = [] then Err (Transport ''empty TPM response'') else Ok (take 4096 r),
      (transport m0)\<lparr>dev_file := (dev_file (transport m0))\<lparr>kt_tpm := q', kt_pending := drop 4096 r\<rparr>\<rparr>)"
    using B device_transmit_kernel [where answer = serve, OF f s] by (simp add: behind_busy_def)
  have "transmit_loop E1 code names k frame n (auth, m1) = round_trip E1 code names k frame (auth, m1)"
    using quiet1 by (intro loop_once) (auto simp: t1 split: if_splits)
  moreover have "transmit_loop E0 code names k frame n' (auth, m0) = round_trip E0 code names k frame (auth, m0)"
    using quiet0 by (intro loop_once) (auto simp: t0 split: if_splits)
  ultimately show ?thesis
    using m(2) rest
    by (auto simp: round_trip_eq t1 t0 P(2) agree_def same_fst_def busy_rel_def busy_with_def split: prod.split)
qed

lemma busy_loop:
  assumes B: "behind_busy E1 E0 serve" and f: "frame \<noteq> []" and rest: "patient_script rest"
  shows "length ws + n \<le> 12 \<Longrightarrow> \<forall>w \<in> set ws. w \<in> {0x908, 0x90A, 0x922} \<Longrightarrow>
    kt_tpm (dev_file (transport m1)) = (kt_tpm (dev_file (transport m0)), ws # rest) \<Longrightarrow> os_rng m1 = os_rng m0 \<Longrightarrow>
    agree (same_fst busy_rel) (transmit_loop E1 code names k frame n (auth, m1))
      (transmit_loop E0 code names k frame 0 (auth, m0))"
proof (induction ws arbitrary: n m1)
  case Nil
  then show ?case using rest by (intro busy_answer [OF B f]) (simp_all add: patient_script_def)
next
  case (Cons w ws)
  let ?t = "(transport m1)\<lparr>dev_file := (dev_file (transport m1))
    \<lparr>kt_tpm := (kt_tpm (dev_file (transport m0)), ws # rest), kt_pending := []\<rparr>\<rparr>"
  have P1: "purecrypto_ok (crypto E1)" using B by (simp add: behind_busy_def)
  have t: "transmit E1 frame (transport m1) = (Ok (error_reply w), ?t)"
    using B device_busy [OF f Cons.prems(3), of serve] by (simp add: behind_busy_def)
  have w: "w \<noteq> 0" "is_transient (TpmRc w)" using warnings Cons.prems(2) by simp_all
  have "warns E1 code names k auth (error_reply w)"
    using parse_error_reply [OF w(1), of "crypto E1" code st_NO_SESSIONS 10 "[]" names k auth] w(2)
    by (simp add: warns_def error_reply_def)
  from loop_again [OF P1 t this] Cons.prems(1)
  have "transmit_loop E1 code names k frame n (auth, m1) =
      transmit_loop E1 code names k frame (n + 1) (auth, backoff E1 (n + 1) (m1\<lparr>transport := ?t\<rparr>))"
    by (simp add: MAX_TRANSIENT_RETRIES_def)
  then show ?case using Cons.IH [of "n + 1" "backoff E1 (n + 1) (m1\<lparr>transport := ?t\<rparr>)"] Cons.prems by simp
qed

lemma keeps_rng_busy: "keeps_rng busy_rel"
  by (simp add: keeps_rng_def busy_rel_def)

lemma sim_run:
  assumes B: "behind_busy E1 E0 serve"
  shows "sim (same_fst busy_rel) (run E1 code hs names params k) (run E0 code hs names params k)"
  unfolding run_def
proof (rule sim_bindE_gives [OF _ build_frame_nonempty])
  show "sim (same_fst busy_rel) (build_frame E1 code hs names params) (build_frame E0 code hs names params)"
    using B by (intro sim_build_frame keeps_rng_busy) (simp_all add: behind_busy_def)
  fix frame :: bytes assume f: "frame \<noteq> []"
  show "sim (same_fst busy_rel) (transmit_loop E1 code names k frame 0) (transmit_loop E0 code names k frame 0)"
  proof (rule simI, goal_cases)
    case (1 s t)
    then obtain auth m1 m0 script where s: "s = (auth, m1)" "t = (auth, m0)" "os_rng m1 = os_rng m0"
      and m: "kt_tpm (dev_file (transport m1)) = (kt_tpm (dev_file (transport m0)), script)" "patient_script script"
      by (cases s; cases t) (auto simp: same_fst_def busy_rel_def busy_with_def)
    show ?case
    proof (cases script)
      case Nil
      then show ?thesis using busy_answer [OF B f _ m(2,1) s(3)] s(1,2) by simp
    next
      case (Cons ws rest)
      then have "patient_script rest" "length ws \<le> 12" "\<forall>w \<in> set ws. w \<in> {0x908, 0x90A, 0x922}"
        using m(2) by (simp_all add: patient_script_def)
      then show ?thesis using busy_loop [OF B f, of rest ws 0 m1 m0] m(1) s Cons by simp
    qed
  qed
qed

lemma sim_run_plain:
  assumes B: "behind_busy E1 E0 serve"
  shows "sim busy_rel (run_plain E1 code hs names params k) (run_plain E0 code hs names params k)"
proof (rule simI, goal_cases)
  case (1 m1 m0)
  then have "same_fst busy_rel (AuthNone, m1) (AuthNone, m0)" by (simp add: same_fst_def)
  from simD [OF sim_run [OF B] this, of code hs names params k] show ?case
    by (auto simp: run_plain_def agree_def same_fst_def split: prod.split)
qed

section \<open>The commands\<close>

text \<open>
  Every method sends at most one command and works on its result; the two machines are told apart
  by the dispatcher only.
\<close>

lemma sim_fill: "crypto E1 = crypto E0 \<Longrightarrow>
  sim busy_rel (\<lambda>m. case os_fill (crypto E1) (os_rng m) n of (b, g) \<Rightarrow> (Ok b, m\<lparr>os_rng := g\<rparr>))
    (\<lambda>m. case os_fill (crypto E0) (os_rng m) n of (b, g) \<Rightarrow> (Ok b, m\<lparr>os_rng := g\<rparr>))"
  by (rule simI) (auto simp: agree_def busy_rel_def split: prod.split)

lemma sim_plain_commands:
  assumes "behind_busy E1 E0 serve"
  shows "sim busy_rel (startup E1 ty) (startup E0 ty)"
    "sim busy_rel (shutdown E1 ty) (shutdown E0 ty)"
    "sim busy_rel (self_test E1 full) (self_test E0 full)"
    "sim busy_rel (get_random E1 n) (get_random E0 n)"
    "sim busy_rel (stir_random E1 data) (stir_random E0 data)"
    "sim busy_rel (get_capability E1 c p count) (get_capability E0 c p count)"
    "sim busy_rel (flush_context E1 h) (flush_context E0 h)"
    "sim busy_rel (pcr_read E1 sel) (pcr_read E0 sel)"
    "sim busy_rel (pcr_read_one E1 bank pcr) (pcr_read_one E0 bank pcr)"
  unfolding startup_def shutdown_def self_test_def get_random_def stir_random_def get_capability_def
    flush_context_def pcr_read_one_def pcr_read_def Let_def
  by (auto split: prod.split intro!: sim_intros sim_run_plain [OF assms])

lemma sim_sessions:
  assumes B: "behind_busy E1 E0 serve"
  shows "sim busy_rel (start_auth_session E1 alg nonce) (start_auth_session E0 alg nonce)"
    "sim busy_rel (start_hmac_session E1 alg) (start_hmac_session E0 alg)"
proof -
  have c: "crypto E1 = crypto E0" using B by (simp add: behind_busy_def)
  show s: "sim busy_rel (start_auth_session E1 alg nonce) (start_auth_session E0 alg nonce)" for nonce
    unfolding start_auth_session_def Let_def c
    by (auto split: prod.split intro!: sim_intros sim_run_plain [OF B])
  show "sim busy_rel (start_hmac_session E1 alg) (start_hmac_session E0 alg)"
    unfolding start_hmac_session_def by (intro sim_intros sim_fill [OF c] s)
qed

lemma sim_authorized_commands:
  assumes "behind_busy E1 E0 serve"
  shows "sim (same_fst busy_rel) (create_primary E1 h s pub) (create_primary E0 h s pub)"
    "sim (same_fst busy_rel) (create E1 h name s pub) (create E0 h name s pub)"
    "sim (same_fst busy_rel) (load E1 h name prv pb) (load E0 h name prv pb)"
    "sim (same_fst busy_rel) (unseal E1 h name) (unseal E0 h name)"
    "sim (same_fst busy_rel) (pcr_extend E1 pcr ds) (pcr_extend E0 pcr ds)"
  unfolding create_primary_def create_def load_def unseal_def pcr_extend_def Let_def
  by (intro sim_intros sim_run [OF assms])+

section \<open>The reference TPM is never busy\<close>

lemma firm_codes:
  "\<not> is_transient (TpmRc trc_INITIALIZE)" "\<not> is_transient (TpmRc trc_AUTH_MISSING)"
  "\<not> is_transient (TpmRc trc_COMMAND_SIZE)" "\<not> is_transient (TpmRc trc_COMMAND_CODE)"
  "\<not> is_transient (TpmRc trc_AUTH_FAIL)" "\<not> is_transient (TpmRc trc_HANDLE)"
  "\<not> is_transient (TpmRc trc_HASH)" "\<not> is_transient (TpmRc trc_SIZE)"
  "\<not> is_transient (TpmRc trc_INTEGRITY)" "\<not> is_transient (TpmRc trc_OBJECT_MEMORY)"
  "\<not> is_transient (TpmRc trc_SESSION_MEMORY)" "\<not> is_transient (TpmRc 0)"
  by (simp_all add: is_transient_def base_def is_format_one_def trc_INITIALIZE_def trc_AUTH_MISSING_def
      trc_COMMAND_SIZE_def trc_COMMAND_CODE_def trc_AUTH_FAIL_def trc_HANDLE_def trc_HASH_def trc_SIZE_def
      trc_INTEGRITY_def trc_OBJECT_MEMORY_def trc_SESSION_MEMORY_def)

lemma load_object_firm: "load_object name s q = Inl rc \<Longrightarrow> \<not> is_transient (TpmRc rc)"
  by (auto simp: load_object_def firm_codes split: option.splits)

lemma tpm_body_firm: "tpm_body P code hs name params q = Inl rc \<Longrightarrow> \<not> is_transient (TpmRc rc)"
proof -
  have "do_create_primary P params q = Inl rc \<Longrightarrow> \<not> is_transient (TpmRc rc)"
    by (auto simp: do_create_primary_def firm_codes load_object_firm split: option.splits if_splits sum.splits prod.splits)
  moreover have "do_create P name params q = Inl rc \<Longrightarrow> \<not> is_transient (TpmRc rc)"
    by (auto simp: do_create_def firm_codes split: option.splits if_splits prod.splits)
  moreover have "do_load P name params q = Inl rc \<Longrightarrow> \<not> is_transient (TpmRc rc)"
    by (auto simp: do_load_def firm_codes load_object_firm split: option.splits if_splits sum.splits prod.splits)
  moreover have "do_unseal (hs ! 0) q = Inl rc \<Longrightarrow> \<not> is_transient (TpmRc rc)"
    by (auto simp: do_unseal_def firm_codes split: option.splits)
  moreover have "do_start_auth_session P params q = Inl rc \<Longrightarrow> \<not> is_transient (TpmRc rc)"
    by (auto simp: do_start_auth_session_def firm_codes split: option.splits prod.splits)
  moreover have "do_flush_context params q = Inl rc \<Longrightarrow> \<not> is_transient (TpmRc rc)"
    by (auto simp: do_flush_context_def firm_codes split: option.splits if_splits)
  moreover have "do_get_random P params q = Inl rc \<Longrightarrow> \<not> is_transient (TpmRc rc)"
    by (auto simp: do_get_random_def firm_codes split: option.splits prod.splits)
  moreover have "do_get_capability params q = Inl rc \<Longrightarrow> \<not> is_transient (TpmRc rc)"
    by (auto simp: do_get_capability_def firm_codes split: option.splits)
  moreover have "do_pcr_read params q = Inl rc \<Longrightarrow> \<not> is_transient (TpmRc rc)"
    by (auto simp: do_pcr_read_def firm_codes split: option.splits)
  moreover have "do_pcr_extend P (hs ! 0) params q = Inl rc \<Longrightarrow> \<not> is_transient (TpmRc rc)"
    by (auto simp: do_pcr_extend_def firm_codes Let_def split: option.splits if_splits)
  ultimately show "tpm_body P code hs name params q = Inl rc \<Longrightarrow> \<not> is_transient (TpmRc rc)"
    by (auto simp: tpm_body_def do_nothing_def firm_codes split: if_splits)
qed

lemma error_reply_code: "response_code (error_reply rc) = Some rc"
  by (simp add: response_code_def error_reply_def)

lemma reply_code: "response_code (reply rhs p ar) = Some 0"
  by (simp add: response_code_def reply_def reply_header_def)

lemma tpm_serve_quiet: "quiet (tpm_serve P)"
proof -
  have "\<not> is_transient (TpmRc rc)" if "response_code (fst (tpm_execute P rq q)) = Some rc" for rq q rc
    using that by (auto simp: tpm_execute_def Let_def error_reply_code reply_code firm_codes dest: tpm_body_firm
        split: if_splits option.splits sum.splits prod.splits)
  then show ?thesis
    by (auto simp: quiet_def tpm_serve_def error_reply_code firm_codes split: outcome.splits if_splits)
qed

end
