(* ===== verification/Sample_Links.thy ===== *)
theory Sample_Links
  imports Samples Service Busy
begin

text \<open>
  Concrete values for the end-to-end witnesses: a TPM with one sealed object, two free object slots
  and a free session slot; the simulator's socket, which fragments and interrupts, and the kernel
  device in front of it.
\<close>

definition sample_tpm :: "byte tpm" where
  "sample_tpm = \<lparr>tpm_objects = [Some \<lparr>to_name = [0, 11, 1], to_auth = [5], to_data = [1, 2, 3]\<rparr>, None, None],
     tpm_sessions = [None], tpm_pcrs = replicate 24 (replicate 32 0), tpm_rng = 3\<rparr>"

lemma sample_tpm_wf: "tpm_wf sample_tpm"
  by (simp add: tpm_wf_def sample_tpm_def tpm_object_wf_def)

lemma sample_tpm_room:
  "spare (tpm_objects sample_tpm) = 2" "spare (tpm_sessions sample_tpm) = 1"
  by (simp_all add: sample_tpm_def spare_def)

definition sample_server :: "byte tpm sim_server" where
  "sample_server = \<lparr>tcp_in = [], tcp_out = [], tcp_script = [3, 0, 1], sv_tpm = sample_tpm\<rparr>"

definition sample_sim_ports :: "(bytes, bytes \<times> bytes, byte, byte tpm sim_server SimulatorTransport) ports" where
  "sample_sim_ports = \<lparr>crypto = sample_crypto, transmit = sim_transmit (simulator (tpm_serve sample_crypto)),
     feature_std = True\<rparr>"

definition sample_sim_machine :: "(byte tpm sim_server SimulatorTransport, byte) machine" where
  "sample_sim_machine = \<lparr>transport = \<lparr>sim_cmd = sample_server, sim_platform = None, sim_locality = 0\<rparr>,
     os_rng = 7, slept = []\<rparr>"

definition sample_dev_ports :: "(bytes, bytes \<times> bytes, byte, byte tpm kernel_tpm DeviceTransport) ports" where
  "sample_dev_ports = \<lparr>crypto = sample_crypto, transmit = device_transmit (kernel (tpm_serve sample_crypto)),
     feature_std = True\<rparr>"

definition sample_dev_machine :: "(byte tpm kernel_tpm DeviceTransport, byte) machine" where
  "sample_dev_machine = \<lparr>transport = \<lparr>dev_file = \<lparr>kt_tpm = sample_tpm, kt_pending = []\<rparr>\<rparr>, os_rng = 7, slept = []\<rparr>"

lemma sample_sim_simps [simp]:
  "crypto sample_sim_ports = sample_crypto" "feature_std sample_sim_ports"
  "transmit sample_sim_ports = sim_transmit (simulator (tpm_serve sample_crypto))"
  "sim_idle (transport sample_sim_machine)" "sv_tpm (sim_cmd (transport sample_sim_machine)) = sample_tpm"
  by (simp_all add: sample_sim_ports_def sample_sim_machine_def sim_idle_def sample_server_def)

lemma sample_dev_simps [simp]:
  "crypto sample_dev_ports = sample_crypto" "feature_std sample_dev_ports"
  "transmit sample_dev_ports = device_transmit (kernel (tpm_serve sample_crypto))"
  "kt_tpm (dev_file (transport sample_dev_machine)) = sample_tpm"
  by (simp_all add: sample_dev_ports_def sample_dev_machine_def)

text \<open>The sealed object in the vault.\<close>

lemma sample_vault: "vault_of sample_tpm (Handle 0x80000000) = Some ([0, 11, 1], [5], [1, 2, 3])"
  by (simp add: vault_of_def fixed_name_def in_slot_def first_transient_def sample_tpm_def tpm_consts)

text \<open>A network with the same server in front of a TPM that is not yet started.\<close>

definition sample_boot_ports :: "(bytes, bytes \<times> bytes, byte, (byte tpm \<times> bool) sim_server SimulatorTransport) ports" where
  "sample_boot_ports = \<lparr>crypto = sample_crypto, transmit = sim_transmit (simulator (boot_serve sample_crypto)),
     feature_std = True\<rparr>"

lemma sample_boot_simps [simp]:
  "crypto sample_boot_ports = sample_crypto" "feature_std sample_boot_ports"
  "transmit sample_boot_ports = sim_transmit (simulator (boot_serve sample_crypto))"
  by (simp_all add: sample_boot_ports_def)

definition sample_net :: "string \<Rightarrow> (unit, io_error, (byte tpm \<times> bool) sim_server) eff" where
  "sample_net addr = ret \<lparr>tcp_in = [], tcp_out = [], tcp_script = [3, 0, 1], sv_tpm = (sample_tpm, False)\<rparr>"

lemma sample_reaches: "reaches sample_net ''127.0.0.1:2321'' () sample_tpm False"
  by (simp add: reaches_def sample_net_def ret_simp)

lemma sample_unseals:
  "\<exists>m'. unseal sample_dev_ports (Handle 0x80000000) [0, 11, 1] (AuthPassword [5], sample_dev_machine) =
    (Ok [1, 2, 3], (AuthPassword [5], m'))"
proof -
  have wf: "tpm_wf (kt_tpm (dev_file (transport sample_dev_machine)))" by (simp add: sample_tpm_wf)
  have item: "\<not> fixed_name (Handle 0x80000000)"
    by (simp add: fixed_name_def tpm_consts)
  have pw: "fits_tpm2b [5]" by (simp add: fits_tpm2b_def)
  have name: "\<forall>y. vault_of (kt_tpm (dev_file (transport sample_dev_machine))) (Handle 0x80000000) = Some y \<longrightarrow>
      fst y = [0, 11, 1]"
    by (simp add: sample_vault)
  obtain m' where "unseal sample_dev_ports (Handle 0x80000000) [0, 11, 1] (AuthPassword [5], sample_dev_machine) =
      (vault_open (vault_of (kt_tpm (dev_file (transport sample_dev_machine)))) (Handle 0x80000000) [5], (AuthPassword [5], m'))"
    by (rule device_tpm.unseal_opens_vault [where E = sample_dev_ports and P = sample_crypto and
        m = sample_dev_machine and name = "[0, 11, 1]", OF _ _ sample_ok TrueI wf pw item name]) simp_all
  then show ?thesis by (simp add: vault_open_def sample_vault)
qed

text \<open>The device behind a driver whose TPM is busy twice before the first command.\<close>

definition sample_busy_ports ::
  "(bytes, bytes \<times> bytes, byte, (byte tpm \<times> 32 word list list) kernel_tpm DeviceTransport) ports" where
  "sample_busy_ports = \<lparr>crypto = sample_crypto, transmit = device_transmit (kernel (busy_serve (tpm_serve sample_crypto))),
     feature_std = True\<rparr>"

definition sample_busy_machine :: "((byte tpm \<times> 32 word list list) kernel_tpm DeviceTransport, byte) machine" where
  "sample_busy_machine = \<lparr>transport = \<lparr>dev_file = \<lparr>kt_tpm = (sample_tpm, [[0x922, 0x908]]), kt_pending = []\<rparr>\<rparr>,
     os_rng = 7, slept = []\<rparr>"

lemma sample_busy [simp]:
  "crypto sample_busy_ports = sample_crypto" "feature_std sample_busy_ports"
  "transmit sample_busy_ports = device_transmit (kernel (busy_serve (tpm_serve sample_crypto)))"
  "busy_rel sample_busy_machine sample_dev_machine"
  by (simp_all add: sample_busy_ports_def sample_busy_machine_def sample_dev_machine_def busy_rel_def busy_with_def
      patient_script_def)

lemma sample_pcrs: "tpm_pcrs sample_tpm = replicate 24 (replicate 32 0)"
  by (simp add: sample_tpm_def)

text \<open>A secret to keep.\<close>

definition sample_secret :: SensitiveCreate where
  "sample_secret = \<lparr>user_auth = Buffer [9], sens_data = Buffer [4, 2]\<rparr>"

lemma sample_secret_fits: "sensitive_fits (sealed_data_template Alg_SHA256) sample_secret"
  by (simp add: sensitive_fits_def sample_secret_def sealed_data_template_def sha256_code)

end
