(* ===== verification/Clients.thy ===== *)
theory Clients
  imports Commands
begin

text \<open>
  A caller that holds a session and issues any commands, in any order, against whatever the
  transport answers. The caller's state moves by the relation \<open>client_step\<close>; its session moves
  along the automaton of \<open>Sessions\<close>, and takes over only nonces that come with an HMAC under its key.
\<close>

section \<open>What a computation may do to its state\<close>

definition moves :: "('s \<Rightarrow> 's \<Rightarrow> bool) \<Rightarrow> ('s, 'e, 'a) eff \<Rightarrow> bool" where
  "moves R f \<longleftrightarrow> (\<forall>s. R s (snd (f s)))"

named_theorems moves_intros \<open>the constructs of the code under a preorder of states\<close>

lemma movesD: "moves R f \<Longrightarrow> f s = (x, s') \<Longrightarrow> R s s'"
  by (metis moves_def snd_conv)

lemma movesI: "(\<And>s x s'. f s = (x, s') \<Longrightarrow> R s s') \<Longrightarrow> moves R f"
  by (simp add: moves_def) (metis prod.collapse)

lemma moves_bindE [moves_intros]:
  assumes "transp R" "moves R f" "\<And>a. moves R (g a)"
  shows "moves R (bindE f g)"
proof (rule movesI)
  fix s x s' assume e: "bindE f g s = (x, s')"
  obtain y s1 where f: "f s = (y, s1)" by fastforce
  have 1: "R s s1" by (rule movesD [OF assms(2) f])
  show "R s s'"
  proof (cases y)
    case (Ok a)
    then have "g a s1 = (x, s')" using e f by (simp add: bindE_def)
    then have "R s1 s'" by (rule movesD [OF assms(3)])
    with 1 show ?thesis by (rule transpD [OF assms(1)])
  qed (use e f 1 in \<open>auto simp: bindE_def\<close>)
qed

lemma moves_still [moves_intros]:
  assumes "reflp R"
  shows "moves R (ret a)" "moves R (raise e)" "moves R (lift_outcome x)" "moves R (unmarshal_params p bs)"
  using assms by (simp_all add: moves_def ret_simp raise_simp lift_outcome_simp unmarshal_params_def reflpD)

section \<open>How an authorization evolves\<close>

text \<open>
  The entry of a response carries the HMAC under the session's key over some response to a command,
  with the nonce the caller sent last.
\<close>

definition signed :: "('h, 'm, 'g) purecrypto \<Rightarrow> bytes \<Rightarrow> Session \<Rightarrow> AuthResponse \<Rightarrow> bool" where
  "signed P av s ar \<longleftrightarrow> (\<exists>d code name params. hash_fn_of (sess_hash_alg s) = Some d \<and>
     ar_hmac ar = response_mac P d (hmac_key s av name)
       (digest_of P d (to_be_bytes (0 :: 32 word) @ to_be_bytes (code :: 32 word) @ params))
       (ar_nonce_tpm ar) (nonce_caller s) (ar_attributes ar))"

definition after_event :: "Session \<Rightarrow> session_event \<Rightarrow> Session" where
  "after_event s e = s\<lparr>nonce_tpm := tpm_nonce_after (nonce_tpm s) e, nonce_caller := caller_nonce_after (nonce_caller s) e\<rparr>"

text \<open>A history in which every accepted response is signed in the state it met.\<close>

fun authentic :: "('h, 'm, 'g) purecrypto \<Rightarrow> bytes \<Rightarrow> Session \<Rightarrow> session_event list \<Rightarrow> bool" where
  "authentic P av s [] = True"
| "authentic P av s (e # es) \<longleftrightarrow> (case e of Accepted ar \<Rightarrow> signed P av s ar | _ \<Rightarrow> True) \<and> authentic P av (after_event s e) es"

definition follows :: "('h, 'm, 'g) purecrypto \<Rightarrow> bytes \<Rightarrow> Session \<Rightarrow> session_event list \<Rightarrow> Session \<Rightarrow> bool" where
  "follows P av s es s' \<longleftrightarrow> session_run P s es s' \<and> authentic P av s es"

fun evolves :: "('h, 'm, 'g) purecrypto \<Rightarrow> Auth \<Rightarrow> Auth \<Rightarrow> bool" where
  "evolves P (AuthSession s av) auth' \<longleftrightarrow> (\<exists>s' es. auth' = AuthSession s' av \<and> follows P av s es s')"
| "evolves P auth auth' \<longleftrightarrow> auth' = auth"

lemma session_run_append:
  "session_run P s' fs s'' \<Longrightarrow> session_run P s es s' \<Longrightarrow> session_run P s (es @ fs) s''"
  by (induction rule: session_run.induct) (auto simp flip: append_assoc intro: run_snoc)

lemma session_run_after: "purecrypto_ok P \<Longrightarrow> session_run P s es s' \<Longrightarrow> s' = foldl after_event s es"
  by (rotate_tac, induction rule: session_run.induct) (auto simp: after_event_def dest: session_step_nonces)

lemma authentic_append: "authentic P av s (es @ fs) \<longleftrightarrow> authentic P av s es \<and> authentic P av (foldl after_event s es) fs"
  by (induction es arbitrary: s) simp_all

lemma follows_trans:
  "purecrypto_ok P \<Longrightarrow> follows P av s es s' \<Longrightarrow> follows P av s' fs s'' \<Longrightarrow> follows P av s (es @ fs) s''"
  using session_run_append [of P s' fs s'' s es] session_run_after [of P s es s']
  by (simp add: follows_def authentic_append)

lemma follows_refl: "follows P av s [] s"
  by (simp add: follows_def run_nil)

lemma follows_step: "session_step P s e s' \<Longrightarrow> (\<And>ar. e = Accepted ar \<Longrightarrow> signed P av s ar) \<Longrightarrow> follows P av s [e] s'"
  using run_snoc [OF run_nil] by (fastforce simp: follows_def split: session_event.split)

lemma evolves_refl: "reflp (evolves P)"
proof (rule reflpI)
  show "evolves P auth auth" for auth by (cases auth) (auto intro: follows_refl)
qed

lemma evolves_trans: "purecrypto_ok P \<Longrightarrow> transp (evolves P)"
proof (rule transpI)
  fix a b c assume P: "purecrypto_ok P" and "evolves P a b" "evolves P b c"
  then show "evolves P a c" by (cases a) (fastforce intro: follows_trans [OF P])+
qed

text \<open>On the whole state only the authorization is looked at.\<close>

definition client_moves :: "('h, 'm, 'g) purecrypto \<Rightarrow> Auth \<times> 'x \<Rightarrow> Auth \<times> 'x \<Rightarrow> bool" where
  "client_moves P st st' \<longleftrightarrow> evolves P (fst st) (fst st')"

lemma client_preorder: "reflp (client_moves P)" "purecrypto_ok P \<Longrightarrow> transp (client_moves P)"
  using evolves_refl [of P] evolves_trans [of P]
  by (auto simp: client_moves_def intro!: reflpI transpI dest: reflpD transpD)

lemma client_same: "fst st' = fst st \<Longrightarrow> client_moves P st st'"
  using evolves_refl [of P] by (simp add: client_moves_def reflpD)

section \<open>The dispatcher\<close>

lemma authorize_evolves:
  assumes P: "purecrypto_ok (crypto E)"
  shows "client_moves (crypto E) st (snd (authorize E code names params st))"
proof (cases st)
  case (Pair auth m)
  show ?thesis
  proof (cases auth)
    case (AuthSession s av)
    show ?thesis
    proof (cases "hash_fn_of (sess_hash_alg s)")
      case (Some d)
      obtain nonce g where f: "os_fill (crypto E) (os_rng m) (hash_len d) = (nonce, g)" by fastforce
      obtain ac where "command_auth (crypto E) [] av [] nonce s = (Ok ac, s\<lparr>nonce_caller := nonce\<rparr>)"
        using command_auth_eq [OF P, of "[]" av "[]" nonce s] Some by simp
      then have "follows (crypto E) av s [Sent [] ac] (s\<lparr>nonce_caller := nonce\<rparr>)"
        by (intro follows_step session_step.send) simp_all
      then show ?thesis
        using AuthSession Pair Some f by (auto simp: client_moves_def intro: follows_refl)
    qed (simp add: AuthSession Pair client_same)
  qed (simp_all add: Pair client_same)
qed

lemma frame_evolves:
  assumes P: "purecrypto_ok (crypto E)"
  shows "moves (client_moves (crypto E)) (build_frame E code hs names params)"
proof (rule movesI)
  fix st x st' assume b: "build_frame E code hs names params st = (x, st')"
  note pre = client_preorder(1) [of "crypto E"] client_preorder(2) [OF P]
  let ?R = "client_moves (crypto E)"
  have area: "?R st (snd (auth_area E code names params st))" if "uses_session_area (fst st)"
    using auth_area_eq [OF P, of "fst st" code names params "snd st"] that
      authorize_evolves [OF P, of st code names params]
    by (auto split: prod.splits outcome.splits option.splits)
  let ?head = "(if uses_session_area (fst st) then bindE (auth_area E code names params) (\<lambda>area.
      ret (marshal_prim (of_nat (length area) :: 32 word) (fold marshal_Handle hs []) @ area))
    else ret (fold marshal_Handle hs []))"
  have "?R st (snd (?head st))"
    using area client_same [of st st] by (auto simp: bindE_def ret_simp split: prod.splits outcome.splits)
  moreover have "snd (build_frame E code hs names params st) = snd (?head st)"
    by (simp add: build_frame_def Let_def bindE_def ret_simp lift_outcome_simp split: prod.splits outcome.splits)
  ultimately show "?R st st'" using b by simp
qed

lemma checked_evolves:
  assumes P: "purecrypto_ok P"
  shows "evolves P auth (snd (checked P code names (hs, p, ar) auth))"
proof (cases auth)
  case (AuthSession s av)
  show ?thesis
  proof (cases ar)
    case (Some a)
    show ?thesis
    proof (cases "hash_fn_of (sess_hash_alg s)")
      case d: (Some d)
      let ?rp = "digest_of P d (to_be_bytes (0 :: 32 word) @ to_be_bytes code @ p)"
      have v: "verify_response P ?rp av (first_name names) a s =
          (if ar_hmac a = expected_mac P d s av code names p a
           then (Ok (), s\<lparr>nonce_tpm := ar_nonce_tpm a\<rparr>) else (Err hmac_mismatch, s))"
        by (simp add: verify_response_eq [OF P] d expected_mac_def)
      have "follows P av s [Accepted a] (s\<lparr>nonce_tpm := ar_nonce_tpm a\<rparr>)"
        if "ar_hmac a = expected_mac P d s av code names p a"
        using that v d by (intro follows_step session_step.accept [of P ?rp av "first_name names"])
          (auto simp: signed_def expected_mac_def)
      then show ?thesis
        by (auto simp: AuthSession Some checked_eq [OF P] check_response_auth_eq [OF P] d intro: follows_refl)
    qed (auto simp: AuthSession Some checked_eq [OF P] check_response_auth_eq [OF P] intro: follows_refl)
  qed (auto simp: AuthSession checked_eq [OF P] intro: follows_refl)
qed (auto simp: checked_eq [OF P] check_response_auth_eq [OF P] split: option.split)

lemma parse_evolves:
  assumes P: "purecrypto_ok P"
  shows "evolves P auth (snd (parse_response P code resp names k auth))"
  using checked_evolves [OF P] reflpD [OF evolves_refl, of P auth]
  by (auto simp: parse_response_eq split: outcome.split)

lemma loop_evolves:
  assumes P: "purecrypto_ok (crypto E)"
  shows "client_moves (crypto E) st (snd (transmit_loop E code names k frame n st))"
proof (induction "MAX_TRANSIENT_RETRIES - n" arbitrary: n st rule: less_induct)
  case less
  let ?R = "client_moves (crypto E)"
  obtain auth m where st: "st = (auth, m)" by (cases st)
  obtain x t where t: "transmit E frame (transport m) = (x, t)" by fastforce
  show ?case
  proof (cases x)
    case (Ok resp)
    obtain y auth' where p: "parse_response (crypto E) code resp names k auth = (y, auth')" by fastforce
    have 1: "?R st (auth', m\<lparr>transport := t\<rparr>)"
      using parse_evolves [OF P, of auth code resp names k] p by (simp add: client_moves_def st)
    show ?thesis
    proof (cases "\<exists>rc. y = Err (Tpm rc) \<and> is_transient rc \<and> n < MAX_TRANSIENT_RETRIES")
      case True
      let ?st = "(auth', backoff E (n + 1) (m\<lparr>transport := t\<rparr>))"
      have e: "transmit_loop E code names k frame n st = transmit_loop E code names k frame (n + 1) ?st"
        using True by (subst transmit_loop.simps) (auto simp: st on_transport_def t Ok on_fst_def p)
      have "?R ?st (snd (transmit_loop E code names k frame (n + 1) ?st))"
        using True by (intro less) auto
      then show ?thesis using 1 unfolding e by (auto simp: client_moves_def dest: transpD [OF evolves_trans [OF P]])
    next
      case False
      then have "snd (transmit_loop E code names k frame n st) = (auth', m\<lparr>transport := t\<rparr>)"
        by (subst transmit_loop.simps)
          (auto simp: st on_transport_def t Ok on_fst_def p split: outcome.split Error.split)
      then show ?thesis using 1 by simp
    qed
  qed (subst transmit_loop.simps, simp add: st on_transport_def t client_same)+
qed

lemma run_evolves:
  assumes P: "purecrypto_ok (crypto E)"
  shows "moves (client_moves (crypto E)) (run E code hs names params k)"
  unfolding run_def
  by (rule moves_bindE [OF client_preorder(2) [OF P] frame_evolves [OF P]]) (simp add: moves_def loop_evolves [OF P])

section \<open>Any caller\<close>

text \<open>One call of a command method: the authorized ones take the authorization, the others leave it.\<close>

inductive client_step ::
  "('h, 'm, 'g, 't) ports \<Rightarrow> Auth \<times> ('t, 'g) machine \<Rightarrow> Auth \<times> ('t, 'g) machine \<Rightarrow> bool" for E where
  call_create_primary: "create_primary E h s pub st = (x, st') \<Longrightarrow> client_step E st st'"
| call_create: "create E h name s pub st = (x, st') \<Longrightarrow> client_step E st st'"
| call_load: "load E h name prv pb st = (x, st') \<Longrightarrow> client_step E st st'"
| call_unseal: "unseal E h name st = (x, st') \<Longrightarrow> client_step E st st'"
| call_pcr_extend: "pcr_extend E pcr ds st = (x, st') \<Longrightarrow> client_step E st st'"
| call_startup: "startup E ty m = (x, m') \<Longrightarrow> client_step E (auth, m) (auth, m')"
| call_shutdown: "shutdown E ty m = (x, m') \<Longrightarrow> client_step E (auth, m) (auth, m')"
| call_self_test: "self_test E full m = (x, m') \<Longrightarrow> client_step E (auth, m) (auth, m')"
| call_get_random: "get_random E n m = (x, m') \<Longrightarrow> client_step E (auth, m) (auth, m')"
| call_stir_random: "stir_random E data m = (x, m') \<Longrightarrow> client_step E (auth, m) (auth, m')"
| call_get_capability: "get_capability E c prop count m = (x, m') \<Longrightarrow> client_step E (auth, m) (auth, m')"
| call_start_auth_session: "start_auth_session E alg nonce m = (x, m') \<Longrightarrow> client_step E (auth, m) (auth, m')"
| call_start_hmac_session: "start_hmac_session E alg m = (x, m') \<Longrightarrow> client_step E (auth, m) (auth, m')"
| call_flush_context: "flush_context E h m = (x, m') \<Longrightarrow> client_step E (auth, m) (auth, m')"
| call_pcr_read: "pcr_read E sel m = (x, m') \<Longrightarrow> client_step E (auth, m) (auth, m')"
| call_pcr_read_one: "pcr_read_one E bank i m = (x, m') \<Longrightarrow> client_step E (auth, m) (auth, m')"

lemma authorized_evolve:
  assumes P: "purecrypto_ok (crypto E)"
  shows "moves (client_moves (crypto E)) (create_primary E h s pub)"
    "moves (client_moves (crypto E)) (create E h name s pub)"
    "moves (client_moves (crypto E)) (load E h name prv pb)"
    "moves (client_moves (crypto E)) (unseal E h name)"
    "moves (client_moves (crypto E)) (pcr_extend E pcr ds)"
  unfolding create_primary_def create_def load_def unseal_def pcr_extend_def Let_def
  by (intro moves_intros run_evolves [OF P] client_preorder P)+

lemma client_step_evolves:
  assumes P: "purecrypto_ok (crypto E)"
  shows "client_step E st st' \<Longrightarrow> client_moves (crypto E) st st'"
  by (induction rule: client_step.induct)
    (auto intro: authorized_evolve [OF P, THEN movesD] client_same)

lemma client_run_evolves:
  assumes P: "purecrypto_ok (crypto E)"
  shows "(client_step E)\<^sup>*\<^sup>* st st' \<Longrightarrow> client_moves (crypto E) st st'"
proof (induction rule: rtranclp_induct)
  case (step st1 st2)
  show ?case
    by (rule transpD [OF client_preorder(2) [OF P] step.IH]) (rule client_step_evolves [OF P step.hyps(2)])
qed (simp add: client_same)

lemma session_kept:
  assumes P: "purecrypto_ok (crypto E)" and steps: "(client_step E)\<^sup>*\<^sup>* (AuthSession s av, m) (auth', m')"
  obtains s' es where "auth' = AuthSession s' av" "session_run (crypto E) s es s'" "authentic (crypto E) av s es"
    "s' = foldl after_event s es"
proof -
  from client_run_evolves [OF P steps] obtain s' es where 1: "auth' = AuthSession s' av"
    "session_run (crypto E) s es s'" "authentic (crypto E) av s es"
    by (auto simp: client_moves_def follows_def)
  show thesis by (rule that [OF 1 session_run_after [OF P 1(2)]])
qed

end
