(* ===== verification/Spec2Isabelle.thy ===== *)
theory Spec2Isabelle
  imports Sample_Links Result_Types Clients
begin

text \<open>
  A verification library for \<open>purecrypto-tpm\<close>, a TPM 2.0 stack in Rust: the crate under \<open>src/src/\<close>
  that marshals TPM commands, authorizes them with passwords or HMAC sessions, moves them over a
  transport, and parses and authenticates the responses.

  \<^bold>\<open>The program and its model.\<close> A command method (\<open>commands/*.rs\<close>) lays out a parameter area and calls
  the dispatcher \<open>Tpm::run\<close> (\<open>tpm.rs\<close>). The dispatcher builds a frame, with an authorization area
  computed by the session (\<open>session.rs\<close>, over the hash layer of \<open>crypto.rs\<close>) when there is one,
  transmits it over a \<open>Transport\<close> (\<open>transport/*.rs\<close>), resubmits on transient warnings, and parses the
  response with the reader of \<open>marshal.rs\<close>, checking the response HMAC. The theories follow that
  layering:

    \<^item> \<open>Prelude\<close>: bytes; the outcome of a Rust computation (\<open>Ok\<close>, \<open>Err\<close>, \<open>Panic\<close>, \<open>Loop\<close>) and its
      sequencing with a threaded state; big-endian integers; slices; number formatting.
    \<^item> \<open>Errors\<close> (\<open>error.rs\<close>): the response code with its format-zero and format-one layers, the
      error type, and their texts.
    \<^item> \<open>Marshalling\<close> (\<open>marshal.rs\<close>): the reader, the integer instances, the \<open>TPM2B\<close>. The locale
      \<open>codec\<close> states what a type's \<open>Marshal\<close> and \<open>Unmarshal\<close> owe each other, \<open>canonical_codec\<close> that
      nothing but encodings is accepted; both are interpreted on the integers here and on every
      type with both traits in the theories below.
    \<^item> \<open>Constants\<close>, \<open>Attributes\<close>, \<open>Handles\<close>, \<open>Structures\<close> (\<open>types/*.rs\<close>): code points, attribute
      bit sets (locale \<open>bit_set\<close>), handles, buffers, templates and PCR selections. \<open>Public_Area\<close>
      holds decoders of the receiving side for the structures the crate only marshals.
    \<^item> \<open>Crypto\<close> (\<open>crypto.rs\<close>): the dispatch on the hash (locale \<open>message_digest\<close>), KDFa, AES-CFB. The
      primitives belong to the crate \<open>purecrypto\<close>, which is not in the repository: they are the
      record \<open>purecrypto\<close>, an argument of the model, and \<open>purecrypto_ok\<close> says what is relied on.
    \<^item> \<open>Sessions\<close> (\<open>session.rs\<close>): key derivation, command and response HMACs, and the life of a session
      as the step relation \<open>session_step\<close> with its runs.
    \<^item> \<open>Dispatcher\<close> (\<open>tpm.rs\<close>): the state of a run is the pair of the caller's authorization and the
      machine, that is the \<open>Tpm\<close> with its transport, the operating system's generator, and the waits
      of the backoff. \<open>Responses\<close>, \<open>Requests\<close> and \<open>Resubmission\<close> prove what the parser accepts, what
      goes on the wire, and how the loop behaves. The locale \<open>transport_link\<close> is the contract of a
      \<open>Transport\<close> that returns.
    \<^item> \<open>Commands\<close> (\<open>commands/*.rs\<close>): the sixteen command methods and their results.
    \<^item> \<open>Transports\<close> (\<open>transport/*.rs\<close>): the device and the simulator over the \<open>write\<close>, \<open>flush\<close> and
      \<open>read\<close> of the standard library, with \<open>write_all\<close> and \<open>read_exact\<close> as loops. The locales
      \<open>patient_io\<close>, \<open>byte_channel\<close> and \<open>byte_stream\<close> are the contracts of a file and of a socket; each
      gives \<open>transport_link\<close>. They are interpreted on a kernel device with any TPM behind it and on a socket
      that fragments and interrupts by any finite script.
    \<^item> \<open>Clients\<close>: a caller of any commands as the step relation \<open>client_step\<close>, and what its sessions
      go through.
    \<^item> \<open>Replies\<close> and \<open>Result_Types\<close>: each command method against a reply laid out as the TPM library
      specification has it, and what the types of the results promise whatever the reply.
    \<^item> \<open>Unit_Tests\<close>, \<open>Integration_Tests\<close> (the \<open>#[test]\<close> functions of \<open>marshal.rs\<close>, \<open>crypto.rs\<close> and
      \<open>session.rs\<close>, and \<open>tests/simulator.rs\<close>): the tests as computations, a failed assertion a panic.
    \<^item> \<open>Samples\<close>, \<open>Sample_Links\<close>: concrete values for the witnesses of this theory.

  \<^bold>\<open>The other side of the wire.\<close> A TPM is not part of the repository; every theorem about the crate
  takes it as an argument. For the end-to-end theorems \<open>Reference_TPM\<close> defines one, executable, out of
  the library specification: object and session slots, authorization by password or session HMAC,
  the commands of a sealing round, sessions, PCRs and their extension, random bytes and one capability. It decodes
  requests with the receiving-side decoders of \<open>Requests\<close> and \<open>Public_Area\<close> and computes names,
  authorizations and response HMACs by itself. Encryption of private blobs and their integrity are
  left out of it: a blob carries its contents and the Name of its parent. \<open>Sealing\<close> states the contract of a link to a TPM as the
  locale \<open>tpm_link\<close> and proves in \<open>reference_link\<close> that each authorized command is accepted and its
  response passes the crate's check; \<open>Serving\<close> adds the commands without authorization and the
  refusals. \<open>Booting\<close> puts a TPM in front that refuses everything until it is started
  (locale \<open>boot_link\<close>), \<open>Busy\<close> one that answers warnings first, with a simulation between the two machines
  rule by rule of the code's constructs. \<open>Links\<close> interprets \<open>tpm_link\<close> and \<open>reference_link\<close> on the device with the kernel driver and on the
  simulator's socket with a server that speaks its framing. \<open>Vault\<close> is the abstraction: the TPM as
  a map from handles to a Name, an authorization value and data, with \<open>unseal\<close> as its lookup.
  \<open>Service\<close> puts the PCRs and the free slots beside it and has the commands of a caller, in any order,
  answered by that machine (step relation \<open>serves\<close>).

  \<^bold>\<open>What the properties show.\<close> The frame of every command decodes to what the caller asked for (C1);
  under an HMAC session an accepted response with the session tag is authentic for this very
  command (C2); the response parser is total and complete (C3, C4) and the resubmission loop is
  bounded and sends identical frames (C5). Against the reference TPM, any list of requests to open,
  keep or discard secrets and to extend or measure PCRs is served as a machine on a vault serves it
  (C6): unsealing refines the vault's lookup (C7), a sealed secret opens for its value only (C8), a session
  stays in step over any number of commands (C9), and the tests of the repository pass (C10, C11); results
  are well-formed whatever the TPM answers (C12). A TPM that is busy for up to twelve rounds per command
  goes unnoticed (C13), and PCRs read back as they were extended (C14). What the check of a response
  gives and does not give: without the session tag nothing is checked (C15), with it a replayed response
  is refused (C16), and whatever is answered, to any commands in any order, a session keeps to its
  automaton (C17). Every command returns over both transports, without a panic (C18, C19); C20 says where
  the size field of a frame ends. KDFa and session keys follow their specification (C21, C22); nonces
  roll, HMACs are computed and checked as specified (C23 to C25); encodings round-trip and are canonical,
  parsers are bounded (C26 to C30); commands return what the TPM answered (C31 to C34); the simulator's
  replies are read as a whole, however they are fragmented (C35), as are the answers to its platform
  signals (C36), and the device's responses follow its protocol (C37); response codes, hash agility and
  TPM errors close the list (C38 to C40).

  \<^bold>\<open>Bounds and loops.\<close> No fuel is used. The resubmission loop terminates by the measure 12 minus the
  attempt; KDFa, \<open>write_all\<close> and \<open>read_exact\<close> are partial functions whose termination is proved (for
  KDFa because a digest is never empty, for the others because a patient stream is interrupted
  finitely often). \<open>request_fits\<close> bounds a request so that the size field holds it with the largest
  authorization, a password of 65535 bytes; beyond it the code's checked addition may panic (C20).
  Arithmetic overflow is the panic of a build with overflow checks, \<open>as\<close> casts wrap.

  \<^bold>\<open>Not modelled.\<close> The crate \<open>purecrypto\<close> and the operating system (parameters), \<open>Clone\<close>, \<open>PartialEq\<close> and
  the other derived traits, the module declarations and re-exports of \<open>lib.rs\<close> and \<open>types/mod.rs\<close>,
  capacity hints of vectors, and the lock that serializes the integration tests. The accessors
  \<open>raw\<close>, \<open>as_slice\<close> and \<open>into_vec\<close> and the \<open>From\<close> conversions are the selectors and constructors of the
  data types.
\<close>

section \<open>The request frame\<close>

text \<open>
  C1. The frame of a run decodes back: whenever building it succeeds, a decoder of TPM commands
  finds the tag of the authorization, the size of the whole frame in the size field, the command
  code, the handles, the authorization entry the caller's authorization calls for, and the
  parameters.
\<close>

theorem request_frame_decodes:
  assumes "purecrypto_ok (crypto E)" and "request_fits hs params"
    and "build_frame E code hs names params (auth, m) = (Ok frame, st)"
  shows "\<exists>ac. authorize E code names params (auth, m) = (Ok ac, st) \<and>
    fst (parse_request (length hs) (Reader_new frame)) = Ok
      \<lparr>rq_tag = (if uses_session_area auth then st_SESSIONS else st_NO_SESSIONS),
       rq_size = of_nat (length frame), rq_code = code, rq_handles = hs, rq_auth = ac,
       rq_params = params\<rparr> \<and>
    unat (of_nat (length frame) :: 32 word) = length frame"
proof -
  obtain ac where a: "authorize E code names params (auth, m) = (Ok ac, st)"
    and frame: "frame = request code hs ac params"
    using assms by (auto simp: build_frame_eq split: prod.splits outcome.splits)
  have wf: "\<forall>x. ac = Some x \<longrightarrow> AuthCommand_wf x \<and> length (wire_auth_command x) \<le> 65544"
    using authorize_wf [OF assms(1)] a by blast
  have len: "length (request code hs ac params) < 2 ^ 32"
    using wf by (intro request_room [OF assms(2)]) simp
  have "uses_session_area auth \<longleftrightarrow> ac \<noteq> None"
    using a by (cases auth) (auto split: if_splits option.splits prod.splits)
  then show ?thesis
    using parse_request_reads [OF len] wf a frame unat_of_nat_u32 [OF len] by simp
qed

lemma request_frame_decodes_witness:
  "\<exists>ac. authorize sample_ports cc_UNSEAL [[1]] [] (AuthPassword [7, 8], sample_machine []) =
      (Ok ac, (AuthPassword [7, 8], sample_machine [])) \<and>
    fst (parse_request 1 (Reader_new (request cc_UNSEAL [Handle 0x80000001]
      (Some (password_entry [7, 8])) []))) = Ok
      \<lparr>rq_tag = st_SESSIONS,
       rq_size = of_nat (length (request cc_UNSEAL [Handle 0x80000001] (Some (password_entry [7, 8])) [])),
       rq_code = cc_UNSEAL, rq_handles = [Handle 0x80000001], rq_auth = ac, rq_params = []\<rparr>"
  using request_frame_decodes [of sample_ports "[Handle 0x80000001]" "[]" cc_UNSEAL "[[1]]"
      "AuthPassword [7, 8]" "sample_machine []"
      "request cc_UNSEAL [Handle 0x80000001] (Some (password_entry [7, 8])) []"
      "(AuthPassword [7, 8], sample_machine [])"]
  by (simp add: sample_ok request_fits_def build_frame_eq fits_tpm2b_def)

section \<open>The response\<close>



text \<open>
  C3. The response parser is total: on any bytes whatever, with any authorization, it returns a
  value or an error without panicking, and on an error the authorization (the nonces of the
  session included) is what it was.
\<close>

theorem response_parser_total:
  assumes "purecrypto_ok P"
  shows "\<exists>x. fst (parse_response P code resp names k auth) = x \<and>
    (case x of Ok rr \<Rightarrow> length (rr_handles rr) = k
     | Err e \<Rightarrow> snd (parse_response P code resp names k auth) = auth
     | Panic \<Rightarrow> False | Loop \<Rightarrow> False)"
proof -
  obtain x auth' where r: "parse_response P code resp names k auth = (x, auth')"
    by (cases "parse_response P code resp names k auth")
  have "returns x" using parse_returns [OF assms, of code resp names k auth] r by simp
  then show ?thesis
  proof (cases x)
    case (Ok rr)
    with r have "length (rr_handles rr) = k" by (metis parse_Ok [OF assms])
    then show ?thesis using r Ok by simp
  next
    case (Err e)
    then show ?thesis using r parse_error_frame [OF assms] by auto
  qed simp_all
qed

lemma response_parser_total_witness:
  "\<exists>x. fst (parse_response sample_crypto cc_UNSEAL [0x80, 0x01] [] 1 AuthNone) = x \<and>
    (case x of Ok rr \<Rightarrow> length (rr_handles rr) = 1
     | Err e \<Rightarrow> snd (parse_response sample_crypto cc_UNSEAL [0x80, 0x01] [] 1 AuthNone) = AuthNone
     | Panic \<Rightarrow> False | Loop \<Rightarrow> False)"
  by (rule response_parser_total [OF sample_ok])

text \<open>
  C4. Every reply of a TPM decodes: for any handles, parameters and authorization entry that fit
  their fields, the parser returns exactly the handles and parameters; an HMAC session accepts
  exactly the entry with the expected HMAC, and takes over its nonce; the other authorizations do
  not look at the entry.
\<close>

theorem reply_is_parsed:
  assumes "purecrypto_ok P" and "reply_wf hs p (Some ar)"
  shows "parse_response P code (reply hs p (Some ar)) names (length hs) auth = (case auth of
      AuthSession s av \<Rightarrow> (case hash_fn_of (sess_hash_alg s) of
          None \<Rightarrow> (Err (Usage ''unsupported hash algorithm''), auth)
        | Some d \<Rightarrow>
            if ar_hmac ar = response_mac P d (hmac_key s av (first_name names))
                (digest_of P d (to_be_bytes (0 :: 32 word) @ to_be_bytes code @ p))
                (ar_nonce_tpm ar) (nonce_caller s) (ar_attributes ar)
            then (Ok \<lparr>rr_handles = hs, rr_params = p\<rparr>, AuthSession (s\<lparr>nonce_tpm := ar_nonce_tpm ar\<rparr>) av)
            else (Err hmac_mismatch, auth))
    | _ \<Rightarrow> (Ok \<lparr>rr_handles = hs, rr_params = p\<rparr>, auth))"
  by (simp add: parse_reply [OF assms] checked_eq assms(1) check_response_auth_eq expected_mac_def
      split: Auth.split option.split)

lemma reply_is_parsed_witness:
  "fst (parse_response sample_crypto cc_UNSEAL (reply [] [0, 1, 9] (Some (signed_entry sample_session [4] cc_UNSEAL
      [[1]] [0, 1, 9]))) [[1]] 0 (AuthSession sample_session [4])) =
    Ok \<lparr>rr_handles = [], rr_params = [0, 1, 9]\<rparr>"
  using reply_is_parsed [OF sample_ok signed_reply_wf, of "[0, 1, 9]" "[]" cc_UNSEAL sample_session "[4]"
      cc_UNSEAL "[[1]]" "[[1]]" "AuthSession sample_session [4]"]
  by (simp add: expected_mac_def)

section \<open>Resubmission\<close>

text \<open>
  C5. Resubmission is bounded and faithful: one command is transmitted at least once and at most
  13 times, always as the same frame, with waits of 5, 10, 15 and so on milliseconds; a transient
  warning reaches the caller only after all 13, provided the transport itself reports no TPM
  response codes.
\<close>

theorem resubmission_bounded:
  assumes "purecrypto_ok (crypto E)"
    and "transmit_loop (logged E) code names k frame 0 (auth, m) = (x, (auth', m'))"
  shows "\<exists>j \<le> 12. snd (transport m') = snd (transport m) @ replicate (Suc j) frame \<and>
    slept m' = slept m @ (if feature_std E then map (\<lambda>i. i * 5) [1..<Suc j] else []) \<and>
    (\<forall>rc. x = Err (Tpm rc) \<longrightarrow> is_transient rc \<longrightarrow> (\<forall>f t t'. transmit E f t \<noteq> (Err (Tpm rc), t')) \<longrightarrow>
      j = 12)"
proof -
  obtain j where "j \<le> MAX_TRANSIENT_RETRIES"
    "snd (transport m') = snd (transport m) @ replicate (Suc j) frame"
    "slept m' = slept m @ (if feature_std E then map (\<lambda>i. i * 5) [1..<Suc j] else [])"
    "\<And>rc. x = Err (Tpm rc) \<Longrightarrow> is_transient rc \<Longrightarrow> \<forall>f t t'. transmit E f t \<noteq> (Err (Tpm rc), t') \<Longrightarrow>
      j = MAX_TRANSIENT_RETRIES"
    using transmissions [OF assms] by blast
  then show ?thesis by (intro exI [of _ j]) (simp add: MAX_TRANSIENT_RETRIES_def)
qed

lemma resubmission_bounded_witness:
  "\<exists>j \<le> 12. snd (transport (snd (snd (transmit_loop (logged sample_ports) cc_SELF_TEST [] 0 [1] 0
      (AuthNone, \<lparr>transport = ([retry_response], []), os_rng = 0, slept = []\<rparr>))))) =
    replicate (Suc j) [1]"
  using resubmission_bounded [of sample_ports cc_SELF_TEST "[]" 0 "[1]" AuthNone
      "\<lparr>transport = ([retry_response], []), os_rng = 0, slept = []\<rparr>", OF _ prod.collapse [symmetric, THEN trans]]
  by (simp add: sample_ok) (metis prod.collapse)



section \<open>The crate and a TPM\<close>











text \<open>
  C12. The types of the results: whatever a TPM answers, every buffer a command returns fits its
  16-bit length and every selection its length byte, so that marshalling them again (the blobs of
  \<open>create\<close> in \<open>load\<close>, a name in a later command) drops nothing; a session that was started is over a
  supported hash, holds nonces that fit, and has no key.
\<close>

theorem results_well_formed:
  assumes P: "purecrypto_ok (crypto E)"
  shows "(create_primary E hierarchy s pub st = (Ok cp, st') \<longrightarrow> Buffer_wf (cp_name cp) \<and> Buffer_wf (cp_public cp)) \<and>
    (create E parent name s pub st = (Ok cr, st') \<longrightarrow> Buffer_wf (cr_private cr) \<and> Buffer_wf (cr_public cr)) \<and>
    (load E parent name prv pb st = (Ok lr, st') \<longrightarrow> Buffer_wf (lr_name lr)) \<and>
    (unseal E item name st = (Ok secret, st') \<longrightarrow> fits_tpm2b secret) \<and>
    (get_random E n m = (Ok rnd, m') \<longrightarrow> fits_tpm2b rnd) \<and>
    (pcr_read E sel m = (Ok pr, m') \<longrightarrow> PcrSelectionList_wf (pr_selection pr) \<and> list_all Buffer_wf (pr_values pr)) \<and>
    (start_auth_session E alg nonce m = (Ok session, m') \<longrightarrow> hash_fn_of (sess_hash_alg session) \<noteq> None \<and>
      fits_tpm2b (nonce_tpm session) \<and> fits_tpm2b (nonce_caller session) \<and> session_key session = [])"
  by (intro conjI impI) (auto dest: object_results [THEN givesD] plain_results(1,2) [THEN givesD]
      session_results [OF P, THEN givesD])

lemma results_well_formed_witness:
  "\<exists>m'. unseal sample_dev_ports (Handle 0x80000000) [0, 11, 1] (AuthPassword [5], sample_dev_machine) =
    (Ok [1, 2, 3], (AuthPassword [5], m')) \<and> fits_tpm2b [1, 2, 3]"
proof -
  obtain m' where u: "unseal sample_dev_ports (Handle 0x80000000) [0, 11, 1] (AuthPassword [5], sample_dev_machine) =
      (Ok [1, 2, 3], (AuthPassword [5], m'))"
    using sample_unseals by blast
  have "purecrypto_ok (crypto sample_dev_ports)" by (simp add: sample_ok)
  from results_well_formed [OF this, THEN conjunct2, THEN conjunct2, THEN conjunct2, THEN conjunct1, rule_format, OF u] u
  show ?thesis by blast
qed

text \<open>
  C13. A busy TPM goes unnoticed: behind a driver that answers a command with up to twelve transient
  warnings before the TPM sees it, every command method returns what it returns in front of the TPM
  itself, and leaves the authorization and the TPM as it leaves them there.
\<close>

theorem busy_tpm_is_transparent:
  assumes "transmit E1 = device_transmit (kernel (busy_serve serve))" "transmit E0 = device_transmit (kernel serve)"
    and "crypto E1 = crypto E0" "feature_std E1 = feature_std E0" "purecrypto_ok (crypto E0)" "quiet serve"
    and m: "busy_rel m1 m0"
  shows "agree busy_rel (startup E1 ty m1) (startup E0 ty m0) \<and> agree busy_rel (shutdown E1 ty m1) (shutdown E0 ty m0) \<and>
    agree busy_rel (self_test E1 full m1) (self_test E0 full m0) \<and>
    agree busy_rel (get_random E1 n m1) (get_random E0 n m0) \<and>
    agree busy_rel (stir_random E1 data m1) (stir_random E0 data m0) \<and>
    agree busy_rel (get_capability E1 c prop count m1) (get_capability E0 c prop count m0) \<and>
    agree busy_rel (start_auth_session E1 alg nonce m1) (start_auth_session E0 alg nonce m0) \<and>
    agree busy_rel (start_hmac_session E1 alg m1) (start_hmac_session E0 alg m0) \<and>
    agree busy_rel (flush_context E1 h m1) (flush_context E0 h m0) \<and>
    agree busy_rel (pcr_read E1 sel m1) (pcr_read E0 sel m0) \<and>
    agree busy_rel (pcr_read_one E1 bank i m1) (pcr_read_one E0 bank i m0) \<and>
    agree (same_fst busy_rel) (pcr_extend E1 pcr ds (auth, m1)) (pcr_extend E0 pcr ds (auth, m0)) \<and>
    agree (same_fst busy_rel) (create_primary E1 h s pub (auth, m1)) (create_primary E0 h s pub (auth, m0)) \<and>
    agree (same_fst busy_rel) (create E1 h nm s pub (auth, m1)) (create E0 h nm s pub (auth, m0)) \<and>
    agree (same_fst busy_rel) (load E1 h nm prv pb (auth, m1)) (load E0 h nm prv pb (auth, m0)) \<and>
    agree (same_fst busy_rel) (unseal E1 h nm (auth, m1)) (unseal E0 h nm (auth, m0))"
proof -
  have B: "behind_busy E1 E0 serve" using assms by (simp add: behind_busy_def)
  have st: "same_fst busy_rel (auth, m1) (auth, m0)" using m by (simp add: same_fst_def)
  show ?thesis
    by (intro conjI simD [OF sim_plain_commands(1) [OF B] m] simD [OF sim_plain_commands(2) [OF B] m]
        simD [OF sim_plain_commands(3) [OF B] m] simD [OF sim_plain_commands(4) [OF B] m]
        simD [OF sim_plain_commands(5) [OF B] m] simD [OF sim_plain_commands(6) [OF B] m]
        simD [OF sim_plain_commands(7) [OF B] m] simD [OF sim_plain_commands(8) [OF B] m]
        simD [OF sim_plain_commands(9) [OF B] m] simD [OF sim_sessions(1) [OF B] m] simD [OF sim_sessions(2) [OF B] m]
        simD [OF sim_authorized_commands(1) [OF B] st] simD [OF sim_authorized_commands(2) [OF B] st]
        simD [OF sim_authorized_commands(3) [OF B] st] simD [OF sim_authorized_commands(4) [OF B] st]
        simD [OF sim_authorized_commands(5) [OF B] st])
qed

lemma busy_tpm_is_transparent_witness:
  "fst (unseal sample_busy_ports (Handle 0x80000000) [0, 11, 1] (AuthPassword [5], sample_busy_machine)) = Ok [1, 2, 3]"
proof -
  obtain m' where m': "unseal sample_dev_ports (Handle 0x80000000) [0, 11, 1] (AuthPassword [5], sample_dev_machine) =
      (Ok [1, 2, 3], (AuthPassword [5], m'))"
    using sample_unseals by blast
  have "agree (same_fst busy_rel)
      (unseal sample_busy_ports (Handle 0x80000000) [0, 11, 1] (AuthPassword [5], sample_busy_machine))
      (unseal sample_dev_ports (Handle 0x80000000) [0, 11, 1] (AuthPassword [5], sample_dev_machine))"
    using busy_tpm_is_transparent [where ?E1.0 = sample_busy_ports and ?E0.0 = sample_dev_ports and
        serve = "tpm_serve sample_crypto" and ?m1.0 = sample_busy_machine and ?m0.0 = sample_dev_machine]
    by (simp add: sample_ok tpm_serve_quiet sample_busy)
  then show ?thesis by (simp add: agree_def m')
qed



text \<open>
  C15. A reply without the session tag passes unchecked: when \<open>unseal\<close> runs under an HMAC session,
  the caller takes the data of any well-formed reply that carries no authorization entry, whoever
  sent it, and the session keeps the nonce it last had of the TPM; a reply that carries an entry gives its data
  for the one HMAC that the session computes, and a mismatch error for any other.
\<close>

theorem untagged_reply_passes_unchecked:
  assumes P: "purecrypto_ok (crypto E)" and std: "feature_std E" and d: "hash_fn_of (sess_hash_alg s) = Some d"
    and f: "os_fill (crypto E) (os_rng m) (hash_len d) = (nonce, g)"
    and t: "transmit E (request cc_UNSEAL [item] (Some (session_entry (crypto E) d s av cc_UNSEAL [name] [] nonce)) [])
        (transport m) = (Ok (reply [] (tpm2b data) ar), t)"
    and data: "fits_tpm2b data" and ar: "reply_wf [] (tpm2b data) ar"
  shows "unseal E item name (AuthSession s av, m) =
    (let s' = s\<lparr>nonce_caller := nonce\<rparr>; m' = m\<lparr>os_rng := g, transport := t\<rparr> in
     case ar of None \<Rightarrow> (Ok data, (AuthSession s' av, m'))
     | Some a \<Rightarrow>
         if ar_hmac a = response_mac (crypto E) d (hmac_key s av name)
             (digest_of (crypto E) d (to_be_bytes (0 :: 32 word) @ to_be_bytes cc_UNSEAL @ tpm2b data))
             (ar_nonce_tpm a) nonce (ar_attributes a)
         then (Ok data, (AuthSession (s'\<lparr>nonce_tpm := ar_nonce_tpm a\<rparr>) av, m'))
         else (Err hmac_mismatch, (AuthSession s' av, m')))"
proof -
  let ?ac = "session_entry (crypto E) d s av cc_UNSEAL [name] [] nonce"
  have a: "authorize E cc_UNSEAL [name] [] (AuthSession s av, m) =
      (Ok (Some ?ac), (AuthSession (s\<lparr>nonce_caller := nonce\<rparr>) av, m\<lparr>os_rng := g\<rparr>))"
    by (simp add: std d f)
  have fits: "request_fits [item] []" by (simp add: request_fits_def)
  have p: "unmarshal_params read_tpm2b (tpm2b data) st = (Ok data, st)" for st :: "Auth \<times> ('d, 'c) machine"
    using unmarshal_params_reads [OF reads_tpm2b [OF data], of "[]"] by simp
  have t': "transmit E (request cc_UNSEAL [item] (Some ?ac) []) (transport (m\<lparr>os_rng := g\<rparr>)) =
      (Ok (reply [] (tpm2b data) ar), t)" using t by simp
  have r: "run E cc_UNSEAL [item] [name] [] 0 (AuthSession s av, m) =
      (case checked (crypto E) cc_UNSEAL [name] ([], tpm2b data, ar) (AuthSession (s\<lparr>nonce_caller := nonce\<rparr>) av) of
        (x, auth') \<Rightarrow> (x, (auth', m\<lparr>os_rng := g, transport := t\<rparr>)))"
    using run_reply [OF P fits ar a t'] by simp
  show ?thesis
    by (cases ar) (auto simp: unseal_def bindE_def r checked_eq [OF P] check_response_auth_eq [OF P] d p
        expected_mac_def first_name_def Let_def)
qed

lemma untagged_reply_passes_unchecked_witness:
  "fst (unseal sample_ports (Handle 0x80000001) [1] (AuthSession sample_session [4],
     sample_machine [reply [] (tpm2b [6, 6, 6]) None])) = Ok [6, 6, 6]"
proof -
  have "os_fill sample_crypto 7 32 = (replicate 32 7, 8)" by (simp add: sample_crypto_def)
  then show ?thesis
    using untagged_reply_passes_unchecked [where E = sample_ports and s = sample_session and d = Sha256 and
        m = "sample_machine [reply [] (tpm2b [6, 6, 6]) None]" and nonce = "replicate 32 7" and g = 8 and ar = None and
        data = "[6, 6, 6]" and item = "Handle 0x80000001" and name = "[1]" and av = "[4]" and t = "[]"]
    by (simp add: sample_ok fits_tpm2b_def small_reply_wf length_tpm2b)
qed

text \<open>
  C16. Replay: a response that a session accepted for one command is refused when it is played back in
  answer to another command, or to the same command under another nonce of the caller, by any session
  with the same key: the result is a mismatch error and the session keeps its nonces. Only a collision
  of the hash on the two response hashes, or of the HMAC on the two authenticated inputs, is excluded.
\<close>

theorem replayed_response_rejected:
  assumes "purecrypto_ok P"
    and "parse_response P code resp names k (AuthSession s av) = (Ok rr, AuthSession s1 av1)"
    and "take 2 resp = to_be_bytes st_SESSIONS"
    and "hash_fn_of (sess_hash_alg s) = Some d" "hash_fn_of (sess_hash_alg s') = Some d"
    and "hmac_key s' av' (first_name names') = hmac_key s av (first_name names)"
    and "length (nonce_caller s') = length (nonce_caller s)"
    and "code' \<noteq> code \<or> nonce_caller s' \<noteq> nonce_caller s"
    and "inj_on (digest_of P d) ((\<lambda>c. to_be_bytes (0 :: 32 word) @ to_be_bytes c @ rr_params rr) ` {code, code'})"
    and "\<forall>b. inj_on (hmac_of P d (hmac_key s av (first_name names)))
      {digest_of P d (to_be_bytes (0 :: 32 word) @ to_be_bytes code @ rr_params rr) @ nonce_tpm s1 @ nonce_caller s @ [b],
       digest_of P d (to_be_bytes (0 :: 32 word) @ to_be_bytes code' @ rr_params rr) @ nonce_tpm s1 @ nonce_caller s' @ [b]}"
  shows "parse_response P code' resp names' k (AuthSession s' av') = (Err hmac_mismatch, AuthSession s' av')"
  using assms by (rule replay_rejected)

lemma replayed_response_rejected_witness:
  "parse_response sample_crypto cc_CREATE sample_signed_reply [[1]] 0 (AuthSession sample_sent [4]) =
    (Err hmac_mismatch, AuthSession sample_sent [4])"
proof (rule replayed_response_rejected [OF sample_ok sample_signed_reply_accepted sample_signed_reply_tag])
  have k: "hmac_key sample_sent [4] [1] = [1, 2, 3, 4]" by (simp add: hmac_key_def sample_sent_def sample_session_def)
  show "\<forall>b. inj_on (hmac_of sample_crypto Sha256 (hmac_key sample_sent [4] (first_name [[1]])))
      {digest_of sample_crypto Sha256 (to_be_bytes (0 :: 32 word) @ to_be_bytes cc_UNSEAL @
         rr_params \<lparr>rr_handles = [], rr_params = [0, 1, 9]\<rparr>) @
         nonce_tpm (sample_sent\<lparr>nonce_tpm := replicate 32 9\<rparr>) @ nonce_caller sample_sent @ [b],
       digest_of sample_crypto Sha256 (to_be_bytes (0 :: 32 word) @ to_be_bytes cc_CREATE @
         rr_params \<lparr>rr_handles = [], rr_params = [0, 1, 9]\<rparr>) @
         nonce_tpm (sample_sent\<lparr>nonce_tpm := replicate 32 9\<rparr>) @ nonce_caller sample_sent @ [b]}"
    by (simp add: first_name_def k digest_of_def hmac_of_def sample_crypto_def tpm_consts to_be_bytes_def upt_rec)
  show "inj_on (digest_of sample_crypto Sha256) ((\<lambda>c. to_be_bytes (0 :: 32 word) @ to_be_bytes c @
      rr_params \<lparr>rr_handles = [], rr_params = [0, 1, 9]\<rparr>) ` {cc_UNSEAL, cc_CREATE})"
    by (simp add: digest_of_def sample_crypto_def tpm_consts to_be_bytes_def upt_rec)
qed (simp_all add: tpm_consts sample_sent_def hash_fn_of_def)



section \<open>Commands return\<close>

text \<open>
  C18. Liveness over the simulator's socket: however the socket fragments and interrupts, and
  whatever bytes it delivers, every command comes back with a value or an error. No command
  panics (the indexing of the response handles included) and none loops.
\<close>

theorem commands_return_over_simulator:
  assumes "transmit E = sim_transmit tcp" and "purecrypto_ok (crypto E)"
    and "request_fits [] (marshal_PcrSelectionList sel [])" and "request_fits [Handle pcr] (digest_values ds)"
  shows "returns (fst (startup E ty m)) \<and> returns (fst (shutdown E ty m)) \<and>
    returns (fst (self_test E full m)) \<and> returns (fst (get_random E n m)) \<and>
    returns (fst (stir_random E data m)) \<and> returns (fst (get_capability E c prop count m)) \<and>
    returns (fst (start_auth_session E alg nonce m)) \<and> returns (fst (start_hmac_session E alg m)) \<and>
    returns (fst (flush_context E h m)) \<and> returns (fst (pcr_read E sel m)) \<and>
    returns (fst (pcr_read_one E alg i m)) \<and> returns (fst (pcr_extend E pcr ds (auth, m))) \<and>
    returns (fst (create_primary E h s pub (auth, m))) \<and> returns (fst (create E h nm s pub (auth, m))) \<and>
    returns (fst (load E h nm prv pb (auth, m))) \<and> returns (fst (unseal E h nm (auth, m)))"
  using assms
  by (intro conjI tcp_link.sim.plain_commands_return tcp_link.sim.start_auth_session_returns
      tcp_link.sim.start_hmac_session_returns tcp_link.sim.object_commands_return
      tcp_link.sim.pcr_commands_return) simp_all

lemma commands_return_over_simulator_witness:
  "returns (fst (unseal \<lparr>crypto = sample_crypto, transmit = sim_transmit tcp, feature_std = True\<rparr>
     (Handle 0x80000001) [1] (AuthNone, \<lparr>transport = \<lparr>sim_cmd = \<lparr>tcp_in = [], tcp_out = [], tcp_script = [0, 3]\<rparr>,
       sim_platform = None, sim_locality = 0\<rparr>, os_rng = 0, slept = []\<rparr>)))"
  using commands_return_over_simulator [of "\<lparr>crypto = sample_crypto, transmit = sim_transmit (tcp :: tcp_stream io), feature_std = True\<rparr>"
      "PcrSelectionList []" 0 "[]"]
  by (simp add: sample_ok request_fits_def marshal_PcrSelectionList_def marshal_prim_def digest_values_def)

text \<open>
  C19. The same over the Linux device: for any TPM behind the driver, whatever and however much it
  answers, every command ends with a value or an error.
\<close>

theorem commands_return_over_device:
  assumes "transmit E = device_transmit (kernel answer)" and "purecrypto_ok (crypto E)"
    and "request_fits [] (marshal_PcrSelectionList sel [])" and "request_fits [Handle pcr] (digest_values ds)"
  shows "returns (fst (startup E ty m)) \<and> returns (fst (shutdown E ty m)) \<and>
    returns (fst (self_test E full m)) \<and> returns (fst (get_random E n m)) \<and>
    returns (fst (stir_random E data m)) \<and> returns (fst (get_capability E c prop count m)) \<and>
    returns (fst (start_auth_session E alg nonce m)) \<and> returns (fst (start_hmac_session E alg m)) \<and>
    returns (fst (flush_context E h m)) \<and> returns (fst (pcr_read E sel m)) \<and>
    returns (fst (pcr_read_one E alg i m)) \<and> returns (fst (pcr_extend E pcr ds (auth, m))) \<and>
    returns (fst (create_primary E h s pub (auth, m))) \<and> returns (fst (create E h nm s pub (auth, m))) \<and>
    returns (fst (load E h nm prv pb (auth, m))) \<and> returns (fst (unseal E h nm (auth, m)))"
  using assms
  by (intro conjI kernel_link.device.plain_commands_return kernel_link.device.start_auth_session_returns
      kernel_link.device.start_hmac_session_returns kernel_link.device.object_commands_return
      kernel_link.device.pcr_commands_return) simp_all

lemma commands_return_over_device_witness:
  "returns (fst (unseal \<lparr>crypto = sample_crypto, transmit = device_transmit (kernel (\<lambda>c q :: unit. (c, q))), feature_std = True\<rparr>
     (Handle 0x80000001) [1] (AuthNone, \<lparr>transport = \<lparr>dev_file = \<lparr>kt_tpm = (), kt_pending = []\<rparr>\<rparr>, os_rng = 0, slept = []\<rparr>)))"
  using commands_return_over_device [of "\<lparr>crypto = sample_crypto, transmit = device_transmit (kernel (\<lambda>c q :: unit. (c, q))), feature_std = True\<rparr>"
      "\<lambda>c q :: unit. (c, q)" "PcrSelectionList []" 0 "[]"]
  by (simp add: sample_ok request_fits_def marshal_PcrSelectionList_def marshal_prim_def digest_values_def)

lemma run_returns_over_device:
  assumes "transmit E = device_transmit (kernel answer)" and "purecrypto_ok (crypto E)"
    and "request_fits hs params"
  shows "returns (fst (run E code hs names params k (auth, m)))"
  using kernel_link.device.run_returns [OF assms] by simp

section \<open>The size of a frame\<close>

text \<open>
  C20. The arithmetic of the size field, for requests of any length: with a body of \<open>n\<close> bytes building
  the frame panics exactly when \<open>n\<close>, as 32 bits, is within ten of the end; otherwise the frame is
  built, and its size field is the length of the frame if and only if that is below \<open>2 ^ 32\<close>. From
  there on the cast of the length wraps silently.
\<close>

theorem frame_size_bounds:
  assumes "purecrypto_ok (crypto E)" and "authorize E code names params (auth, m) = (Ok ac, st)"
    and "n = length (request_body hs ac params)"
  shows "build_frame E code hs names params (auth, m) =
      (if 2 ^ 32 - 10 \<le> n mod 2 ^ 32 then Panic else Ok (request code hs ac params), st) \<and>
    length (request code hs ac params) = 10 + n \<and>
    (unat (from_be_bytes (take 4 (drop 2 (request code hs ac params))) :: 32 word) =
      length (request code hs ac params) \<longleftrightarrow> n < 2 ^ 32 - 10)"
proof (intro conjI)
  show "build_frame E code hs names params (auth, m) =
      (if 2 ^ 32 - 10 \<le> n mod 2 ^ 32 then Panic else Ok (request code hs ac params), st)"
    by (auto simp: build_frame_cases [OF assms(1)] assms(2,3) framed_def)
  show l: "length (request code hs ac params) = 10 + n" by (simp add: length_request assms(3))
  have "from_be_bytes (take 4 (drop 2 (request code hs ac params))) = (of_nat (10 + n) :: 32 word)"
    by (simp add: request_def assms(3) del: of_nat_add)
  moreover have "(10 + n) mod 2 ^ 32 = 10 + n \<longleftrightarrow> n < 2 ^ 32 - 10"
    by (auto simp: mod_less)
  ultimately show "unat (from_be_bytes (take 4 (drop 2 (request code hs ac params))) :: 32 word) =
      length (request code hs ac params) \<longleftrightarrow> n < 2 ^ 32 - 10"
    unfolding l by (simp only: unat_of_nat) simp
qed

lemma frame_size_bounds_witness:
  "\<exists>params. length params = 2 ^ 32 - 10 \<and>
    fst (build_frame sample_ports cc_UNSEAL [] [] params (AuthNone, sample_machine [])) = Panic"
proof -
  obtain params :: bytes where l: "length params = 2 ^ 32 - 10" using Ex_list_of_length by blast
  have "authorize sample_ports cc_UNSEAL [] params (AuthNone, sample_machine []) = (Ok None, (AuthNone, sample_machine []))"
    by simp
  from frame_size_bounds [OF _ this refl, of "[]"] show ?thesis
    using l by (intro exI [of _ params]) (simp add: sample_ok request_body_def wire_handles_def)
qed

section \<open>Session cryptography\<close>

text \<open>
  C21. KDFa is the counter-mode KDF of SP 800-108 with HMAC: for every supported hash and every
  requested length it ends, and yields the leading bytes of the blocks numbered from 1, with the
  excess bits of the first byte cleared.
\<close>

theorem kdfa_is_sp800_108:
  assumes "purecrypto_ok P" and "hash_fn_of alg = Some d"
  shows "kdfa P alg key label cu cv bits = Ok (mask_leading bits (take ((unat bits + 7) div 8)
      (concat (map (\<lambda>i. hmac_of P d key (to_be_bytes (of_nat i :: 32 word) @ label @ [0] @ cu @ cv @ to_be_bytes bits))
        [1..<Suc (((unat bits + 7) div 8 + hash_len d - 1) div hash_len d)]))))"
  unfolding kdfa_eq_spec [OF assms] kdfa_spec_def kdfa_blocks_def Let_def
  by (simp add: kdfa_block_def [abs_def] del: upt_Suc)

lemma kdfa_is_sp800_108_witness:
  "kdfa sample_crypto Alg_SHA256 [1] [2] [3] [4] 12 = Ok (mask_leading 12 (take 2
      (concat (map (\<lambda>i. hmac_of sample_crypto Sha256 [1] (to_be_bytes (of_nat i :: 32 word) @ [2] @ [0] @ [3] @ [4] @
        to_be_bytes (12 :: 32 word))) [1..<Suc 1]))))"
  using kdfa_is_sp800_108 [OF sample_ok, of Alg_SHA256 Sha256 "[1]" "[2]" "[3]" "[4]" 12]
  by (simp del: upt_Suc)

text \<open>
  The key material has the requested number of bytes, and where the number of bits is no
  multiple of eight the first byte holds the remaining bits only.
\<close>

lemma kdfa_length_and_mask:
  assumes "purecrypto_ok P" and "kdfa P alg key label cu cv bits = Ok out"
  shows "length out = (unat bits + 7) div 8 \<and>
    (unat bits mod 8 \<noteq> 0 \<longrightarrow> unat (hd out) < 2 ^ (unat bits mod 8))"
proof (cases "hash_fn_of alg")
  case None
  then have "bits = 0" "out = []" using assms(2) by (auto simp: kdfa_unsupported split: if_splits)
  then show ?thesis by simp
next
  case (Some d)
  from kdfa_hash [OF assms(1) Some, of key label cu cv bits] obtain out' where
    "kdfa P alg key label cu cv bits = Ok out'" "length out' = (unat bits + 7) div 8"
    "unat bits mod 8 \<noteq> 0 \<Longrightarrow> unat (hd out') < 2 ^ (unat bits mod 8)"
    by blast
  then show ?thesis using assms(2) by auto
qed

lemma kdfa_length_and_mask_witness:
  "\<exists>out. kdfa sample_crypto Alg_SHA256 [1] [2] [3] [4] 12 = Ok out \<and> length out = 2 \<and> unat (hd out) < 16"
proof -
  obtain out where k: "kdfa sample_crypto Alg_SHA256 [1] [2] [3] [4] 12 = Ok out"
    using kdfa_eq_spec [OF sample_ok, of Alg_SHA256 Sha256] by simp
  show ?thesis using kdfa_length_and_mask [OF sample_ok k] k by simp
qed

text \<open>
  C22. A session starts with both nonces, the handle and the bound entity as given, and its key is
  empty when there is neither bind value nor salt, and otherwise one HMAC keyed with the bind value
  followed by the salt, over the label ATH and the two nonces; the only failure is an algorithm
  that is no hash.
\<close>

theorem session_start:
  assumes "purecrypto_ok P"
  shows "Session_new P h alg nt nc attrs bind_auth bname salt = (case hash_fn_of alg of
      None \<Rightarrow> Err (Usage ''not a hash algorithm'')
    | Some d \<Rightarrow> Ok \<lparr>sess_handle = h, sess_hash_alg = alg, sess_attributes = attrs,
        session_key = (if bind_auth = [] \<and> salt = [] then []
          else hmac_of P d (bind_auth @ salt) (to_be_bytes (1 :: 32 word) @ [0x41, 0x54, 0x48] @ [0] @ nt @ nc @
            to_be_bytes (of_nat (hash_len d * 8) :: 32 word))),
        nonce_tpm = nt, nonce_caller = nc, bound_name = bname\<rparr>)"
  using session_key_single_hmac [OF assms, unfolded label_ATH_def]
  by (auto simp add: Session_new_eq [OF assms] label_ATH_def del: of_nat_mult split: option.split)

lemma session_start_witness:
  "\<exists>s. Session_new sample_crypto (Handle 0x02000000) Alg_SHA384 [1] [2] sa_continue_session [] [] [] = Ok s \<and>
    session_key s = [] \<and> nonce_tpm s = [1]"
  using session_start [OF sample_ok, of "Handle 0x02000000" Alg_SHA384 "[1]" "[2]" sa_continue_session "[]" "[]" "[]"]
  by (simp add: hash_fn_of_def tpm_consts)

text \<open>
  C23. Rolling nonces: after any history of commands sent and responses accepted or rejected, the
  session's \<open>nonceTPM\<close> is the one of the last accepted response, its \<open>nonceCaller\<close> the one of the
  last command, and nothing else in it has changed.
\<close>

theorem nonces_roll:
  assumes "purecrypto_ok P" and "session_run P s es s'"
  shows "s' = s\<lparr>nonce_tpm := last (nonce_tpm s # [ar_nonce_tpm ar. Accepted ar \<leftarrow> es]),
    nonce_caller := last (nonce_caller s # [ac_nonce_caller ac. Sent cp ac \<leftarrow> es])\<rparr>"
proof -
  have t: "foldl tpm_nonce_after n es = last (n # [ar_nonce_tpm ar. Accepted ar \<leftarrow> es])" for n
  proof (induction es arbitrary: n)
    case (Cons e es)
    then show ?case by (cases e) simp_all
  qed simp
  have c: "foldl caller_nonce_after n es = last (n # [ac_nonce_caller ac. Sent cp ac \<leftarrow> es])" for n
  proof (induction es arbitrary: n)
    case (Cons e es)
    then show ?case by (cases e) simp_all
  qed simp
  show ?thesis using session_run_nonces [OF assms] by (simp only: t c)
qed

lemma nonces_roll_witness:
  "\<exists>s' ac. session_run sample_crypto sample_session [Sent [9] ac] s' \<and> nonce_caller s' = [3, 3]"
proof -
  obtain ac s' where c: "command_auth sample_crypto [9] [4] [] [3, 3] sample_session = (Ok ac, s')"
    and n: "ac_nonce_caller ac = [3, 3]"
    by (simp add: command_auth_eq [OF sample_ok])
  have r: "session_run sample_crypto sample_session ([] @ [Sent [9] ac]) s'"
    by (rule run_snoc [OF run_nil send [OF c]])
  then show ?thesis using nonces_roll [OF sample_ok r] n by auto
qed

text \<open>
  C24. Authorizing a command: the HMAC is keyed with the session key and, unless the authorized
  object is the bound entity, its authorization value; it covers the command's hash, the new
  nonce of the caller, the last nonce of the TPM and the attributes, and the session remembers
  the nonce it sent, even when the algorithm is unsupported.
\<close>

theorem command_authorization:
  assumes "purecrypto_ok P" and "hash_fn_of (sess_hash_alg s) = Some d"
  shows "command_auth P cp av on nonce s =
    (Ok \<lparr>ac_session_handle = sess_handle s, ac_nonce_caller = nonce, ac_attributes = sess_attributes s,
       ac_hmac = hmac_of P d
         (session_key s @ (if bound_name s \<noteq> [] \<and> bound_name s = on then [] else av))
         (cp @ nonce @ nonce_tpm s @ [sa_bits (sess_attributes s)])\<rparr>,
     s\<lparr>nonce_caller := nonce\<rparr>)"
  using assms by (simp add: command_auth_eq command_mac_def hmac_key_def Let_def)

lemma command_authorization_witness:
  "ac_nonce_caller (case fst (command_auth sample_crypto [9] [4] [] [3, 3] sample_session) of Ok ac \<Rightarrow> ac) = [3, 3]"
  using command_authorization [OF sample_ok, of sample_session Sha256 "[9]" "[4]" "[]" "[3, 3]"] by simp

text \<open>
  C25. Verifying a response succeeds exactly when the received HMAC equals the one computed over
  the response hash, the TPM's new nonce, the caller's nonce and the returned attributes; then the
  new nonce is absorbed, and on a mismatch the session is unchanged.
\<close>

theorem response_verification:
  assumes "purecrypto_ok P" and "hash_fn_of (sess_hash_alg s) = Some d"
  shows "verify_response P rp av on resp s =
    (if ar_hmac resp = hmac_of P d
         (session_key s @ (if bound_name s \<noteq> [] \<and> bound_name s = on then [] else av))
         (rp @ ar_nonce_tpm resp @ nonce_caller s @ [sa_bits (ar_attributes resp)])
     then (Ok (), s\<lparr>nonce_tpm := ar_nonce_tpm resp\<rparr>)
     else (Err (Protocol ''response HMAC verification failed''), s))"
  using assms by (simp add: verify_response_eq response_mac_def hmac_key_def hmac_mismatch_def Let_def)

lemma response_verification_witness:
  "fst (verify_response sample_crypto [1] [4] [] \<lparr>ar_nonce_tpm = [8], ar_attributes = sa_empty, ar_hmac = []\<rparr>
     sample_session) = Err (Protocol ''response HMAC verification failed'')"
proof -
  have "length (hmac_of sample_crypto Sha256 k m) = 32" for k m by (simp add: sample_ok)
  then have "[] \<noteq> hmac_of sample_crypto Sha256 k m" for k m by (metis list.size(3) zero_neq_numeral)
  then show ?thesis
    using response_verification [OF sample_ok, of sample_session Sha256 "[1]" "[4]" "[]"
        "\<lparr>ar_nonce_tpm = [8], ar_attributes = sa_empty, ar_hmac = []\<rparr>"]
    by simp
qed

text \<open>
  Binding: two responses accepted by a session in the same state with the same HMAC agree in
  the hash of the response, the TPM's nonce and the attributes, unless the two authenticated
  messages, different as they are, have the same HMAC.
\<close>

lemma accepted_responses_agree:
  assumes "purecrypto_ok P" and "length rp = length rp'"
    and "verify_response P rp av on resp s = (Ok (), t)" and "verify_response P rp' av on resp' s = (Ok (), t')"
    and "ar_hmac resp = ar_hmac resp'"
    and "inj_on (hmac_of P d (hmac_key s av on))
      {rp @ ar_nonce_tpm resp @ nonce_caller s @ [sa_bits (ar_attributes resp)],
       rp' @ ar_nonce_tpm resp' @ nonce_caller s @ [sa_bits (ar_attributes resp')]}"
    and "hash_fn_of (sess_hash_alg s) = Some d"
  shows "rp = rp' \<and> ar_nonce_tpm resp = ar_nonce_tpm resp' \<and> ar_attributes resp = ar_attributes resp' \<and> t = t'"
proof -
  let ?x = "rp @ ar_nonce_tpm resp @ nonce_caller s @ [sa_bits (ar_attributes resp)]"
  let ?y = "rp' @ ar_nonce_tpm resp' @ nonce_caller s @ [sa_bits (ar_attributes resp')]"
  have h: "ar_hmac resp = hmac_of P d (hmac_key s av on) ?x" "ar_hmac resp' = hmac_of P d (hmac_key s av on) ?y"
    and t: "t = s\<lparr>nonce_tpm := ar_nonce_tpm resp\<rparr>" "t' = s\<lparr>nonce_tpm := ar_nonce_tpm resp'\<rparr>"
    using assms(3,4)
    by (simp_all add: verify_response_eq [OF assms(1)] assms(7) response_mac_def split: if_split_asm)
  have "hmac_of P d (hmac_key s av on) ?x = hmac_of P d (hmac_key s av on) ?y"
    using assms(5) unfolding h .
  then have "?x = ?y" by (rule inj_onD [OF assms(6)]) simp_all
  then have "rp = rp' \<and> ar_nonce_tpm resp = ar_nonce_tpm resp' \<and> nonce_caller s = nonce_caller s \<and>
      sa_bits (ar_attributes resp) = sa_bits (ar_attributes resp')"
    by (rule mac_input_inject) (simp_all add: assms(2))
  then show ?thesis using t by (auto intro: SessionAttributes.expand)
qed

lemma accepted_responses_agree_witness:
  "\<exists>resp t. verify_response sample_crypto [1] [4] [] resp sample_session = (Ok (), t) \<and> nonce_tpm t = [8]"
proof -
  let ?r = "\<lparr>ar_nonce_tpm = [8], ar_attributes = sa_empty, ar_hmac = response_mac sample_crypto Sha256
    (hmac_key sample_session [4] []) [1] [8] (nonce_caller sample_session) sa_empty\<rparr>"
  have v: "verify_response sample_crypto [1] [4] [] ?r sample_session =
      (Ok (), sample_session\<lparr>nonce_tpm := [8]\<rparr>)"
    by (simp add: verify_response_eq [OF sample_ok])
  show ?thesis
    using accepted_responses_agree [OF sample_ok refl v v refl, of Sha256] v
    by (intro exI [of _ ?r] exI [of _ "sample_session\<lparr>nonce_tpm := [8]\<rparr>"] conjI) simp_all
qed

text \<open>
  The constant-time comparison decides equality of two strings of the same length.
\<close>

lemma constant_time_comparison:
  assumes "purecrypto_ok P" and "length a = length b"
  shows "ct_eq P a b = Ok (a = b)"
  by (rule ct_eq_correct [OF assms])

lemma constant_time_comparison_witness:
  "ct_eq sample_crypto [1, 2, 3] [1, 2, 4] = Ok False"
  using constant_time_comparison [OF sample_ok, of "[1, 2, 3]" "[1, 2, 4]"] by simp

section \<open>Marshalling\<close>

text \<open>
  The bounds-checked reader: inside its buffer, \<open>take\<close> returns exactly the next bytes and
  moves behind them, or reports malformed data and does not move, when fewer are left.
\<close>

lemma reader_take:
  assumes "pos r \<le> length (buf r)"
  shows "take_bytes n r =
    (if pos r + n \<le> length (buf r)
     then (Ok (take n (drop (pos r) (buf r))), r\<lparr>pos := pos r + n\<rparr>)
     else (Err (Malformed ''unexpected end of TPM buffer''), r))"
  using assms by (auto simp: take_bytes_eq reader_wf_def length_unread unread_def advance_def short_read_def)

lemma reader_take_witness:
  "take_bytes 2 \<lparr>buf = [1, 2, 3], pos = 1\<rparr> = (Ok [2, 3], \<lparr>buf = [1, 2, 3], pos = 3\<rparr>)"
  using reader_take [of "\<lparr>buf = [1, 2, 3], pos = 1\<rparr>" 2] by simp

text \<open>
  C26. The integers round-trip at their width, big-endian: what is marshalled is read back in front
  of any further bytes, and what was read is what marshals to the bytes consumed. The typed reads
  of the reader are those instances of the trait.
\<close>

theorem integers_round_trip:
  "fst (read_u16 (Reader_new (marshal_prim (a :: 16 word) [] @ rest))) = Ok a \<and>
   fst (read_u32 (Reader_new (marshal_prim (b :: 32 word) [] @ rest))) = Ok b \<and>
   fst (read_u64 (Reader_new (marshal_prim (c :: 64 word) [] @ rest))) = Ok c \<and>
   marshal_prim (0x80010203 :: 32 word) [7] = [7, 0x80, 0x01, 0x02, 0x03] \<and>
   read_u8 = unmarshal_prim \<and> read_u16 = unmarshal_prim \<and> read_u32 = unmarshal_prim \<and>
   read_u64 = unmarshal_prim"
proof -
  have "marshal_prim (0x80010203 :: 32 word) [7] = [7, 0x80, 0x01, 0x02, 0x03]"
    by (simp add: marshal_prim_def to_be_bytes_def upt_rec)
  then show ?thesis
    using reads_new [OF reads_read_prim(3)] reads_new [OF reads_read_prim(4)] reads_new [OF reads_read_prim(5)]
    by (simp add: marshal_prim_def read_prim_eq)
qed

text \<open>
  C27. A \<open>TPM2B\<close> round-trips and is canonical: up to 65535 bytes the buffer is read back in front of
  any further bytes, and whatever bytes a buffer is read from are its encoding.
\<close>

theorem tpm2b_canonical:
  assumes "reader_wf r"
  shows "(\<forall>b rest. length (buffer_bytes b) \<le> 65535 \<longrightarrow> unread r = marshal_Buffer b [] @ rest \<longrightarrow>
      unmarshal_Buffer r = (Ok b, advance (length (marshal_Buffer b [])) r)) \<and>
    (\<forall>b r'. unmarshal_Buffer r = (Ok b, r') \<longrightarrow>
      unread r = marshal_Buffer b [] @ unread r' \<and> length (buffer_bytes b) \<le> 65535)"
proof (intro conjI allI impI)
  fix b rest assume "length (buffer_bytes b) \<le> 65535" "unread r = marshal_Buffer b [] @ rest"
  then show "unmarshal_Buffer r = (Ok b, advance (length (marshal_Buffer b [])) r)"
    using codec_Buffer.round_trip [of b r rest] assms
    by (simp add: Buffer_wf_def fits_tpm2b_def marshal_Buffer_eq)
next
  fix b r' assume "unmarshal_Buffer r = (Ok b, r')"
  from codec_Buffer.unmarshal_inverse [OF assms this]
  show "unread r = marshal_Buffer b [] @ unread r'" "length (buffer_bytes b) \<le> 65535"
    by (simp_all add: marshal_Buffer_eq Buffer_wf_def fits_tpm2b_def)
qed

lemma tpm2b_canonical_witness:
  "unmarshal_Buffer (Reader_new (marshal_Buffer (Buffer [1, 2]) [] @ [3])) =
    (Ok (Buffer [1, 2]), advance (length (marshal_Buffer (Buffer [1, 2]) [])) (Reader_new (marshal_Buffer (Buffer [1, 2]) [] @ [3])))"
  using tpm2b_canonical [of "Reader_new (marshal_Buffer (Buffer [1, 2]) [] @ [3])"] by simp

text \<open>
  C28. PCR selection lists round-trip and are canonical: a list whose selections have at most 255
  bytes each is read back, and what a list is read from is its encoding.
\<close>

theorem pcr_selections_canonical:
  assumes "reader_wf r"
  shows "(\<forall>l rest. length (selections l) < 2 ^ 32 \<longrightarrow> (\<forall>s \<in> set (selections l). length (pcr_select s) \<le> 255) \<longrightarrow>
      unread r = marshal_PcrSelectionList l [] @ rest \<longrightarrow>
      unmarshal_PcrSelectionList r = (Ok l, advance (length (marshal_PcrSelectionList l [])) r)) \<and>
    (\<forall>l r'. unmarshal_PcrSelectionList r = (Ok l, r') \<longrightarrow> unread r = marshal_PcrSelectionList l [] @ unread r')"
proof (intro conjI allI impI)
  fix l rest assume "length (selections l) < 2 ^ 32" "\<forall>s \<in> set (selections l). length (pcr_select s) \<le> 255"
    and "unread r = marshal_PcrSelectionList l [] @ rest"
  then show "unmarshal_PcrSelectionList r = (Ok l, advance (length (marshal_PcrSelectionList l [])) r)"
    using codec_PcrSelectionList.round_trip [of l r rest] assms
    by (simp add: PcrSelectionList_wf_def PcrSelection_wf_def list_all_iff to_bytes_def)
next
  fix l r' assume "unmarshal_PcrSelectionList r = (Ok l, r')"
  from codec_PcrSelectionList.unmarshal_inverse [OF assms this]
  show "unread r = marshal_PcrSelectionList l [] @ unread r'" by (simp add: to_bytes_def)
qed

lemma pcr_selections_canonical_witness:
  "fst (unmarshal_PcrSelectionList (Reader_new (marshal_PcrSelectionList (PcrSelectionList
      [\<lparr>pcr_hash = Alg_SHA256, pcr_select = [0, 8, 0]\<rparr>]) [] @ [3]))) =
    Ok (PcrSelectionList [\<lparr>pcr_hash = Alg_SHA256, pcr_select = [0, 8, 0]\<rparr>])"
  using pcr_selections_canonical [of "Reader_new (marshal_PcrSelectionList (PcrSelectionList
      [\<lparr>pcr_hash = Alg_SHA256, pcr_select = [0, 8, 0]\<rparr>]) [] @ [3])"] by simp

text \<open>
  C29. Every unmarshaller of the crate is safe on any input: inside its buffer it never panics and
  never loops, it stays inside the buffer, and what it returns is determined by the bytes it
  consumed.
\<close>

theorem unmarshallers_bounded:
  "bounded_parser (unmarshal_prim :: 16 word parser) \<and> bounded_parser read_tpm2b \<and>
   bounded_parser unmarshal_Alg \<and> bounded_parser unmarshal_Handle \<and> bounded_parser unmarshal_ObjectAttributes \<and>
   bounded_parser unmarshal_SessionAttributes \<and> bounded_parser unmarshal_Buffer \<and>
   bounded_parser unmarshal_PcrSelection \<and> bounded_parser unmarshal_PcrSelectionList \<and>
   bounded_parser skip_tk_creation \<and> bounded_parser read_digest_list \<and> bounded_parser parse_auth_response"
  by (intro conjI parser_intros bounded_auth_response codec_Alg.unmarshal_bounded codec_Handle.unmarshal_bounded
      codec_ObjectAttributes.unmarshal_bounded codec_SessionAttributes.unmarshal_bounded
      codec_PcrSelection.unmarshal_bounded codec_PcrSelectionList.unmarshal_bounded)

section \<open>Structures\<close>

text \<open>
  C30. The parameters of \<open>TPM2_Create\<close> and \<open>TPM2_CreatePrimary\<close> decode on the TPM's side to the
  sensitive area and the template the caller passed, with empty outside information and no
  creation PCRs.
\<close>

theorem create_params_decode:
  assumes "SensitiveCreate_wf s" and "fits_tpm2b (wire_SensitiveCreate s)"
    and "Public_wf pub" and "fits_tpm2b (wire_Public pub)"
  shows "parse_all parse_create_params (create_params s pub) =
    Some (s, pub, Buffer_empty, PcrSelectionList [])"
  by (rule parse_all_reads [OF reads_create_params [OF assms]])

lemma create_params_decode_witness:
  "parse_all parse_create_params (create_params SensitiveCreate_default (sealed_data_template Alg_SHA256)) =
    Some (SensitiveCreate_default, sealed_data_template Alg_SHA256, Buffer_empty, PcrSelectionList [])"
  by (rule create_params_decode)
    (simp_all add: SensitiveCreate_wf_def SensitiveCreate_default_def Buffer_wf_def fits_tpm2b_def
      wire_SensitiveCreate_def wire_Buffer_def tpm2b_def Public_wf_def sealed_data_template_def
      Buffer_empty_def wire_Public_def)

text \<open>
  The two templates are what their names say, on the wire: the storage parent is a restricted
  decryption ECC P-256 key with AES-128-CFB, the sealed-data object a keyed-hash object without
  scheme, each with the object attributes of its kind.
\<close>

lemma templates_on_the_wire:
  "to_bytes marshal_Public (ecc_storage_parent Alg_SHA256) =
     [0x00, 0x23, 0x00, 0x0B, 0x00, 0x03, 0x00, 0x72, 0x00, 0x00, 0x00, 0x06, 0x00, 0x80, 0x00, 0x43,
      0x00, 0x10, 0x00, 0x03, 0x00, 0x10, 0x00, 0x00, 0x00, 0x00] \<and>
   to_bytes marshal_Public (sealed_data_template Alg_SHA256) =
     [0x00, 0x08, 0x00, 0x0B, 0x00, 0x00, 0x00, 0x52, 0x00, 0x00, 0x00, 0x10, 0x00, 0x00]"
  by (simp add: to_bytes_Public wire_Public_def ecc_storage_parent_def sealed_data_template_def
      wire_SymDefObject_def aes128_cfb_def wire_Buffer_def Buffer_wf_def Buffer_empty_def fits_tpm2b_def
      tpm2b_def tpm_consts oa_storage_parent_def oa_sealed_data_def attr_bits to_be_bytes_def upt_rec)

text \<open>
  The selection of a single PCR has exactly that bit, in at least three bytes.
\<close>

lemma single_selects_one:
  assumes "i < 8 * length (pcr_select (PcrSelection_single h pcr))"
  shows "bit (pcr_select (PcrSelection_single h pcr) ! (i div 8)) (i mod 8) \<longleftrightarrow> i = unat pcr"
  using assms by (rule single_bit)

lemma single_selects_one_witness:
  "bit (pcr_select (PcrSelection_single Alg_SHA256 11) ! 1) 3"
  using single_selects_one [of 11 Alg_SHA256 11] by (simp add: length_single)

text \<open>
  The digests of a PCR extension decode on the TPM's side to the banks and digests given,
  when each digest has the size of its bank.
\<close>

lemma digest_values_decode:
  assumes "length ds < 2 ^ 32"
    and "\<forall>(alg, b) \<in> set ds. \<exists>d. hash_fn_of alg = Some d \<and> length b = hash_len d"
  shows "parse_all parse_digest_values (digest_values ds) = Some ds"
  using assms by (intro parse_all_reads reads_digest_values) (auto simp: digests_wf_def list_all_iff)

lemma digest_values_decode_witness:
  "parse_all parse_digest_values (digest_values [(Alg_SHA256, replicate 32 1), (Alg_SHA1, replicate 20 2)]) =
    Some [(Alg_SHA256, replicate 32 1), (Alg_SHA1, replicate 20 2)]"
  by (rule digest_values_decode) (auto simp: hash_fn_of_def tpm_consts)

section \<open>Commands\<close>

text \<open>
  \<open>unseal\<close>: when the TPM answers the authorized request with a reply that passes the check,
  and its parameters hold a sized buffer, the data of that buffer is what the caller gets.
\<close>

lemma unseal_returns_data:
  assumes "purecrypto_ok (crypto E)"
    and "answered E cc_UNSEAL [item] [item_name] [] st [] (tpm2b secret @ rest) st'" and "length secret \<le> 65535"
  shows "unseal E item item_name st = (Ok secret, st')"
  using assms by (intro unseal_answered) (simp_all add: fits_tpm2b_def)

lemma unseal_returns_data_witness:
  "fst (unseal sample_ports (Handle 0x80000001) [1] (AuthPassword [7],
     sample_machine [reply [] (tpm2b [5, 6] @ []) None])) = Ok [5, 6]"
proof -
  have a: "answered sample_ports cc_UNSEAL [Handle 0x80000001] [[1]] []
      (AuthPassword [7], sample_machine [reply [] (tpm2b [5, 6] @ []) None]) [] (tpm2b [5, 6] @ [])
      (AuthPassword [7], sample_machine [])"
    by (rule answered_playback) (simp_all add: fits_tpm2b_def length_tpm2b)
  have P: "purecrypto_ok (crypto sample_ports)" by (simp add: sample_ok)
  show ?thesis by (subst unseal_returns_data [OF P a]) simp_all
qed

text \<open>
  C31. \<open>create_primary\<close> returns the handle, the public area and the Name out of the reply, past the
  creation data, hash and ticket.
\<close>

theorem create_primary_returns_object:
  assumes "purecrypto_ok (crypto E)"
    and "answered E cc_CREATE_PRIMARY [hierarchy] [permanent_name hierarchy] (create_params s pub) st [h]
      (tpm2b public @ tpm2b cdata @ tpm2b chash @ to_be_bytes (tag :: 16 word) @ to_be_bytes (hier :: 32 word) @
        tpm2b ticket @ tpm2b name @ rest) st'"
    and "\<forall>d \<in> {public, cdata, chash, ticket, name}. length d \<le> 65535"
  shows "create_primary E hierarchy s pub st =
    (Ok \<lparr>cp_handle = h, cp_name = Buffer name, cp_public = Buffer public\<rparr>, st')"
  using assms(3) by (intro create_primary_answered [OF assms(1,2)]) (simp_all add: fits_tpm2b_def)

lemma create_primary_returns_object_witness:
  "fst (create_primary sample_ports (Handle rh_OWNER) SensitiveCreate_default (ecc_storage_parent Alg_SHA256)
     (AuthPassword [], sample_machine [reply [Handle 0x80000000] (tpm2b [1] @ tpm2b [2] @ tpm2b [3] @
       to_be_bytes st_CREATION @ to_be_bytes rh_OWNER @ tpm2b [4] @ tpm2b [0, 11, 5] @ []) None])) =
    Ok \<lparr>cp_handle = Handle 0x80000000, cp_name = Buffer [0, 11, 5], cp_public = Buffer [1]\<rparr>"
proof -
  have a: "answered sample_ports cc_CREATE_PRIMARY [Handle rh_OWNER] [permanent_name (Handle rh_OWNER)]
      (create_params SensitiveCreate_default (ecc_storage_parent Alg_SHA256))
      (AuthPassword [], sample_machine [reply [Handle 0x80000000] (tpm2b [1] @ tpm2b [2] @ tpm2b [3] @
       to_be_bytes st_CREATION @ to_be_bytes rh_OWNER @ tpm2b [4] @ tpm2b [0, 11, 5] @ []) None])
      [Handle 0x80000000] (tpm2b [1] @ tpm2b [2] @ tpm2b [3] @
       to_be_bytes st_CREATION @ to_be_bytes rh_OWNER @ tpm2b [4] @ tpm2b [0, 11, 5] @ [])
      (AuthPassword [], sample_machine [])"
    by (rule answered_playback) (simp_all add: fits_tpm2b_def length_tpm2b)
  have P: "purecrypto_ok (crypto sample_ports)" by (simp add: sample_ok)
  show ?thesis by (subst create_primary_returns_object [OF P a]) simp_all
qed

text \<open>
  C32. \<open>create\<close> returns the private and the public blob of the reply, and \<open>load\<close>, which sends the two
  blobs as they are, returns the handle and the Name.
\<close>

theorem create_and_load:
  assumes "purecrypto_ok (crypto E)"
    and "answered E cc_CREATE [parent] [parent_name] (create_params s pub) st [] (tpm2b prv @ tpm2b pb @ rest) st'"
    and "answered E cc_LOAD [parent] [parent_name] (tpm2b prv @ tpm2b pb) st' [h] (tpm2b name @ rest') st''"
    and "length prv \<le> 65535" and "length pb \<le> 65535" and "length name \<le> 65535"
  shows "bindE (create E parent parent_name s pub) (\<lambda>c. load E parent parent_name (cr_private c) (cr_public c)) st =
    (Ok \<lparr>lr_handle = h, lr_name = Buffer name\<rparr>, st'')"
proof -
  have f: "fits_tpm2b prv" "fits_tpm2b pb" "fits_tpm2b name" using assms(4-6) by (simp_all add: fits_tpm2b_def)
  show ?thesis
    by (simp add: bindE_def create_answered [OF assms(1,2) f(1,2)] load_answered [OF assms(1,3) f])
qed

lemma create_and_load_witness:
  "\<exists>st''. bindE (create sample_ports (Handle 0x80000000) [1] SensitiveCreate_default (sealed_data_template Alg_SHA256))
      (\<lambda>c. load sample_ports (Handle 0x80000000) [1] (cr_private c) (cr_public c))
      (AuthPassword [], sample_machine [reply [] (tpm2b [7] @ tpm2b [8] @ []) None,
        reply [Handle 0x80000001] (tpm2b [9] @ []) None]) =
    (Ok \<lparr>lr_handle = Handle 0x80000001, lr_name = Buffer [9]\<rparr>, st'')"
proof -
  have P: "purecrypto_ok (crypto sample_ports)" by (simp add: sample_ok)
  have 1: "answered sample_ports cc_CREATE [Handle 0x80000000] [[1]]
      (create_params SensitiveCreate_default (sealed_data_template Alg_SHA256))
      (AuthPassword [], sample_machine (reply [] (tpm2b [7] @ tpm2b [8] @ []) None # rs)) []
      (tpm2b [7] @ tpm2b [8] @ []) (AuthPassword [], sample_machine rs)" for rs
    by (rule answered_playback_cons) (simp_all add: fits_tpm2b_def length_tpm2b)
  have 2: "answered sample_ports cc_LOAD [Handle 0x80000000] [[1]] (tpm2b [7] @ tpm2b [8])
      (AuthPassword [], sample_machine [reply [Handle 0x80000001] (tpm2b [9] @ []) None]) [Handle 0x80000001]
      (tpm2b [9] @ []) (AuthPassword [], sample_machine [])"
    by (rule answered_playback) (simp_all add: fits_tpm2b_def length_tpm2b)
  show ?thesis by (rule exI, rule create_and_load [OF P 1 2]) simp_all
qed

text \<open>
  C33. \<open>start_auth_session\<close> sends the null handles, the caller's nonce, no salt, an HMAC session, no
  symmetric algorithm and the hash; from the reply it builds an unbound, unsalted session with the
  two nonces, which continues across commands.
\<close>

theorem session_is_started:
  assumes "purecrypto_ok (crypto E)" and "hash_fn_of alg = Some d"
    and "length nonce \<le> 65535" and "length nt \<le> 65535" and "reply_wf [h] (tpm2b nt @ rest) ar"
    and "transmit E (request cc_START_AUTH_SESSION [Handle rh_NULL, Handle rh_NULL] None
      (tpm2b nonce @ tpm2b [] @ [se_HMAC] @ to_be_bytes (alg_raw Alg_NULL) @ to_be_bytes (alg_raw alg)))
      (transport m) = (Ok (reply [h] (tpm2b nt @ rest) ar), t)"
  shows "start_auth_session E alg nonce m =
    (Ok \<lparr>sess_handle = h, sess_hash_alg = alg, sess_attributes = sa_continue_session, session_key = [],
       nonce_tpm = nt, nonce_caller = nonce, bound_name = []\<rparr>, m\<lparr>transport := t\<rparr>)"
  using start_auth_session_answered [OF assms(1,2) _ _ answered_plain [OF assms(1,5)
      assms(6) [folded session_params_def]]] assms(3,4) by (simp add: fits_tpm2b_def)

lemma session_is_started_witness:
  "fst (start_auth_session sample_ports Alg_SHA256 (replicate 32 7)
     (sample_machine [reply [Handle 0x02000000] (tpm2b (replicate 32 5) @ []) None])) =
    Ok \<lparr>sess_handle = Handle 0x02000000, sess_hash_alg = Alg_SHA256, sess_attributes = sa_continue_session,
      session_key = [], nonce_tpm = replicate 32 5, nonce_caller = replicate 32 7, bound_name = []\<rparr>"
  by (subst session_is_started [where rest = "[]" and ar = None and h = "Handle 0x02000000" and
      nt = "replicate 32 5" and t = "[]" and d = Sha256])
    (simp_all add: sample_ok small_reply_wf length_tpm2b)



text \<open>
  \<open>get_capability\<close> and \<open>get_random\<close> return what the reply carries: the flag, the capability and
  all the remaining bytes, respectively the random bytes, be they fewer than asked for.
\<close>

lemma capability_and_random:
  fixes mo :: byte and cap c prp count :: "32 word" and n :: "16 word"
  assumes "purecrypto_ok (crypto E)" and "length rnd \<le> 65535"
    and "reply_wf [] (mo # to_be_bytes cap @ data) ar" and "reply_wf [] (tpm2b rnd) ar'"
    and "transmit E (request cc_GET_CAPABILITY [] None
      (to_be_bytes c @ to_be_bytes prp @ to_be_bytes count)) (transport m) =
      (Ok (reply [] (mo # to_be_bytes cap @ data) ar), t)"
    and "transmit E (request cc_GET_RANDOM [] None (to_be_bytes n)) (transport m') = (Ok (reply [] (tpm2b rnd) ar'), t')"
  shows "get_capability E c prp count m =
      (Ok \<lparr>cd_more = (mo \<noteq> 0), cd_capability = cap, cd_data = data\<rparr>, m\<lparr>transport := t\<rparr>) \<and>
    get_random E n m' = (Ok rnd, m'\<lparr>transport := t'\<rparr>)"
  using get_capability_answered [OF assms(1) answered_plain [OF assms(1,3,5)]]
    get_random_answered [where rest = "[]", OF assms(1) _ answered_plain [OF assms(1)]] assms(2,4,6)
  by (simp add: fits_tpm2b_def)

lemma capability_and_random_witness:
  "fst (get_random sample_ports 16 (sample_machine [reply [] (tpm2b [1, 2, 3]) None])) = Ok [1, 2, 3] \<and>
   fst (get_capability sample_ports cap_ALGS 0 1 (sample_machine [reply [] (1 # to_be_bytes cap_ALGS @ [5]) None])) =
     Ok \<lparr>cd_more = True, cd_capability = cap_ALGS, cd_data = [5]\<rparr>"
  using capability_and_random [of sample_ports "[1, 2, 3]" 1 cap_ALGS "[5]" None None cap_ALGS 0 1
      "sample_machine [reply [] (1 # to_be_bytes cap_ALGS @ [5]) None]" "[]" 16
      "sample_machine [reply [] (tpm2b [1, 2, 3]) None]" "[]"]
  by (simp add: sample_ok small_reply_wf length_tpm2b)

section \<open>Transports\<close>

text \<open>
  The simulator's framing: when the socket holds a reply of at most one megabyte in the
  protocol's framing, a transmission returns exactly its response and leaves the socket right
  behind it; it has sent the send-command selector, the locality, the length and the command.
  This holds for every fragmentation and interruption of the reads and writes.
\<close>

lemma simulator_framing:
  assumes "length resp \<le> 2 ^ 20"
    and "tcp_in (sim_cmd t) = to_be_bytes (of_nat (length resp) :: 32 word) @ resp @ to_be_bytes (0 :: 32 word) @ rest"
  shows "\<exists>c. sim_transmit tcp command t = (Ok resp, t\<lparr>sim_cmd := c\<rparr>) \<and> tcp_in c = rest \<and>
    tcp_out c = tcp_out (sim_cmd t) @ to_be_bytes (8 :: 32 word) @ [sim_locality t] @
      to_be_bytes (of_nat (length command) :: 32 word) @ command"
proof -
  have "length resp \<le> sim_MAX_RESPONSE" using assms(1) by (simp add: sim_MAX_RESPONSE_def)
  from tcp_link.sim_transmit_ok [OF this assms(2), of command] show ?thesis
    by (metis TPM_SEND_COMMAND_def)
qed

lemma simulator_framing_witness:
  "\<exists>c. sim_transmit tcp [9, 9] \<lparr>sim_cmd = \<lparr>tcp_in = to_be_bytes (of_nat (length [1, 2 :: byte]) :: 32 word) @ [1, 2] @
      to_be_bytes (0 :: 32 word) @ [], tcp_out = [], tcp_script = [1, 0, 2, 0, 0, 1]\<rparr>, sim_platform = None,
      sim_locality = 0\<rparr> = (Ok [1, 2], \<lparr>sim_cmd = c, sim_platform = None, sim_locality = 0\<rparr>)"
  using simulator_framing [of "[1, 2]" "\<lparr>sim_cmd = \<lparr>tcp_in = to_be_bytes (of_nat (length [1, 2 :: byte]) :: 32 word) @ [1, 2] @
      to_be_bytes (0 :: 32 word) @ [], tcp_out = [], tcp_script = [1, 0, 2, 0, 0, 1]\<rparr>, sim_platform = None,
      sim_locality = 0\<rparr>" "[]" "[9, 9]"]
  by auto

text \<open>
  C35. A transmission to the simulator on every input: whatever the socket has in store and however
  it fragments and interrupts, the command goes out framed, and the result is that of reading the
  bytes that come back as a whole: the response when a length of at most one megabyte, as many bytes
  and a zero code arrive, and the socket is left right behind it; an error for a longer length, which
  leaves the bytes after it unread, for a code that is not zero, and for bytes that end early.
\<close>

theorem simulator_reads_whole:
  "\<exists>c. sim_transmit tcp command t = (fst (deframed (tcp_in (sim_cmd t))), t\<lparr>sim_cmd := c\<rparr>) \<and>
    tcp_in c = snd (deframed (tcp_in (sim_cmd t))) \<and>
    tcp_out c = tcp_out (sim_cmd t) @ to_be_bytes (8 :: 32 word) @ [sim_locality t] @
      to_be_bytes (of_nat (length command) :: 32 word) @ command"
  by (rule tcp_link.sim_transmit_whole [of command t]) (auto simp: TPM_SEND_COMMAND_def)

lemma simulator_reads_whole_witness:
  "fst (sim_transmit tcp [9] \<lparr>sim_cmd = \<lparr>tcp_in = [0, 0, 0, 1, 7, 0, 0, 0], tcp_out = [], tcp_script = [1, 0, 2]\<rparr>,
     sim_platform = None, sim_locality = 0\<rparr>) = Err (Transport ''failed to fill whole buffer'')"
  using simulator_reads_whole [of "[9]" "\<lparr>sim_cmd = \<lparr>tcp_in = [0, 0, 0, 1, 7, 0, 0, 0], tcp_out = [],
      tcp_script = [1, 0, 2]\<rparr>, sim_platform = None, sim_locality = 0\<rparr>"]
  by (auto simp: deframed_def from_be_bytes_def)

text \<open>
  C36. Powering on, whatever the platform socket delivers and however it fragments it: the power
  signal is sent, and the NV signal after it if and only if the simulator answered the first with
  zero; the result is the first refusal or lack of an answer, the bytes left are those after the
  answers. Without a platform socket it is a usage error and nothing is sent.
\<close>

theorem power_on_reads_whole:
  "case sim_platform t of
     None \<Rightarrow> power_on tcp t =
       (Err (Usage ''no platform socket; connect with connect_mssim (swtpm uses --flags startup-clear instead)''), t)
   | Some p \<Rightarrow> (\<exists>q. power_on tcp t = (fst (powered (tcp_in p)), t\<lparr>sim_platform := Some q\<rparr>) \<and>
       tcp_in q = fst (snd (powered (tcp_in p))) \<and> tcp_out q = tcp_out p @ snd (snd (powered (tcp_in p))))"
proof (cases "sim_platform t")
  case None
  then show ?thesis by (simp add: power_on_def platform_signal_def bindE_def)
next
  case (Some p)
  from Some show ?thesis by (auto intro: tcp_link.power_on_whole [OF Some])
qed

lemma power_on_reads_whole_witness:
  "\<exists>q. power_on tcp \<lparr>sim_cmd = \<lparr>tcp_in = [], tcp_out = [], tcp_script = []\<rparr>, sim_platform = Some \<lparr>tcp_in = [0, 0, 0, 2, 9],
      tcp_out = [], tcp_script = [2, 0, 1]\<rparr>, sim_locality = 0\<rparr> =
    (Err (Transport ''simulator platform signal 1 failed: rc=2''), \<lparr>sim_cmd = \<lparr>tcp_in = [], tcp_out = [], tcp_script = []\<rparr>,
      sim_platform = Some q, sim_locality = 0\<rparr>) \<and> tcp_in q = [9] \<and> tcp_out q = [0, 0, 0, 1]"
proof -
  have "powered [0, 0, 0, 2, 9] =
      (Err (Transport ''simulator platform signal 1 failed: rc=2''), [9], [0, 0, 0, 1])"
    by code_simp
  then show ?thesis
    using power_on_reads_whole [of "\<lparr>sim_cmd = \<lparr>tcp_in = [], tcp_out = [], tcp_script = []\<rparr>,
      sim_platform = Some \<lparr>tcp_in = [0, 0, 0, 2, 9], tcp_out = [], tcp_script = [2, 0, 1]\<rparr>, sim_locality = 0\<rparr>"]
    by simp
qed

text \<open>With a zero after each signal it succeeds.\<close>

lemma power_on_signals:
  assumes "sim_platform t = Some p"
    and "tcp_in p = to_be_bytes (0 :: 32 word) @ to_be_bytes (0 :: 32 word) @ rest"
  shows "\<exists>q. power_on tcp t = (Ok (), t\<lparr>sim_platform := Some q\<rparr>) \<and> tcp_in q = rest \<and>
      tcp_out q = tcp_out p @ to_be_bytes (1 :: 32 word) @ to_be_bytes (11 :: 32 word)"
proof -
  have p: "powered (tcp_in p) = (Ok (), rest, to_be_bytes TPM_SIGNAL_POWER_ON @ to_be_bytes TPM_SIGNAL_NV_ON)"
    by (simp add: powered_def signalled_def assms(2))
  show ?thesis
    by (rule tcp_link.power_on_whole [OF assms(1)]) (auto simp: p TPM_SIGNAL_POWER_ON_def TPM_SIGNAL_NV_ON_def)
qed

text \<open>
  C37. The Linux device: a transmission hands the command to the driver in one write and returns
  the TPM's response, cut at 4096 bytes; an empty response is a transport error.
\<close>

theorem device_returns_response:
  assumes "command \<noteq> []" and "answer command (kt_tpm (dev_file t)) = (resp, q)"
  shows "device_transmit (kernel answer) command t =
    (if resp = [] then Err (Transport ''empty TPM response'') else Ok (take 4096 resp),
     t\<lparr>dev_file := (dev_file t)\<lparr>kt_tpm := q, kt_pending := drop 4096 resp\<rparr>\<rparr>)"
  using assms by (rule device_transmit_kernel)

lemma device_returns_response_witness:
  "fst (device_transmit (kernel (\<lambda>c q. (c @ [1], q + 1 :: nat))) [5] \<lparr>dev_file = \<lparr>kt_tpm = 0, kt_pending = []\<rparr>\<rparr>) = Ok [5, 1]"
  using device_returns_response [of "[5]" "\<lambda>c q. (c @ [1], q + 1 :: nat)" "\<lparr>dev_file = \<lparr>kt_tpm = 0, kt_pending = []\<rparr>\<rparr>" "[5, 1]" 1]
  by simp

section \<open>Response codes\<close>

text \<open>
  C38. A format-one response code decodes into what the TPM encoded: the error with bits 6 and 8
  to 11 masked away, the four-bit number field, and the kind of argument, told by bit 6 and the
  top bit of the number. For a session the number returned is the whole field, 8 more than the
  position of the session.
\<close>

theorem format_one_decodes:
  assumes "format_one_code code" and "n < 16"
  shows "base (TpmRc (format_one code param n)) = TpmRc code \<and>
    arg_number (TpmRc (format_one code param n)) = Some (ucast n) \<and>
    arg_kind (TpmRc (format_one code param n)) =
      Some (if param then ArgParameter else if 8 \<le> n then ArgSession else ArgHandle)"
proof -
  note f = format_one_fields [OF assms]
  have "is_format_one (TpmRc (format_one code param n))"
    using f(1) by (simp add: is_format_one_def and_bit_test)
  then show ?thesis
    using f by (simp add: base_def arg_number_def arg_kind_def and_bit_test)
qed

lemma format_one_decodes_witness:
  "arg_number (TpmRc (format_one 0x0A2 False 9)) = Some 9 \<and>
   arg_kind (TpmRc (format_one 0x0A2 False 9)) = Some ArgSession"
  using format_one_decodes [of "0x0A2" 9 False] by (simp add: format_one_code_def)

text \<open>
  Resubmission is confined to the three warnings \<open>TPM_RC_YIELDED\<close>, \<open>TPM_RC_TESTING\<close> and
  \<open>TPM_RC_RETRY\<close>: no format-one code is transient, and stripping the argument twice is
  stripping it once.
\<close>

lemma transient_codes:
  "(is_transient rc \<longleftrightarrow> rc_raw rc = 0x908 \<or> rc_raw rc = 0x90A \<or> rc_raw rc = 0x922) \<and> base (base rc) = base rc"
proof
  have fmt: "rc_raw (base rc) \<noteq> 0x908 \<and> rc_raw (base rc) \<noteq> 0x90A \<and> rc_raw (base rc) \<noteq> 0x922" if "is_format_one rc"
  proof -
    have "\<not> bit (rc_raw (base rc)) 11"
      using that by (simp add: base_def bit_and_iff bit_code_mask del: bit_numeral_word_iff)
    moreover have "bit (0x908 :: 32 word) 11" "bit (0x90A :: 32 word) 11" "bit (0x922 :: 32 word) 11" by simp_all
    ultimately show ?thesis by metis
  qed
  have raw: "is_format_one (TpmRc w) \<Longrightarrow> w \<noteq> 0x908 \<and> w \<noteq> 0x90A \<and> w \<noteq> 0x922" for w
    by (auto simp: is_format_one_def)
  show "is_transient rc \<longleftrightarrow> rc_raw rc = 0x908 \<or> rc_raw rc = 0x90A \<or> rc_raw rc = 0x922"
  proof (cases "is_format_one rc")
    case True
    then show ?thesis using fmt raw [of "rc_raw rc"] by (auto simp: is_transient_def)
  next
    case False
    then show ?thesis by (auto simp: is_transient_def base_def)
  qed
  show "base (base rc) = base rc"
  proof (cases "is_format_one rc")
    case True
    then have "is_format_one (base rc)" by simp
    then show ?thesis by (simp add: base_def [of "base rc"]) (simp add: base_def and.assoc)
  qed (simp add: base_def)
qed

section \<open>Handles, attributes, hashes\<close>

text \<open>
  A handle is transient, persistent or a session exactly when it lies in the interval of its
  type, and no handle is two of these.
\<close>

lemma handle_classes:
  "(is_transient_handle h \<longleftrightarrow> Handle 0x80000000 \<le> h \<and> h \<le> Handle 0x80FFFFFF) \<and>
   (is_persistent_handle h \<longleftrightarrow> Handle 0x81000000 \<le> h \<and> h \<le> Handle 0x81FFFFFF) \<and>
   (is_session_handle h \<longleftrightarrow> Handle 0x02000000 \<le> h \<and> h \<le> Handle 0x03FFFFFF)"
  by (auto simp: is_transient_handle_def is_persistent_handle_def is_session_handle_def handle_type_interval
      less_eq_Handle_def word_le_nat_alt)

text \<open>
  The attribute words are sets: \<open>contains\<close> is inclusion and \<open>with\<close> is union, for objects and for
  sessions. The sealed-data attributes are those of the storage parent without
  \<open>sensitiveDataOrigin\<close>, \<open>restricted\<close> and \<open>decrypt\<close>.
\<close>

lemma attribute_sets:
  "(oa_contains (oa_with a b) c \<longleftrightarrow> (\<forall>i. bit c i \<longrightarrow> bit (oa_bits a) i \<or> bit b i)) \<and>
   (sa_contains (sa_with a' b') c' \<longleftrightarrow> (\<forall>i. bit c' i \<longrightarrow> bit (sa_bits a') i \<or> bit b' i)) \<and>
   oa_with (oa_with (oa_with oa_sealed_data OA_SENSITIVE_DATA_ORIGIN) OA_RESTRICTED) OA_DECRYPT = oa_storage_parent \<and>
   \<not> oa_contains oa_sealed_data OA_SENSITIVE_DATA_ORIGIN \<and> \<not> oa_contains oa_sealed_data OA_RESTRICTED \<and>
   \<not> oa_contains oa_sealed_data OA_DECRYPT"
  by (intro conjI object_bits.contains_add session_bits.contains_add)
    (simp_all add: oa_sealed_data_def oa_storage_parent_def oa_with_def oa_contains_def attr_bits)

lemma attribute_sets_witness:
  "sa_contains (sa_with sa_continue_session SA_DECRYPT) SA_DECRYPT"
  using attribute_sets [of "ObjectAttributes 0" 0 0 sa_continue_session SA_DECRYPT SA_DECRYPT] by blast

text \<open>
  C39. Hash agility: for every algorithm identifier, hashing and HMAC succeed exactly when the
  identifier has a non-zero digest size, and then the result has that size and depends on the
  concatenation of the parts only; otherwise they are usage errors.
\<close>

theorem hash_agility:
  assumes "purecrypto_ok P"
  shows "(case crypto_digest_size alg of
      Ok n \<Rightarrow> digest_size alg = Some n \<and> 0 < n \<and>
        (\<exists>x y. hash_parts P alg parts = Ok x \<and> length x = n \<and> hash P alg (concat parts) = Ok x \<and>
          hmac_parts P alg key parts = Ok y \<and> length y = n \<and> hmac_parts P alg key [concat parts] = Ok y)
    | Err e \<Rightarrow> digest_size alg \<in> {None, Some 0} \<and>
        hash_parts P alg parts = Err (Usage ''unsupported hash algorithm'') \<and>
        hmac_parts P alg key parts = Err (Usage ''unsupported HMAC hash algorithm'')
    | _ \<Rightarrow> False)"
proof (cases "hash_fn_of alg")
  case None
  have "digest_size alg \<in> {None, Some 0}"
    using None by (cases alg) (auto simp: hash_fn_of_def digest_size_def tpm_consts Let_def split: if_splits)
  then show ?thesis using None by (simp add: crypto_digest_size_eq unsupported_returns)
next
  case (Some d)
  have "digest_size alg = Some (hash_len d)"
    using hash_fn_of_cases [OF Some] by (auto simp: digest_size_def tpm_consts)
  then show ?thesis
    using Some assms hash_len_bounds(1) [of d] by (simp add: crypto_digest_size_eq hash_parts_eq hmac_parts_eq hash_def)
qed

lemma hash_agility_witness:
  "\<exists>x. hash_parts sample_crypto Alg_SHA256 [[1], [2]] = Ok x \<and> length x = 32"
  using hash_agility [OF sample_ok, of Alg_SHA256 "[[1], [2]]" "[]"] by (auto simp: crypto_digest_size_eq)

section \<open>Errors through a run\<close>

text \<open>
  C40. A response code other than success and the transient warnings comes back as that TPM error
  after a single transmission, whatever the rest of the response holds; the session is left as
  the command left it.
\<close>

theorem tpm_error_is_reported:
  assumes "purecrypto_ok (crypto E)" and "request_fits hs params" and "rc \<noteq> 0" and "\<not> is_transient (TpmRc rc)"
    and "authorize E code names params (auth, m) = (Ok ac, (auth1, m1))"
    and "transmit E (request code hs ac params) (transport m1) =
      (Ok (to_be_bytes (tag :: 16 word) @ to_be_bytes (sz :: 32 word) @ to_be_bytes rc @ rest), t)"
  shows "run E code hs names params k (auth, m) = (Err (Tpm (TpmRc rc)), (auth1, m1\<lparr>transport := t\<rparr>))"
  by (rule run_error_reply [OF assms])

lemma tpm_error_is_reported_witness:
  "fst (run sample_ports cc_UNSEAL [Handle 1] [[1]] [] 0 (AuthPassword [3], sample_machine
     [to_be_bytes st_NO_SESSIONS @ to_be_bytes (10 :: 32 word) @ to_be_bytes (0x9A2 :: 32 word) @ []])) =
   Err (Tpm (TpmRc 0x9A2))"
  by (subst tpm_error_is_reported [where ?auth1.0 = "AuthPassword [3]" and ac = "Some (password_entry [3])" and
      ?m1.0 = "sample_machine [to_be_bytes st_NO_SESSIONS @ to_be_bytes (10 :: 32 word) @ to_be_bytes (0x9A2 :: 32 word) @ []]"
      and t = "[]" and rest = "[]"])
    (simp_all add: sample_ok request_fits_def is_transient_def base_def is_format_one_def fits_tpm2b_def)

text \<open>
  The CFB transform dispatches on the key size: 16 and 32 bytes select AES-128 and AES-256 and
  decryption inverts encryption if it does so in the cipher; any other size is a usage error
  that leaves the data alone.
\<close>

lemma cfb_round_trip:
  assumes "\<And>f x. cfb_decrypt P f key iv (cfb_encrypt P f key iv x) = x"
  shows "bindE (aes_cfb P key iv True) (\<lambda>_. aes_cfb P key iv False) data =
    (if length key \<in> {16, 32} then (Ok (), data) else (Err (Usage ''unsupported AES key size for CFB''), data))"
  using assms by (simp add: bindE_def aes_cfb_def)

lemma cfb_round_trip_witness:
  "bindE (aes_cfb sample_crypto (replicate 16 1) [] True) (\<lambda>_. aes_cfb sample_crypto (replicate 16 1) [] False) [1, 2] =
    (Ok (), [1, 2])"
proof -
  have "cfb_decrypt sample_crypto f k iv (cfb_encrypt sample_crypto f k iv x) = x" for f k iv x
    by (simp add: sample_crypto_def comp_def xor.assoc)
  from cfb_round_trip [of sample_crypto "replicate 16 1" "[]" "[1, 2]", OF this] show ?thesis by simp
qed

end
